(* ===== verification/Prelude.thy ===== *)
theory Prelude
  imports Main "HOL-Library.Word" "HOL-Library.Monad_Syntax"
begin

text \<open>
  Shared vocabulary of the development: the machine types, C memory as byte lists, the
  little-endian encoding of machine words, and C strings, with the lemmas about them that every
  component uses. A C object is a byte list; an access outside of the object is undefined
  behaviour in C and is the value \<open>None\<close> here, so that a theorem that a routine returns
  \<open>Some\<close> is a memory-safety theorem.
\<close>

unbundle bit_operations_syntax

named_theorems mem_simps \<open>reads and writes of C objects\<close>
named_theorems le_simps \<open>little-endian encoding of words\<close>

type_synonym byte = "8 word"
type_synonym u32 = "32 word"
type_synonym i32 = "32 word"
type_synonym u64 = "64 word"
type_synonym i64 = "64 word"

section \<open>C memory\<close>

definition mem_write :: "byte list \<Rightarrow> nat \<Rightarrow> byte list \<Rightarrow> byte list option" where
  "mem_write buf off bs =
     (if off + length bs \<le> length buf
      then Some (take off buf @ bs @ drop (off + length bs) buf) else None)"

definition mem_read :: "byte list \<Rightarrow> nat \<Rightarrow> nat \<Rightarrow> byte list option" where
  "mem_read buf off n = (if off + n \<le> length buf then Some (take n (drop off buf)) else None)"

lemma mem_write_ok [mem_simps]:
  "off + length bs \<le> length buf \<Longrightarrow>
     mem_write buf off bs = Some (take off buf @ bs @ drop (off + length bs) buf)"
  by (simp add: mem_write_def)

lemma mem_write_SomeD:
  "mem_write buf off bs = Some buf' \<Longrightarrow> off + length bs \<le> length buf \<and> length buf' = length buf"
  by (auto simp: mem_write_def split: if_splits)

lemma length_mem_write: "mem_write buf off bs = Some buf' \<Longrightarrow> length buf' = length buf"
  by (simp add: mem_write_SomeD)

lemma mem_write_None_iff [simp]: "mem_write buf off bs = None \<longleftrightarrow> length buf < off + length bs"
  by (auto simp: mem_write_def)

lemma nth_mem_write:
  assumes "mem_write buf off bs = Some buf'" and "i < length buf"
  shows "buf' ! i = (if off \<le> i \<and> i < off + length bs then bs ! (i - off) else buf ! i)"
  using assms by (auto simp: mem_write_def nth_append min_def split: if_splits)

lemma mem_write_take:
  "mem_write buf off bs = Some buf' \<Longrightarrow> n \<le> off \<Longrightarrow> take n buf' = take n buf"
  by (auto simp: mem_write_def min_def split: if_splits)

lemma mem_write_drop:
  "mem_write buf off bs = Some buf' \<Longrightarrow> off + length bs \<le> n \<Longrightarrow> drop n buf' = drop n buf"
  by (auto simp: mem_write_def min_def split: if_splits)

lemma mem_read_length: "mem_read buf off n = Some bs \<Longrightarrow> length bs = n"
  by (auto simp: mem_read_def split: if_splits)

lemma mem_read_None_iff [simp]: "mem_read buf off n = None \<longleftrightarrow> length buf < off + n"
  by (auto simp: mem_read_def)

lemma mem_read_ok [mem_simps]: "off + n \<le> length buf \<Longrightarrow> mem_read buf off n = Some (take n (drop off buf))"
  by (simp add: mem_read_def)

lemma mem_read_write_same:
  "mem_write buf off bs = Some buf' \<Longrightarrow> mem_read buf' off (length bs) = Some bs"
  by (auto simp: mem_write_def mem_read_def min_def split: if_splits)

lemma mem_read_nth_eqI:
  assumes "off + length bs \<le> length buf" and "\<And>i. i < length bs \<Longrightarrow> buf ! (off + i) = bs ! i"
  shows "mem_read buf off (length bs) = Some bs"
  using assms by (auto simp: mem_read_def intro: nth_equalityI)

lemma mem_read_write_disjoint:
  assumes w: "mem_write buf off bs = Some buf'"
    and d: "o2 + n \<le> off \<or> off + length bs \<le> o2"
  shows "mem_read buf' o2 n = mem_read buf o2 n"
proof -
  have len: "length buf' = length buf" using w by (rule length_mem_write)
  have "take n (drop o2 buf') = take n (drop o2 buf)" if "o2 + n \<le> length buf"
  proof (rule nth_equalityI)
    show "length (take n (drop o2 buf')) = length (take n (drop o2 buf))" by (simp add: len)
  next
    fix i assume "i < length (take n (drop o2 buf'))"
    then have "i < n" and "o2 + i < length buf" using that len by auto
    then show "take n (drop o2 buf') ! i = take n (drop o2 buf) ! i"
      using d len nth_mem_write [OF w, of "o2 + i"] by auto
  qed
  then show ?thesis by (simp add: mem_read_def len)
qed

section \<open>Little-endian words\<close>

fun le_bytes :: "nat \<Rightarrow> nat \<Rightarrow> byte list" where
  "le_bytes 0 x = []"
| "le_bytes (Suc k) x = word_of_nat (x mod 256) # le_bytes k (x div 256)"

fun of_le :: "byte list \<Rightarrow> nat" where
  "of_le [] = 0"
| "of_le (b # bs) = unat b + 256 * of_le bs"

lemma length_le_bytes [simp]: "length (le_bytes k x) = k"
  by (induction k arbitrary: x) auto

lemma unat_byte_less [simp]: "unat (b :: byte) < 256"
  using unsigned_less [of b] by simp

lemma unat_byte_of_mod [simp]: "unat (word_of_nat (x mod 256) :: byte) = x mod 256"
  by (simp add: unat_of_nat)

lemma of_le_le_bytes [le_simps]: "of_le (le_bytes k x) = x mod 256 ^ k"
proof (induction k arbitrary: x)
  case 0
  show ?case by simp
next
  case (Suc k)
  then show ?case by (simp add: mod_mult2_eq)
qed

lemma le_bytes_of_le [le_simps]: "length bs = k \<Longrightarrow> le_bytes k (of_le bs) = bs"
  by (induction bs arbitrary: k) auto

lemma of_le_less: "of_le bs < 256 ^ length bs"
proof (induction bs)
  case Nil
  show ?case by simp
next
  case (Cons b bs)
  have "unat b + 256 * of_le bs < 256 + 256 * of_le bs" by simp
  also have "\<dots> \<le> 256 * 256 ^ length bs" using Cons by simp
  finally show ?case by simp
qed

definition le16 :: "16 word \<Rightarrow> byte list" where "le16 w = le_bytes 2 (unat w)"
definition le32 :: "32 word \<Rightarrow> byte list" where "le32 w = le_bytes 4 (unat w)"
definition le64 :: "64 word \<Rightarrow> byte list" where "le64 w = le_bytes 8 (unat w)"

definition word_of_le :: "byte list \<Rightarrow> 'a::len word" where
  "word_of_le bs = word_of_nat (of_le bs)"

lemma length_le [simp]: "length (le16 w) = 2" "length (le32 v) = 4" "length (le64 u) = 8"
  by (simp_all add: le16_def le32_def le64_def)

lemma word_of_le32 [simp, le_simps]: "word_of_le (le32 w) = w"
proof -
  have "unat w < 256 ^ 4" using unsigned_less [of w] by simp
  then show ?thesis by (simp add: word_of_le_def le32_def of_le_le_bytes)
qed

lemma word_of_le64 [simp, le_simps]: "word_of_le (le64 w) = w"
proof -
  have "unat w < 256 ^ 8" using unsigned_less [of w] by simp
  then show ?thesis by (simp add: word_of_le_def le64_def of_le_le_bytes)
qed

lemma word_of_le16 [simp, le_simps]: "word_of_le (le16 w) = w"
proof -
  have "unat w < 256 ^ 2" using unsigned_less [of w] by simp
  then show ?thesis by (simp add: word_of_le_def le16_def of_le_le_bytes)
qed

lemma le32_of_le: "length bs = 4 \<Longrightarrow> le32 (word_of_le bs) = bs"
  using of_le_less [of bs] by (simp add: le32_def word_of_le_def unat_of_nat le_bytes_of_le)

lemma le64_of_le: "length bs = 8 \<Longrightarrow> le64 (word_of_le bs) = bs"
  using of_le_less [of bs] by (simp add: le64_def word_of_le_def unat_of_nat le_bytes_of_le)

text \<open>An array of \<open>double\<close>s in memory, each element as its 64-bit pattern.\<close>

definition le64s :: "u64 list \<Rightarrow> byte list" where
  "le64s xs = concat (map le64 xs)"

fun words_of_le64s :: "nat \<Rightarrow> byte list \<Rightarrow> u64 list" where
  "words_of_le64s 0 bs = []"
| "words_of_le64s (Suc k) bs = word_of_le (take 8 bs) # words_of_le64s k (drop 8 bs)"

lemma le64s_simps [simp]: "le64s [] = []" "le64s (x # xs) = le64 x @ le64s xs"
  by (simp_all add: le64s_def)

lemma le64s_append [simp]: "le64s (xs @ ys) = le64s xs @ le64s ys"
  by (simp add: le64s_def)

lemma length_le64s [simp]: "length (le64s xs) = 8 * length xs"
  by (induction xs) simp_all

lemma take_le64s: "take (8 * n) (le64s xs) = le64s (take n xs)"
proof (induction xs arbitrary: n)
  case Nil
  show ?case by simp
next
  case (Cons x xs)
  show ?case
  proof (cases n)
    case (Suc m)
    then show ?thesis using Cons [of m] by simp
  qed simp
qed

lemma words_of_le64s_le64s [le_simps]: "words_of_le64s (length xs) (le64s xs) = xs"
  by (induction xs) simp_all

lemma length_words_of_le64s [simp]: "length (words_of_le64s k bs) = k"
  by (induction k arbitrary: bs) simp_all

section \<open>C strings\<close>

text \<open>
  A C string object is a character list; what the string functions see of it ends before the
  first NUL, which \<open>c_chars\<close> computes. \<open>c_bytes\<close> is what \<open>memcpy\<close> of \<open>strlen + 1\<close>
  bytes copies, the terminator included.
\<close>

definition c_chars :: "string \<Rightarrow> string" where
  "c_chars s = takeWhile (\<lambda>c. c \<noteq> CHR 0x00) s"

definition strlen :: "string \<Rightarrow> nat" where
  "strlen s = length (c_chars s)"

definition byte_of_char :: "char \<Rightarrow> byte" where
  "byte_of_char c = word_of_nat (of_char c)"

definition char_of_byte :: "byte \<Rightarrow> char" where
  "char_of_byte b = char_of (unat b)"

definition c_bytes :: "string \<Rightarrow> byte list" where
  "c_bytes s = map byte_of_char (c_chars s) @ [0]"

lemma char_of_byte_of_char [simp]: "char_of_byte (byte_of_char c) = c"
proof -
  have "(of_char c :: nat) < 256" by (cases c) (auto simp: horner_sum_simps split: bool.splits)
  then show ?thesis by (simp add: char_of_byte_def byte_of_char_def unat_of_nat)
qed

lemma map_char_of_byte [simp]: "map (char_of_byte \<circ> byte_of_char) s = s"
  by (simp add: comp_def)

lemma length_c_bytes [simp]: "length (c_bytes s) = Suc (strlen s)"
  by (simp add: c_bytes_def strlen_def)

lemma c_chars_idem [simp]: "c_chars (c_chars s) = c_chars s"
  by (simp add: c_chars_def)

lemma c_chars_id: "CHR 0x00 \<notin> set s \<Longrightarrow> c_chars s = s"
  by (auto simp: c_chars_def intro!: takeWhile_eq_all_conv [THEN iffD2])

section \<open>Decimal numbers\<close>

definition digit_char :: "nat \<Rightarrow> char" where
  "digit_char d = ''0123456789abcdef'' ! d"

text \<open>The decimal digits of a number, as \<open>%u\<close> and \<open>operator<<\<close> print it.\<close>

fun dec_of_nat :: "nat \<Rightarrow> string" where
  "dec_of_nat n = (if n < 10 then [digit_char n] else dec_of_nat (n div 10) @ [digit_char (n mod 10)])"

declare dec_of_nat.simps [simp del]

lemma digit_char_inj: "a < 10 \<Longrightarrow> b < 10 \<Longrightarrow> digit_char a = digit_char b \<Longrightarrow> a = b"
  by (simp add: digit_char_def less_Suc_eq numeral_eq_Suc) (elim disjE; simp)

lemma digit_char_decimal: "a < 10 \<Longrightarrow> digit_char a \<in> set ''0123456789''"
  by (simp add: digit_char_def less_Suc_eq numeral_eq_Suc) (elim disjE; simp)

lemma dec_of_nat_digits: "set (dec_of_nat n) \<subseteq> set ''0123456789''"
proof (induction n rule: dec_of_nat.induct)
  case (1 n)
  show ?case
    using 1 digit_char_decimal [of n] digit_char_decimal [of "n mod 10"]
    by (subst dec_of_nat.simps) auto
qed

lemma dec_of_nat_no_char: "c \<notin> set ''0123456789'' \<Longrightarrow> c \<notin> set (dec_of_nat n)"
  using dec_of_nat_digits [of n] by blast

lemma dec_of_nat_inj: "dec_of_nat a = dec_of_nat b \<Longrightarrow> a = b"
proof (induction a arbitrary: b rule: dec_of_nat.induct)
  case (1 a)
  have ne: "dec_of_nat k \<noteq> []" for k by (subst dec_of_nat.simps) simp
  show ?case
  proof (cases "a < 10 \<or> b < 10")
    case True
    then show ?thesis
      using 1(2) ne [of "a div 10"] ne [of "b div 10"] digit_char_inj [of a b]
      by (subst (asm) (2) dec_of_nat.simps, subst (asm) dec_of_nat.simps [of b])
        (auto simp: dec_of_nat.simps split: if_splits)
  next
    case False
    then have e: "dec_of_nat (a div 10) = dec_of_nat (b div 10)" "digit_char (a mod 10) = digit_char (b mod 10)"
      using 1(2) dec_of_nat.simps [of a] dec_of_nat.simps [of b] by auto
    have "a div 10 = b div 10" using 1(1) False e(1) by simp
    moreover have "a mod 10 = b mod 10" using digit_char_inj [OF _ _ e(2)] by simp
    ultimately show ?thesis by (metis div_mult_mod_eq)
  qed
qed

lemma length_dec_of_nat: "n < 10 ^ Suc k \<Longrightarrow> length (dec_of_nat n) \<le> Suc k"
proof (induction k arbitrary: n)
  case 0
  then show ?case by (subst dec_of_nat.simps) simp
next
  case (Suc k)
  then show ?case using Suc.IH [of "n div 10"] by (subst dec_of_nat.simps) auto
qed

end
