(* ===== verification/Double_Buffer.thy ===== *)
theory Double_Buffer
  imports Prelude
begin

text \<open>
  The versioned double buffers of \<open>ZenbeddedClientBase\<close> (\<open>zenbedded_rcl/src/zenbedded_client.cpp\<close>).
  The same layout is used twice, as \<open>state_buffer_\<close> and as \<open>cmd_buffer_\<close>: two byte slots, the index
  of the active one and a version per slot. First the operations as sequential functions, then
  the same operations cut into their atomic accesses, interleaved with each other. One thread
  writes and one reads, as in the client. The interleaving model is sequentially consistent; the
  fences of the code are what makes that adequate and are not modelled further.
\<close>

section \<open>Sequential operations\<close>

record double_buffer =
  slots :: "byte list list"
  active_idx :: u32
  versions :: "u32 list"

definition db_reset :: "nat \<Rightarrow> double_buffer" where
  "db_reset sz = \<lparr> slots = [replicate sz 0, replicate sz 0], active_idx = 0, versions = [0, 0] \<rparr>"

definition db_wf :: "nat \<Rightarrow> double_buffer \<Rightarrow> bool" where
  "db_wf sz b \<longleftrightarrow> length (slots b) = 2 \<and> length (versions b) = 2 \<and> active_idx b \<in> {0, 1} \<and>
     (\<forall>s \<in> set (slots b). length s = sz)"

text \<open>\<open>prepare_state_write_slot\<close> and \<open>commit_state_write_slot\<close>.\<close>

definition prepare_write_slot :: "double_buffer \<Rightarrow> u32" where
  "prepare_write_slot b = active_idx b XOR 1"

definition commit_write_slot :: "u32 \<Rightarrow> double_buffer \<Rightarrow> double_buffer" where
  "commit_write_slot write_idx b =
     b\<lparr> versions := (versions b)[unat write_idx := versions b ! unat write_idx + 1],
        active_idx := write_idx \<rparr>"

text \<open>\<open>write_state_to_buffer\<close> and \<open>write_command_to_buffer\<close>: copy into the inactive slot, then commit.\<close>

definition write_to_buffer :: "byte list \<Rightarrow> double_buffer \<Rightarrow> double_buffer option" where
  "write_to_buffer data b =
     (let write_idx = prepare_write_slot b
      in do { s \<leftarrow> mem_write (slots b ! unat write_idx) 0 data;
              Some (commit_write_slot write_idx (b\<lparr> slots := (slots b)[unat write_idx := s] \<rparr>)) })"

text \<open>\<open>read_state_from_buffer\<close> and \<open>read_command_from_buffer\<close>, not interrupted by a writer.\<close>

definition read_from_buffer :: "nat \<Rightarrow> double_buffer \<Rightarrow> (bool \<times> byte list) option" where
  "read_from_buffer sz b =
     (let read_idx = active_idx b; ver_before = versions b ! unat read_idx
      in do { data \<leftarrow> mem_read (slots b ! unat read_idx) 0 sz;
              Some (\<not> (active_idx b \<noteq> read_idx \<or> versions b ! unat read_idx \<noteq> ver_before), data) })"

definition active_slot :: "double_buffer \<Rightarrow> byte list" where
  "active_slot b = slots b ! unat (active_idx b)"

lemma index_xor_1: "i \<in> {0, 1 :: u32} \<Longrightarrow> i XOR 1 \<in> {0, 1} \<and> i XOR 1 \<noteq> i"
  by auto

lemma unat_index: "i \<in> {0, 1 :: u32} \<Longrightarrow> unat i < 2"
  by auto

lemma unat_index_eq: "i \<in> {0, 1 :: u32} \<Longrightarrow> j \<in> {0, 1} \<Longrightarrow> unat i = unat j \<longleftrightarrow> i = j"
  by auto

lemma db_wf_reset [simp]: "db_wf sz (db_reset sz)"
  by (auto simp: db_wf_def db_reset_def)

lemma db_wf_active: "db_wf sz b \<Longrightarrow> length (active_slot b) = sz"
  by (auto simp: db_wf_def active_slot_def intro: nth_mem)

lemma db_wf_inactive: "db_wf sz b \<Longrightarrow> length (slots b ! unat (prepare_write_slot b)) = sz"
  using index_xor_1 [of "active_idx b"] unat_index [of "active_idx b XOR 1"]
  by (auto simp: db_wf_def prepare_write_slot_def intro: nth_mem)

lemma db_wf_commit:
  assumes "db_wf sz b" and "w \<in> {0, 1}"
  shows "db_wf sz (commit_write_slot w b)"
  using assms by (auto simp: db_wf_def commit_write_slot_def)

lemma db_wf_slot_update:
  assumes "db_wf sz b" and "length s = sz"
  shows "db_wf sz (b\<lparr> slots := (slots b)[i := s] \<rparr>)"
  using assms by (auto simp: db_wf_def dest: set_update_subset_insert [THEN subsetD])

lemma write_to_buffer_wf:
  assumes wf: "db_wf sz b" and len: "length data \<le> sz"
  shows "\<exists>b'. write_to_buffer data b = Some b' \<and> db_wf sz b' \<and>
    active_idx b' = active_idx b XOR 1 \<and> take (length data) (active_slot b') = data \<and>
    slots b' ! unat (active_idx b) = active_slot b"
proof -
  let ?w = "prepare_write_slot b" and ?s = "slots b ! unat (prepare_write_slot b)"
  let ?d = "data @ drop (length data) ?s"
  have w: "?w \<in> {0, 1}" "?w \<noteq> active_idx b" and l2: "length (slots b) = 2" and a: "active_idx b \<in> {0, 1}"
    using wf index_xor_1 [of "active_idx b"] by (auto simp: db_wf_def prepare_write_slot_def)
  have ls: "length ?s = sz" using wf by (rule db_wf_inactive)
  then have "mem_write ?s 0 data = Some ?d" using len by (simp add: mem_write_ok)
  then have e: "write_to_buffer data b =
      Some (commit_write_slot ?w (b\<lparr> slots := (slots b)[unat ?w := ?d] \<rparr>))"
    by (simp add: write_to_buffer_def Let_def)
  have "db_wf sz (commit_write_slot ?w (b\<lparr> slots := (slots b)[unat ?w := ?d] \<rparr>))"
    using w(1) wf ls len by (intro db_wf_commit db_wf_slot_update) simp_all
  moreover have "unat ?w \<noteq> unat (active_idx b)" using w a unat_index_eq by blast
  ultimately show ?thesis
    using e w l2 unat_index [OF w(1)] a
    by (simp add: commit_write_slot_def active_slot_def prepare_write_slot_def)
qed

lemma read_from_buffer_ok:
  "db_wf sz b \<Longrightarrow> n \<le> sz \<Longrightarrow> read_from_buffer n b = Some (True, take n (active_slot b))"
  using db_wf_active [of sz b] by (simp add: read_from_buffer_def active_slot_def mem_read_ok Let_def)

section \<open>The interleaved operations\<close>

text \<open>
  Program counters. A writer that is \<open>Filling\<close> stores bytes into its slot in any order: this covers
  both the \<open>memcpy\<close> of a command and the in-place writes of a state codec. The payload it commits
  is what the slot then holds. A reader remembers the index and the version it saw, the bytes copied
  so far and the set of bytes still to copy; \<open>memcpy\<close> may copy in any order.
\<close>

datatype writer_pc =
    W_Idle
  | W_Filling u32
  | W_Versioned u32  \<comment> \<open>version incremented, active index not yet set\<close>

datatype reader_pc =
    R_Idle
  | R_Indexed u32
  | R_Copying u32 u32 "nat set" "byte list"
  | R_Same_Index u32 u32 "byte list"  \<comment> \<open>the active index was found unchanged\<close>
  | R_Done "byte list"

text \<open>
  Besides the shared buffer and the two program counters the state holds history variables, which no
  step depends on: the payloads committed so far with the newest last, how often each version was
  incremented, and for the current read the length of the history when it began, the increment
  count of its slot when its version was read, the payload that was current when the active index
  was checked, and the increments counted between the two reads of the version.
\<close>

record db_system =
  buf :: double_buffer
  wpc :: writer_pc
  rpc :: reader_pc
  hist :: "byte list list"
  incs :: "nat \<Rightarrow> nat"
  g_start :: nat
  g_incs :: nat
  g_point :: nat
  g_wrap :: nat

definition db_init :: "nat \<Rightarrow> nat \<Rightarrow> db_system" where
  "db_init sz n = \<lparr> buf = db_reset sz, wpc = W_Idle, rpc = R_Idle, hist = [replicate n 0],
     incs = (\<lambda>_. 0), g_start = 0, g_incs = 0, g_point = 0, g_wrap = 0 \<rparr>"

text \<open>\<open>n\<close> is the payload size: what is committed and read is the first \<open>n\<close> bytes of a slot.\<close>

inductive db_step :: "nat \<Rightarrow> db_system \<Rightarrow> db_system \<Rightarrow> bool" for n :: nat where
  w_begin: "wpc s = W_Idle \<Longrightarrow>
     db_step n s (s\<lparr> wpc := W_Filling (prepare_write_slot (buf s)) \<rparr>)"
| w_store: "wpc s = W_Filling w \<Longrightarrow> i < length (slots (buf s) ! unat w) \<Longrightarrow>
     db_step n s (s\<lparr> buf := (buf s)\<lparr> slots := (slots (buf s))[unat w := (slots (buf s) ! unat w)[i := b]] \<rparr> \<rparr>)"
| w_version: "wpc s = W_Filling w \<Longrightarrow>
     db_step n s (s\<lparr> buf := (buf s)\<lparr> versions := (versions (buf s))[unat w := versions (buf s) ! unat w + 1] \<rparr>,
                     incs := (incs s)(unat w := Suc (incs s (unat w))), wpc := W_Versioned w \<rparr>)"
| w_flip: "wpc s = W_Versioned w \<Longrightarrow>
     db_step n s (s\<lparr> buf := (buf s)\<lparr> active_idx := w \<rparr>, wpc := W_Idle,
                     hist := hist s @ [take n (slots (buf s) ! unat w)] \<rparr>)"
| r_begin: "rpc s = R_Idle \<Longrightarrow>
     db_step n s (s\<lparr> rpc := R_Indexed (active_idx (buf s)), g_start := length (hist s) - 1 \<rparr>)"
| r_version: "rpc s = R_Indexed r \<Longrightarrow>
     db_step n s (s\<lparr> rpc := R_Copying r (versions (buf s) ! unat r) {..<n} (replicate n 0),
                     g_incs := incs s (unat r) \<rparr>)"
| r_copy: "rpc s = R_Copying r v todo acc \<Longrightarrow> i \<in> todo \<Longrightarrow>
     db_step n s (s\<lparr> rpc := R_Copying r v (todo - {i}) (acc[i := slots (buf s) ! unat r ! i]) \<rparr>)"
| r_same: "rpc s = R_Copying r v {} acc \<Longrightarrow> active_idx (buf s) = r \<Longrightarrow>
     db_step n s (s\<lparr> rpc := R_Same_Index r v acc, g_point := length (hist s) - 1 \<rparr>)"
| r_moved: "rpc s = R_Copying r v {} acc \<Longrightarrow> active_idx (buf s) \<noteq> r \<Longrightarrow>
     db_step n s (s\<lparr> rpc := R_Idle \<rparr>)"
| r_accept: "rpc s = R_Same_Index r v acc \<Longrightarrow> versions (buf s) ! unat r = v \<Longrightarrow>
     db_step n s (s\<lparr> rpc := R_Done acc, g_wrap := incs s (unat r) - g_incs s \<rparr>)"
| r_stale: "rpc s = R_Same_Index r v acc \<Longrightarrow> versions (buf s) ! unat r \<noteq> v \<Longrightarrow>
     db_step n s (s\<lparr> rpc := R_Idle \<rparr>)"
| r_return: "rpc s = R_Done acc \<Longrightarrow> db_step n s (s\<lparr> rpc := R_Idle \<rparr>)"

inductive db_reachable :: "nat \<Rightarrow> nat \<Rightarrow> db_system \<Rightarrow> bool" for sz n :: nat where
  db_start: "db_reachable sz n (db_init sz n)"
| db_next: "db_reachable sz n s \<Longrightarrow> db_step n s t \<Longrightarrow> db_reachable sz n t"

inductive_cases db_stepE: "db_step n s t"

section \<open>The invariant\<close>

text \<open>
  \<open>slot_stable\<close>: nothing has been stored into slot \<open>r\<close> since the reader read its version. While it
  holds, the bytes copied so far are the bytes of the slot.
\<close>

definition slot_stable :: "db_system \<Rightarrow> u32 \<Rightarrow> bool" where
  "slot_stable s r \<longleftrightarrow> incs s (unat r) = g_incs s \<and> (active_idx (buf s) = r \<or> wpc s = W_Versioned r)"

fun writer_inv :: "db_system \<Rightarrow> writer_pc \<Rightarrow> bool" where
  "writer_inv s W_Idle = True"
| "writer_inv s (W_Filling w) = (w = active_idx (buf s) XOR 1)"
| "writer_inv s (W_Versioned w) = (w = active_idx (buf s) XOR 1)"

fun reader_inv :: "nat \<Rightarrow> db_system \<Rightarrow> reader_pc \<Rightarrow> bool" where
  "reader_inv n s R_Idle = True"
| "reader_inv n s (R_Indexed r) = (r \<in> {0, 1} \<and> g_start s < length (hist s))"
| "reader_inv n s (R_Copying r v todo acc) =
     (r \<in> {0, 1} \<and> g_start s < length (hist s) \<and> v = of_nat (g_incs s) \<and> g_incs s \<le> incs s (unat r) \<and>
      length acc = n \<and>
      (slot_stable s r \<longrightarrow> (\<forall>i < n. i \<notin> todo \<longrightarrow> acc ! i = slots (buf s) ! unat r ! i)))"
| "reader_inv n s (R_Same_Index r v acc) =
     (r \<in> {0, 1} \<and> v = of_nat (g_incs s) \<and> g_incs s \<le> incs s (unat r) \<and>
      g_start s \<le> g_point s \<and> g_point s < length (hist s) \<and>
      (incs s (unat r) = g_incs s \<longrightarrow> acc = hist s ! g_point s))"
| "reader_inv n s (R_Done acc) =
     (g_start s \<le> g_point s \<and> g_point s < length (hist s) \<and>
      (g_wrap s < 2 ^ 32 \<longrightarrow> acc = hist s ! g_point s))"

definition db_shared_inv :: "nat \<Rightarrow> nat \<Rightarrow> db_system \<Rightarrow> bool" where
  "db_shared_inv sz n s \<longleftrightarrow> db_wf sz (buf s) \<and> hist s \<noteq> [] \<and>
     last (hist s) = take n (active_slot (buf s)) \<and>
     (\<forall>i < 2. versions (buf s) ! i = of_nat (incs s i))"

definition db_inv :: "nat \<Rightarrow> nat \<Rightarrow> db_system \<Rightarrow> bool" where
  "db_inv sz n s \<longleftrightarrow> db_shared_inv sz n s \<and> writer_inv s (wpc s) \<and> reader_inv n s (rpc s)"

lemma writer_index:
  assumes "db_shared_inv sz n s" and "writer_inv s (wpc s)" and "wpc s = W_Filling w \<or> wpc s = W_Versioned w"
  shows "w \<in> {0, 1} \<and> unat w < 2 \<and> unat (active_idx (buf s)) < 2 \<and> unat w \<noteq> unat (active_idx (buf s)) \<and>
    w \<noteq> active_idx (buf s) \<and> length (slots (buf s)) = 2 \<and> length (versions (buf s)) = 2 \<and>
    length (slots (buf s) ! unat w) = sz"
proof -
  have a: "active_idx (buf s) \<in> {0, 1}" and l: "length (slots (buf s)) = 2" "length (versions (buf s)) = 2"
    and wf: "db_wf sz (buf s)"
    using assms(1) by (auto simp: db_shared_inv_def db_wf_def)
  have w: "w = active_idx (buf s) XOR 1" using assms(2,3) by auto
  show ?thesis
    using index_xor_1 [OF a] unat_index [OF a] db_wf_inactive [OF wf] l a
    unfolding w prepare_write_slot_def by (auto simp: unat_index unat_index_eq)
qed

lemma db_step_shared:
  assumes step: "db_step n s t" and sh: "db_shared_inv sz n s" and wi: "writer_inv s (wpc s)"
  shows "db_shared_inv sz n t"
  using step
proof cases
  case (w_store w i b)
  then show ?thesis
    using sh writer_index [OF sh wi, of w]
    by (simp add: db_shared_inv_def active_slot_def db_wf_slot_update)
next
  case (w_version w)
  then show ?thesis
    using sh writer_index [OF sh wi, of w]
    by (auto simp: db_shared_inv_def active_slot_def db_wf_def nth_list_update)
next
  case (w_flip w)
  then show ?thesis
    using sh writer_index [OF sh wi, of w]
    by (auto simp: db_shared_inv_def active_slot_def db_wf_def)
qed (use sh in \<open>simp_all add: db_shared_inv_def\<close>)

lemma db_step_writer:
  assumes step: "db_step n s t" and sh: "db_shared_inv sz n s" and wi: "writer_inv s (wpc s)"
  shows "writer_inv t (wpc t)"
  using step
proof cases
  case w_begin
  then show ?thesis by (simp add: prepare_write_slot_def)
qed (use wi in \<open>cases "wpc s"; simp\<close>)+


lemma db_step_reader:
  assumes step: "db_step n s t" and sh: "db_shared_inv sz n s" and wi: "writer_inv s (wpc s)"
    and ri: "reader_inv n s (rpc s)" and n: "n \<le> sz"
  shows "reader_inv n t (rpc t)"
  using step
proof cases
  case (w_begin)
  then show ?thesis using ri by (cases "rpc s") (auto simp: slot_stable_def)
next
  case (w_store w i b)
  have "slots (buf t) ! unat r = slots (buf s) ! unat r" if "slot_stable s r" "r \<in> {0, 1}" for r
    using that w_store writer_index [OF sh wi, of w] by (auto simp: slot_stable_def unat_index_eq)
  moreover have "slot_stable t r \<longleftrightarrow> slot_stable s r" for r
    using w_store by (simp add: slot_stable_def)
  ultimately show ?thesis using ri w_store by (cases "rpc s") simp_all
next
  case (w_version w)
  have "slot_stable s r" if "slot_stable t r" and "r \<in> {0, 1}" and "g_incs s \<le> incs s (unat r)" for r
    using that w_version writer_index [OF sh wi, of w]
    by (auto simp: slot_stable_def split: if_splits)
  moreover have "incs s i \<le> incs t i" and "incs t i = g_incs t \<Longrightarrow> g_incs s \<le> incs s i \<Longrightarrow> incs s i = g_incs s" for i
    using w_version by (auto split: if_splits)
  ultimately show ?thesis using ri w_version by (cases "rpc s") (auto intro: le_SucI)
next
  case (w_flip w)
  have "slot_stable s r" if "slot_stable t r" for r
    using that w_flip by (auto simp: slot_stable_def)
  then show ?thesis using ri w_flip by (cases "rpc s") (auto simp: nth_append)
next
  case r_begin
  then show ?thesis using sh by (auto simp: db_shared_inv_def db_wf_def)
next
  case (r_version r)
  then show ?thesis using ri sh unat_index [of r] by (simp add: db_shared_inv_def)
next
  case (r_copy r v todo acc i)
  have "slot_stable t r \<longleftrightarrow> slot_stable s r" using r_copy by (simp add: slot_stable_def)
  moreover have "acc[i := x] ! j = (if j = i then x else acc ! j)" if "j < length acc" for j x
    using that by (cases "j = i") simp_all
  ultimately show ?thesis using ri r_copy by auto
next
  case (r_same r v acc)
  have "acc = hist s ! (length (hist s) - 1)" if "incs s (unat r) = g_incs s"
  proof -
    have len: "length (take n (slots (buf s) ! unat r)) = n"
      using sh n db_wf_active [of sz "buf s"] r_same by (auto simp: db_shared_inv_def active_slot_def)
    have "slot_stable s r" using that r_same by (simp add: slot_stable_def)
    then have "acc = take n (slots (buf s) ! unat r)"
      using ri r_same len by (intro nth_equalityI) simp_all
    then show ?thesis using sh r_same by (auto simp: db_shared_inv_def active_slot_def last_conv_nth)
  qed
  then show ?thesis using ri r_same sh by (auto simp: db_shared_inv_def)
next
  case r_moved
  then show ?thesis by simp
next
  case (r_accept r v acc)
  have "incs s (unat r) = g_incs s" if "incs s (unat r) - g_incs s < 2 ^ 32"
  proof -
    have "(of_nat (incs s (unat r)) :: u32) = of_nat (g_incs s)"
      using r_accept ri sh unat_index [of r] by (auto simp: db_shared_inv_def)
    from arg_cong [OF this, of unat] have "incs s (unat r) mod 2 ^ 32 = g_incs s mod 2 ^ 32"
      by (simp add: unat_of_nat)
    moreover have "g_incs s \<le> incs s (unat r)" using r_accept ri by simp
    ultimately have "2 ^ 32 dvd incs s (unat r) - g_incs s"
      by (metis mod_eq_dvd_iff_nat)
    then have "incs s (unat r) - g_incs s = 0"
      using that by (meson nat_dvd_not_less not_gr_zero)
    then show ?thesis using \<open>g_incs s \<le> incs s (unat r)\<close> by simp
  qed
  then show ?thesis using ri r_accept by auto
qed simp_all

lemma db_inv_init: "n \<le> sz \<Longrightarrow> db_inv sz n (db_init sz n)"
  by (auto simp: db_inv_def db_shared_inv_def db_init_def active_slot_def db_reset_def db_wf_def min_def
      less_2_cases_iff)

lemma db_inv_step: "db_step n s t \<Longrightarrow> db_inv sz n s \<Longrightarrow> n \<le> sz \<Longrightarrow> db_inv sz n t"
  by (auto simp: db_inv_def intro: db_step_shared db_step_writer db_step_reader)

lemma db_inv_reachable: "db_reachable sz n s \<Longrightarrow> n \<le> sz \<Longrightarrow> db_inv sz n s"
  by (induction rule: db_reachable.induct) (auto intro: db_inv_init db_inv_step)


section \<open>Executable schedules\<close>

text \<open>The step relation as a function of the event scheduled next, to run concrete interleavings.\<close>

datatype db_event =
  E_W_Begin | E_W_Store nat byte | E_W_Version | E_W_Flip
  | E_R_Begin | E_R_Version | E_R_Copy nat | E_R_Same | E_R_Accept | E_R_Retry | E_R_Return

fun db_exec :: "nat \<Rightarrow> db_event \<Rightarrow> db_system \<Rightarrow> db_system option" where
  "db_exec n E_W_Begin s = (case wpc s of
     W_Idle \<Rightarrow> Some (s\<lparr> wpc := W_Filling (prepare_write_slot (buf s)) \<rparr>) | _ \<Rightarrow> None)"
| "db_exec n (E_W_Store i b) s = (case wpc s of
     W_Filling w \<Rightarrow> (if i < length (slots (buf s) ! unat w) then
       Some (s\<lparr> buf := (buf s)\<lparr> slots := (slots (buf s))[unat w := (slots (buf s) ! unat w)[i := b]] \<rparr> \<rparr>)
       else None) | _ \<Rightarrow> None)"
| "db_exec n E_W_Version s = (case wpc s of
     W_Filling w \<Rightarrow>
       Some (s\<lparr> buf := (buf s)\<lparr> versions := (versions (buf s))[unat w := versions (buf s) ! unat w + 1] \<rparr>,
                incs := (incs s)(unat w := Suc (incs s (unat w))), wpc := W_Versioned w \<rparr>) | _ \<Rightarrow> None)"
| "db_exec n E_W_Flip s = (case wpc s of
     W_Versioned w \<Rightarrow> Some (s\<lparr> buf := (buf s)\<lparr> active_idx := w \<rparr>, wpc := W_Idle,
                     hist := hist s @ [take n (slots (buf s) ! unat w)] \<rparr>) | _ \<Rightarrow> None)"
| "db_exec n E_R_Begin s = (case rpc s of
     R_Idle \<Rightarrow> Some (s\<lparr> rpc := R_Indexed (active_idx (buf s)), g_start := length (hist s) - 1 \<rparr>) | _ \<Rightarrow> None)"
| "db_exec n E_R_Version s = (case rpc s of
     R_Indexed r \<Rightarrow> Some (s\<lparr> rpc := R_Copying r (versions (buf s) ! unat r) {..<n} (replicate n 0),
                     g_incs := incs s (unat r) \<rparr>) | _ \<Rightarrow> None)"
| "db_exec n (E_R_Copy i) s = (case rpc s of
     R_Copying r v todo acc \<Rightarrow> (if i \<in> todo then
       Some (s\<lparr> rpc := R_Copying r v (todo - {i}) (acc[i := slots (buf s) ! unat r ! i]) \<rparr>) else None) | _ \<Rightarrow> None)"
| "db_exec n E_R_Same s = (case rpc s of
     R_Copying r v todo acc \<Rightarrow> (if todo = {} \<and> active_idx (buf s) = r then
       Some (s\<lparr> rpc := R_Same_Index r v acc, g_point := length (hist s) - 1 \<rparr>) else None) | _ \<Rightarrow> None)"
| "db_exec n E_R_Accept s = (case rpc s of
     R_Same_Index r v acc \<Rightarrow> (if versions (buf s) ! unat r = v then
       Some (s\<lparr> rpc := R_Done acc, g_wrap := incs s (unat r) - g_incs s \<rparr>) else None) | _ \<Rightarrow> None)"
| "db_exec n E_R_Retry s = (case rpc s of
     R_Copying r v todo acc \<Rightarrow> (if todo = {} \<and> active_idx (buf s) \<noteq> r then Some (s\<lparr> rpc := R_Idle \<rparr>) else None)
   | R_Same_Index r v acc \<Rightarrow> (if versions (buf s) ! unat r \<noteq> v then Some (s\<lparr> rpc := R_Idle \<rparr>) else None)
   | _ \<Rightarrow> None)"
| "db_exec n E_R_Return s = (case rpc s of R_Done acc \<Rightarrow> Some (s\<lparr> rpc := R_Idle \<rparr>) | _ \<Rightarrow> None)"

fun db_run :: "nat \<Rightarrow> db_event list \<Rightarrow> db_system \<Rightarrow> db_system option" where
  "db_run n [] s = Some s"
| "db_run n (e # es) s = (case db_exec n e s of None \<Rightarrow> None | Some t \<Rightarrow> db_run n es t)"

lemma db_exec_step: "db_exec n e s = Some t \<Longrightarrow> db_step n s t"
  by (cases e) (auto intro: db_step.intros db_step.intros [unfolded One_nat_def] split: writer_pc.splits reader_pc.splits if_splits)

lemma db_step_exec: "db_step n s t \<Longrightarrow> \<exists>e. db_exec n e s = Some t"
proof (induction rule: db_step.induct)
  case w_begin
  show ?case by (rule exI [of _ E_W_Begin]) (simp add: w_begin)
next
  case (w_store s w i b)
  then show ?case by (intro exI [of _ "E_W_Store i b"]) simp
next
  case w_version
  then show ?case by (intro exI [of _ E_W_Version]) simp
next
  case w_flip
  then show ?case by (intro exI [of _ E_W_Flip]) simp
next
  case r_begin
  then show ?case by (intro exI [of _ E_R_Begin]) simp
next
  case r_version
  then show ?case by (intro exI [of _ E_R_Version]) simp
next
  case (r_copy s r v todo acc i)
  then show ?case by (intro exI [of _ "E_R_Copy i"]) simp
next
  case r_same
  then show ?case by (intro exI [of _ E_R_Same]) simp
next
  case r_accept
  then show ?case by (intro exI [of _ E_R_Accept]) simp
next
  case r_return
  then show ?case by (intro exI [of _ E_R_Return]) simp
qed (intro exI [of _ E_R_Retry]; simp)+

lemma db_run_append:
  "db_run n (es @ fs) s = (case db_run n es s of None \<Rightarrow> None | Some t \<Rightarrow> db_run n fs t)"
  by (induction es arbitrary: s) (auto split: option.splits)

lemma db_run_reachable: "db_run n es s = Some t \<Longrightarrow> db_reachable sz n s \<Longrightarrow> db_reachable sz n t"
proof (induction es arbitrary: s)
  case (Cons e es)
  then obtain s' where "db_exec n e s = Some s'" and "db_run n es s' = Some t"
    by (auto split: option.splits)
  then show ?case using Cons.IH Cons.prems(2) db_exec_step db_next by blast
qed simp

section \<open>Progress\<close>

text \<open>A read fails only because of a commit: as long as no payload was committed since it began, the
  active index and the version it saw are those of the buffer.\<close>

fun reader_fresh :: "db_system \<Rightarrow> reader_pc \<Rightarrow> bool" where
  "reader_fresh s (R_Indexed r) = (active_idx (buf s) = r)"
| "reader_fresh s (R_Copying r v todo acc) = (active_idx (buf s) = r \<and> incs s (unat r) = g_incs s)"
| "reader_fresh s (R_Same_Index r v acc) = (active_idx (buf s) = r \<and> incs s (unat r) = g_incs s)"
| "reader_fresh s _ = True"

definition db_fresh :: "db_system \<Rightarrow> bool" where
  "db_fresh s \<longleftrightarrow> (case rpc s of R_Idle \<Rightarrow> True | R_Done acc \<Rightarrow> True | _ \<Rightarrow> Suc (g_start s) \<le> length (hist s)) \<and>
     (Suc (g_start s) = length (hist s) \<longrightarrow> reader_fresh s (rpc s))"

lemma db_fresh_step:
  assumes step: "db_step n s t" and sh: "db_shared_inv sz n s" and wi: "writer_inv s (wpc s)"
    and fr: "db_fresh s"
  shows "db_fresh t"
  using step
proof cases
  case (w_version w)
  then show ?thesis
    using fr writer_index [OF sh wi, of w] by (cases "rpc s") (auto simp: db_fresh_def)
next
  case r_begin
  then show ?thesis using sh by (simp add: db_fresh_def db_shared_inv_def)
qed (use fr in \<open>cases "rpc s"; auto simp: db_fresh_def\<close>)+

lemma db_fresh_reachable: "db_reachable sz n s \<Longrightarrow> n \<le> sz \<Longrightarrow> db_fresh s"
proof (induction rule: db_reachable.induct)
  case db_start
  show ?case by (simp add: db_fresh_def db_init_def)
next
  case (db_next s t)
  then show ?case using db_inv_reachable [of sz n s] by (auto simp: db_inv_def intro: db_fresh_step)
qed

text \<open>The steps of a read that nothing interrupts.\<close>

definition solo_read :: "nat \<Rightarrow> db_event list" where
  "solo_read n = [E_R_Begin, E_R_Version] @ map E_R_Copy [0..<n] @ [E_R_Same, E_R_Accept]"

lemma db_run_copies:
  assumes "rpc s = R_Copying r v {m..<m + k} acc"
  shows "\<exists>acc'. db_run n (map E_R_Copy [m..<m + k]) s = Some (s\<lparr> rpc := R_Copying r v {} acc' \<rparr>)"
  using assms
proof (induction k arbitrary: m s acc)
  case 0
  then have "s = s\<lparr> rpc := R_Copying r v {} acc \<rparr>" by simp
  then show ?case by auto
next
  case (Suc k)
  let ?t = "s\<lparr> rpc := R_Copying r v {Suc m..<Suc m + k} (acc[m := slots (buf s) ! unat r ! m]) \<rparr>"
  have "{m..<m + Suc k} - {m} = {Suc m..<Suc m + k}" by auto
  then have "db_exec n (E_R_Copy m) s = Some ?t" using Suc.prems by simp
  moreover have "[m..<m + Suc k] = m # [Suc m..<Suc m + k]" by (simp add: upt_conv_Cons)
  ultimately show ?case using Suc.IH [of ?t "Suc m"] by fastforce
qed

lemma solo_read_runs:
  assumes "rpc s = R_Idle"
  shows "\<exists>t acc. db_run n (solo_read n) s = Some t \<and> rpc t = R_Done acc \<and> g_wrap t = 0 \<and>
    hist t = hist s \<and> buf t = buf s \<and> wpc t = wpc s \<and> g_point t = length (hist s) - 1"
proof -
  let ?r = "active_idx (buf s)" and ?v = "versions (buf s) ! unat (active_idx (buf s))"
  let ?s1 = "s\<lparr> rpc := R_Indexed ?r, g_start := length (hist s) - 1 \<rparr>"
  let ?s2 = "?s1\<lparr> rpc := R_Copying ?r ?v {0..<0 + n} (replicate n 0), g_incs := incs s (unat ?r) \<rparr>"
  have s2: "db_run n [E_R_Begin, E_R_Version] s = Some ?s2"
    using assms by (simp add: lessThan_atLeast0)
  have "rpc ?s2 = R_Copying ?r ?v {0..<0 + n} (replicate n 0)" by simp
  from db_run_copies [OF this, of n] obtain acc where
    c: "db_run n (map E_R_Copy [0..<n]) ?s2 = Some (?s2\<lparr> rpc := R_Copying ?r ?v {} acc \<rparr>)" by auto
  show ?thesis
    unfolding solo_read_def db_run_append s2 option.case c by simp
qed

section \<open>Properties\<close>

text \<open>C2: A read of the double buffer that is accepted while a writer runs concurrently, whatever the
  interleaving, returns exactly one payload the writer committed (never a mixture of two), and one
  that was current at some moment between the start and the end of the read. The only
  condition is that the slot was not recommitted a multiple of \<open>2 ^ 32\<close> times meanwhile, which would
  bring its 32-bit version back to the value first read.\<close>

theorem db_accepted_read_not_torn:
  assumes "db_reachable sz n s" and "n \<le> sz" and "rpc s = R_Done acc" and "g_wrap s < 2 ^ 32"
  shows "acc = hist s ! g_point s \<and> g_start s \<le> g_point s \<and> g_point s < length (hist s)"
  using db_inv_reachable [OF assms(1,2)] assms(3,4) by (simp add: db_inv_def)

text \<open>What a reader would see next is always the newest committed payload: in every reachable
  state the active slot holds the last payload committed, the writer's slot is never the active one,
  and every slot access is inside of the buffer.\<close>

theorem db_active_slot_is_newest:
  assumes "db_reachable sz n s" and "n \<le> sz"
  shows "take n (active_slot (buf s)) = last (hist s) \<and> db_wf sz (buf s) \<and>
    (\<forall>w. wpc s = W_Filling w \<or> wpc s = W_Versioned w \<longrightarrow> w \<in> {0, 1} \<and> w \<noteq> active_idx (buf s))"
proof -
  have sh: "db_shared_inv sz n s" and wi: "writer_inv s (wpc s)"
    using db_inv_reachable [OF assms] by (simp_all add: db_inv_def)
  then show ?thesis using writer_index [OF sh wi] by (auto simp: db_shared_inv_def)
qed


text \<open>A read attempt fails only because the writer made progress: whenever the reader goes back
  to retry, a payload has been committed since the attempt began. So the retry loops of
  \<open>read_latest_command_raw\<close> and \<open>zenoh_publish_state\<close> spin only while the other side keeps committing.\<close>

theorem db_retry_implies_commit:
  assumes "db_reachable sz n s" and "n \<le> sz" and "db_step n s t"
    and "rpc s \<noteq> R_Idle" and "rpc t = R_Idle" and "\<And>acc. rpc s \<noteq> R_Done acc"
  shows "Suc (g_start s) < length (hist s)"
proof -
  have fr: "db_fresh s" using assms(1,2) by (rule db_fresh_reachable)
  have sh: "db_shared_inv sz n s" and ri: "reader_inv n s (rpc s)"
    using db_inv_reachable [OF assms(1,2)] by (simp_all add: db_inv_def)
  show ?thesis using assms(3)
  proof cases
    case (r_moved r v acc)
    then show ?thesis using fr by (auto simp: db_fresh_def)
  next
    case (r_stale r v acc)
    then show ?thesis
      using fr sh ri unat_index [of r] by (auto simp: db_fresh_def db_shared_inv_def)
  qed (use assms(4-6) in simp_all)
qed

text \<open>A read that is not interrupted succeeds at the first attempt and returns the newest committed
  payload, whatever the writer was doing when it was suspended: a writer stopped halfway can
  not block a reader.\<close>

theorem db_solo_read_newest:
  assumes "db_reachable sz n s" and "n \<le> sz" and "rpc s = R_Idle"
  shows "\<exists>t. db_run n (solo_read n) s = Some t \<and> rpc t = R_Done (last (hist s)) \<and> buf t = buf s"
proof -
  obtain t acc where t: "db_run n (solo_read n) s = Some t" "rpc t = R_Done acc" "g_wrap t = 0"
      "hist t = hist s" "buf t = buf s" "g_point t = length (hist s) - 1"
    using solo_read_runs [OF assms(3)] by blast
  have "db_inv sz n t"
    using db_run_reachable [OF t(1) assms(1)] assms(2) by (rule db_inv_reachable)
  then have "acc = hist s ! (length (hist s) - 1)" and "hist s \<noteq> []"
    using t by (simp_all add: db_inv_def db_shared_inv_def)
  then have "acc = last (hist s)" by (simp add: last_conv_nth)
  then show ?thesis using t by blast
qed

section \<open>Witnesses\<close>

text \<open>A one-byte buffer: the payload 7 is committed, then read while the writer fills and commits 9.\<close>

definition racing_read :: "db_event list" where
  "racing_read = [E_W_Begin, E_W_Store 0 7, E_W_Version, E_W_Flip, E_R_Begin, E_W_Begin, E_R_Version,
     E_W_Store 0 9, E_R_Copy 0, E_R_Same, E_W_Version, E_R_Accept]"

lemma db_run_init_reachable: "db_run n es (db_init sz n) = Some s \<Longrightarrow> db_reachable sz n s"
  by (rule db_run_reachable [OF _ db_start])

lemmas db_eval = db_init_def db_reset_def prepare_write_slot_def lessThan_Suc

lemma racing_read_runs:
  "db_run 1 racing_read (db_init 1 1) = Some s \<Longrightarrow>
     rpc s = R_Done [7] \<and> g_wrap s = 0 \<and> hist s = [[0], [7]] \<and> g_point s = 1 \<and> g_start s = 1"
  by (auto simp: racing_read_def db_eval)

lemma racing_read_defined: "\<exists>s. db_run 1 racing_read (db_init 1 1) = Some s"
  by (simp add: racing_read_def db_eval)

theorem db_accepted_read_not_torn_witness:
  "\<exists>s. db_reachable 1 1 s \<and> rpc s = R_Done [7] \<and> [7] = hist s ! g_point s"
proof -
  obtain s where s: "db_run 1 racing_read (db_init 1 1) = Some s" using racing_read_defined by blast
  have e: "rpc s = R_Done [7]" "g_wrap s = 0" using racing_read_runs [OF s] by simp_all
  have r: "db_reachable 1 1 s" using s by (rule db_run_init_reachable)
  then show ?thesis using db_accepted_read_not_torn [OF r _ e(1)] e by auto
qed

theorem db_active_slot_is_newest_witness:
  "\<exists>s. db_reachable 1 1 s \<and> hist s = [[0], [7]] \<and> take 1 (active_slot (buf s)) = [7]"
proof -
  obtain s where s: "db_run 1 racing_read (db_init 1 1) = Some s" using racing_read_defined by blast
  have r: "db_reachable 1 1 s" using s by (rule db_run_init_reachable)
  then show ?thesis using db_active_slot_is_newest [OF r] racing_read_runs [OF s] by auto
qed

text \<open>A read overtaken by a commit.\<close>

definition overtaken_read :: "db_event list" where
  "overtaken_read = [E_R_Begin, E_R_Version, E_W_Begin, E_W_Store 0 7, E_W_Version, E_W_Flip, E_R_Copy 0]"

theorem db_retry_implies_commit_witness:
  "\<exists>s t. db_reachable 1 1 s \<and> db_step 1 s t \<and> rpc t = R_Idle \<and> Suc (g_start s) < length (hist s)"
proof -
  have "\<exists>s t. db_run 1 overtaken_read (db_init 1 1) = Some s \<and> db_exec 1 E_R_Retry s = Some t \<and>
      rpc s = R_Copying 0 0 {} [0] \<and> rpc t = R_Idle"
    by (simp add: overtaken_read_def db_eval)
  then obtain s t where s: "db_run 1 overtaken_read (db_init 1 1) = Some s"
      "db_exec 1 E_R_Retry s = Some t" "rpc s = R_Copying 0 0 {} [0]" "rpc t = R_Idle" by blast
  have r: "db_reachable 1 1 s" using s(1) by (rule db_run_init_reachable)
  have st: "db_step 1 s t" using s(2) by (rule db_exec_step)
  show ?thesis using db_retry_implies_commit [OF r _ st] s(3,4) r st by auto
qed

theorem db_solo_read_newest_witness:
  "\<exists>s t. db_reachable 1 1 s \<and> wpc s = W_Versioned 1 \<and>
     db_run 1 (solo_read 1) s = Some t \<and> rpc t = R_Done (last (hist s))"
proof -
  have "\<exists>s. db_run 1 [E_W_Begin, E_W_Store 0 7, E_W_Version] (db_init 1 1) = Some s \<and>
      rpc s = R_Idle \<and> wpc s = W_Versioned 1"
    by (simp add: db_eval)
  then obtain s where s: "db_run 1 [E_W_Begin, E_W_Store 0 7, E_W_Version] (db_init 1 1) = Some s"
      "rpc s = R_Idle" "wpc s = W_Versioned 1" by blast
  have r: "db_reachable 1 1 s" using s(1) by (rule db_run_init_reachable)
  show ?thesis using db_solo_read_newest [OF r _ s(2)] s(3) r by auto
qed

end
