(* ===== verification/Slot_Pool.thy ===== *)
theory Slot_Pool
  imports Prelude
begin

text \<open>
  The fixed pools of slots from which \<open>zenoh_transport.c\<close> serves publishers and subscribers, as
  an interface: a slot type with an \<open>in_use\<close> flag. The publisher and the subscriber pool are its
  two interpretations.
\<close>

text \<open>The search loop of the two \<open>declare\<close> functions.\<close>

fun alloc_slot :: "('s \<Rightarrow> bool) \<Rightarrow> 's list \<Rightarrow> nat option" where
  "alloc_slot in_use [] = None"
| "alloc_slot in_use (s # pool) = (if \<not> in_use s then Some 0 else map_option Suc (alloc_slot in_use pool))"

definition used_slots :: "('s \<Rightarrow> bool) \<Rightarrow> 's list \<Rightarrow> nat set" where
  "used_slots in_use pool = {i. i < length pool \<and> in_use (pool ! i)}"

lemma alloc_slot_None_iff: "alloc_slot u pool = None \<longleftrightarrow> (\<forall>s \<in> set pool. u s)"
  by (induction pool) auto

lemma alloc_slot_SomeD:
  "alloc_slot u pool = Some i \<Longrightarrow> i < length pool \<and> \<not> u (pool ! i) \<and> (\<forall>j < i. u (pool ! j))"
proof (induction pool arbitrary: i)
  case (Cons s pool)
  show ?case
  proof (cases "u s")
    case True
    then obtain k where k: "alloc_slot u pool = Some k" "i = Suc k" using Cons.prems by auto
    then show ?thesis using Cons.IH [OF k(1)] True by (auto simp: less_Suc_eq_0_disj)
  qed (use Cons.prems in auto)
qed simp

lemma finite_used_slots [simp]: "finite (used_slots u pool)"
  by (simp add: used_slots_def)

lemma alloc_slot_None_card: "alloc_slot u pool = None \<longleftrightarrow> card (used_slots u pool) = length pool"
proof
  assume "alloc_slot u pool = None"
  then have "used_slots u pool = {..<length pool}"
    by (auto simp: alloc_slot_None_iff used_slots_def)
  then show "card (used_slots u pool) = length pool" by simp
next
  assume "card (used_slots u pool) = length pool"
  moreover have "used_slots u pool \<subseteq> {..<length pool}" by (auto simp: used_slots_def)
  ultimately have "used_slots u pool = {..<length pool}" by (simp add: card_subset_eq)
  then have "u (pool ! i)" if "i < length pool" for i
    using that unfolding used_slots_def by blast
  then show "alloc_slot u pool = None" by (metis alloc_slot_None_iff in_set_conv_nth)
qed

locale slot_pool =
  fixes in_use :: "'s \<Rightarrow> bool" and set_in_use :: "bool \<Rightarrow> 's \<Rightarrow> 's"
  assumes in_use_set: "in_use (set_in_use b s) = b"
begin

lemma used_update:
  "i < length pool \<Longrightarrow> used_slots in_use (pool[i := s]) =
     (if in_use s then insert i (used_slots in_use pool) else used_slots in_use pool - {i})"
  by (auto simp: used_slots_def nth_list_update)

lemma used_keep:
  "in_use s = in_use (pool ! i) \<Longrightarrow> used_slots in_use (pool[i := s]) = used_slots in_use pool"
  by (cases "i < length pool") (auto simp: used_slots_def nth_list_update)

lemma used_release:
  "i < length pool \<Longrightarrow> used_slots in_use (pool[i := set_in_use False s]) = used_slots in_use pool - {i}"
  by (simp add: used_update in_use_set)

lemma used_acquire:
  "i < length pool \<Longrightarrow> used_slots in_use (pool[i := set_in_use True s]) = insert i (used_slots in_use pool)"
  by (simp add: used_update in_use_set)

lemma alloc_fresh:
  "alloc_slot in_use pool = Some i \<Longrightarrow> i < length pool \<and> i \<notin> used_slots in_use pool"
  by (auto simp: used_slots_def dest: alloc_slot_SomeD)

end

end
