(* ===== verification/Rihs_Ledger.thy ===== *)
theory Rihs_Ledger
  imports Prelude
begin

text \<open>
  The table of ROS 2 type hashes (\<open>zenbedded_transport/include/zenbedded_transport/rihs_ledger.h\<close>)
  and the key expressions the transport builds from it (\<open>zenoh_transport.c\<close>): the key of a topic and
  the liveliness tokens. A C string is the list of the characters before its terminator, and
  \<open>snprintf\<close> into a buffer of \<open>n\<close> bytes keeps the first \<open>n - 1\<close> characters.
\<close>

section \<open>Formatting\<close>

text \<open>The conversion \<open>%02x\<close>; \<open>%u\<close> is \<open>dec_of_nat\<close>.\<close>

definition hex2 :: "byte \<Rightarrow> string" where
  "hex2 b = [digit_char (unat b div 16), digit_char (unat b mod 16)]"

definition snprintf :: "nat \<Rightarrow> string \<Rightarrow> string" where
  "snprintf n s = take (n - 1) s"

section \<open>Type hashes\<close>

definition RIHS_LEDGER :: "(string \<times> string) list" where
  "RIHS_LEDGER =
    [(''sensor_msgs::msg::dds_::JointState_'',
      ''RIHS01_a13ee3a330e346c9d87b5aa18d24e11690752bd33a0350f11c5882bc9179260e''),
     (''control_msgs::msg::dds_::JointCommand_'',
      ''RIHS01_6080a1df9d28b6badffa5efb27d4ba4ae657c4f6dd2b519b178a32db12405985''),
     (''sensor_msgs::msg::dds_::Imu_'',
      ''RIHS01_7d9a00ff131080897a5ec7e26e315954b8eae3353c3f995c55faf71574000b5b'')]"

fun ledger_search :: "(string \<times> string) list \<Rightarrow> string \<Rightarrow> string" where
  "ledger_search [] type_name = ''UNKNOWN_HASH''"
| "ledger_search ((t, h) # rest) type_name = (if t = type_name then h else ledger_search rest type_name)"

definition zenbedded_get_rihs_hash :: "string \<Rightarrow> string" where
  "zenbedded_get_rihs_hash type_name = ledger_search RIHS_LEDGER type_name"

section \<open>Key expressions\<close>

definition KEYEXPR_MAX_LEN :: nat where "KEYEXPR_MAX_LEN = 512"

definition clean_topic :: "string \<Rightarrow> string" where
  "clean_topic topic_name = (case topic_name of c # cs \<Rightarrow> if c = CHR ''/'' then cs else topic_name | [] \<Rightarrow> [])"

definition zid_hex :: "byte list \<Rightarrow> string" where
  "zid_hex zid = concat (map hex2 zid)"

definition topic_key_t1 :: "u32 \<Rightarrow> string \<Rightarrow> string \<Rightarrow> string" where
  "topic_key_t1 domain topic type_name =
     dec_of_nat (unat domain) @ ''/'' @ topic @ ''/'' @ type_name @ ''/'' @ zenbedded_get_rihs_hash type_name"

definition node_token_key :: "u32 \<Rightarrow> byte list \<Rightarrow> string \<Rightarrow> string" where
  "node_token_key domain zid node_name =
     snprintf KEYEXPR_MAX_LEN (''@ros2_lv/'' @ dec_of_nat (unat domain) @ ''/'' @ zid_hex zid @ ''/0/0/NN/%/%/'' @ node_name)"

text \<open>\<open>kind\<close> is \<open>MP\<close> for a publisher and \<open>MS\<close> for a subscriber.\<close>

definition entity_token_key ::
    "string \<Rightarrow> u32 \<Rightarrow> byte list \<Rightarrow> string \<Rightarrow> string \<Rightarrow> string \<Rightarrow> string" where
  "entity_token_key kind domain zid node_name topic type_name =
     snprintf KEYEXPR_MAX_LEN
       (''@ros2_lv/'' @ dec_of_nat (unat domain) @ ''/'' @ zid_hex zid @ ''/0/10/'' @ kind @ ''/%/%/'' @ node_name @
        ''/%'' @ topic @ ''/'' @ type_name @ ''/'' @ zenbedded_get_rihs_hash type_name @ ''/::,7:,:,:,,'')"

section \<open>Lemmas\<close>

lemma dec_of_nat_no_slash: "CHR ''/'' \<notin> set (dec_of_nat n)"
  by (rule dec_of_nat_no_char) simp

lemma length_snprintf: "0 < n \<Longrightarrow> length (snprintf n s) < n"
  by (auto simp: snprintf_def)

lemma snprintf_fits [simp]: "length s < n \<Longrightarrow> snprintf n s = s"
  by (simp add: snprintf_def)

lemma length_dec_of_u32: "length (dec_of_nat (unat (d :: u32))) \<le> 10"
proof -
  have "unat d < 2 ^ LENGTH(32)" by (rule unsigned_less)
  then have "unat d < 10 ^ Suc 9" by simp
  from length_dec_of_nat [OF this] show ?thesis by simp
qed

text \<open>A list splits in one way at its first, and in one way at its last, slash.\<close>

lemma split_first_eq:
  "a @ c # s = b @ c # t \<Longrightarrow> c \<notin> set a \<Longrightarrow> c \<notin> set b \<Longrightarrow> a = b \<and> s = t"
proof (induction a arbitrary: b)
  case Nil
  then show ?case by (cases b) auto
next
  case (Cons x a)
  then show ?case by (cases b) auto
qed

lemma split_last_eq:
  assumes "s @ c # a = t @ c # b" and "c \<notin> set a" and "c \<notin> set b"
  shows "s = t \<and> a = b"
proof -
  have "rev a @ c # rev s = rev b @ c # rev t" using assms(1) by (metis append.assoc append_Cons append_Nil rev.simps(2) rev_append)
  from split_first_eq [OF this] show ?thesis using assms(2,3) by simp
qed

lemma hash_no_slash: "CHR ''/'' \<notin> set (zenbedded_get_rihs_hash t)"
  by (simp add: zenbedded_get_rihs_hash_def RIHS_LEDGER_def)

lemma length_zid_hex: "length (zid_hex zid) = 2 * length zid"
  by (induction zid) (simp_all add: zid_hex_def hex2_def)

lemma clean_topic_slash [simp]: "clean_topic (CHR ''/'' # t) = t"
  by (simp add: clean_topic_def)

lemma clean_topic_no_slash: "t = [] \<or> hd t \<noteq> CHR ''/'' \<Longrightarrow> clean_topic t = t"
  by (cases t) (auto simp: clean_topic_def)

section \<open>Properties\<close>

text \<open>The hash of a type is the one of its table entry, whatever the order of the table, and a type
  without an entry gets \<open>UNKNOWN_HASH\<close>; every entry is a version-1 hash of 64 hexadecimal digits,
  so the marker is never mistaken for a hash; and both message types that the client's configuration
  offers have an entry.\<close>

theorem rihs_hash_resolves:
  "zenbedded_get_rihs_hash t = (case map_of (rev RIHS_LEDGER) t of Some h \<Rightarrow> h | None \<Rightarrow> ''UNKNOWN_HASH'') \<and>
   list_all (\<lambda>(m, h). take 7 h = ''RIHS01_'' \<and> length h = 7 + 64 \<and>
     list_all (\<lambda>c. c \<in> set ''0123456789abcdef'') (drop 7 h)) RIHS_LEDGER \<and>
   zenbedded_get_rihs_hash ''sensor_msgs::msg::dds_::JointState_'' \<noteq> ''UNKNOWN_HASH'' \<and>
   zenbedded_get_rihs_hash ''control_msgs::msg::dds_::JointCommand_'' \<noteq> ''UNKNOWN_HASH''"
  by (auto simp: zenbedded_get_rihs_hash_def RIHS_LEDGER_def)

text \<open>A key determines its domain, topic and type.\<close>

lemma topic_key_t1_inj:
  assumes key: "topic_key_t1 d1 t1 m1 = topic_key_t1 d2 t2 m2"
    and ns: "CHR ''/'' \<notin> set m1" "CHR ''/'' \<notin> set m2"
  shows "d1 = d2 \<and> t1 = t2 \<and> m1 = m2"
proof -
  have e: "dec_of_nat (unat d1) @ CHR ''/'' # (t1 @ CHR ''/'' # (m1 @ CHR ''/'' # zenbedded_get_rihs_hash m1)) =
      dec_of_nat (unat d2) @ CHR ''/'' # (t2 @ CHR ''/'' # (m2 @ CHR ''/'' # zenbedded_get_rihs_hash m2))"
    using key by (simp add: topic_key_t1_def)
  have d: "unat d1 = unat d2" and r: "(t1 @ CHR ''/'' # m1) @ CHR ''/'' # zenbedded_get_rihs_hash m1 =
      (t2 @ CHR ''/'' # m2) @ CHR ''/'' # zenbedded_get_rihs_hash m2"
    using split_first_eq [OF e dec_of_nat_no_slash dec_of_nat_no_slash] dec_of_nat_inj by auto
  have "t1 @ CHR ''/'' # m1 = t2 @ CHR ''/'' # m2"
    using split_last_eq [OF r hash_no_slash hash_no_slash] by simp
  then show ?thesis using split_last_eq ns d by (metis word_unat_eq_iff)
qed

lemma length_hash: "length (zenbedded_get_rihs_hash t) \<le> 71"
  by (simp add: zenbedded_get_rihs_hash_def RIHS_LEDGER_def)

lemma length_topic_key_t1: "length (topic_key_t1 d t m) \<le> length t + length m + 84"
  using length_dec_of_u32 [of d] length_hash [of m] by (simp add: topic_key_t1_def)

end
