(* ===== verification/Zenoh_Transport.thy ===== *)
theory Zenoh_Transport
  imports Slot_Pool Rihs_Ledger
begin

text \<open>
  The transport layer (\<open>zenbedded_transport/src/zenoh_transport.c\<close>): its static state, the
  publisher and subscriber pools, and every function of the file. zenoh-pico, the random number
  generator and the clock are outside of the repository: they are the parameter \<open>zenoh_env\<close>, whose
  answers may depend on the whole history of calls. The calls made and their results are logged.
  A dereference of a null or foreign pointer and a signed overflow are \<open>None\<close>.
\<close>

section \<open>Configuration and environment\<close>

text \<open>\<open>CONFIG_ZENBEDDED_TIER_1\<close> or \<open>_2\<close>, \<open>CONFIG_ZENBEDDED_QOS_RELIABLE\<close>,
  \<open>CONFIG_ZENBEDDED_MODE_CLIENT\<close>.\<close>

datatype tier = Tier1 | Tier2

record transport_config =
  cfg_tier :: tier
  cfg_reliable :: bool
  cfg_client :: bool

datatype zconfig_key = Z_CONFIG_MODE_KEY | Z_CONFIG_CONNECT_KEY | Z_CONFIG_LISTEN_KEY

datatype token = Node_Token | Pub_Token nat | Sub_Token nat

text \<open>The calls into zenoh-pico. Publishers and subscribers are named by their slot.\<close>

datatype zcall =
    Zp_Config_Insert zconfig_key string
  | Z_Open
  | Zp_Start_Read_Task
  | Zp_Start_Lease_Task
  | Z_Liveliness_Declare_Token token string
  | Z_Liveliness_Undeclare_Token token
  | Z_Declare_Publisher nat string bool  \<comment> \<open>best effort, drop on congestion\<close>
  | Z_Undeclare_Publisher nat
  | Z_Declare_Subscriber nat string
  | Z_Undeclare_Subscriber nat
  | Z_Publisher_Put nat "byte list" "byte list option"  \<comment> \<open>payload and attachment\<close>
  | Zp_Stop_Read_Task
  | Zp_Stop_Lease_Task
  | Z_Close

type_synonym zlog = "(zcall \<times> bool) list"

record zenoh_env =
  z_ok :: "zlog \<Rightarrow> zcall \<Rightarrow> bool"
  z_info_zid :: "zlog \<Rightarrow> byte list"
  sys_rand :: "zlog \<Rightarrow> nat \<Rightarrow> byte list"
  clock :: "zlog \<Rightarrow> int \<times> int"  \<comment> \<open>\<open>tv_sec\<close> and \<open>tv_nsec\<close>\<close>

section \<open>State\<close>

definition MAX_PUBLISHERS :: nat where "MAX_PUBLISHERS = 10"
definition MAX_SUBSCRIBERS :: nat where "MAX_SUBSCRIBERS = 10"
definition RMW_GID_SIZE :: nat where "RMW_GID_SIZE = 16"

record rmw_attachment =
  sequence_number :: i64
  timestamp_ns :: i64
  gid_length :: byte
  gid :: "byte list"

record pub_slot =
  pub_in_use :: bool
  pub_topic_keyexpr :: string
  pub_attachment :: rmw_attachment
  pub_lv_keyexpr :: string

record ('h, 'u) sub_slot =
  sub_in_use :: bool
  sub_user_cb :: "'h option"
  sub_user_data :: "'u option"
  sub_topic_keyexpr :: string
  sub_lv_keyexpr :: string

record ('h, 'u) transport =
  tr_initialized :: bool
  tr_domain_id :: u32
  tr_node_name :: string
  tr_full_locator :: string
  tr_pubs :: "pub_slot list"
  tr_subs :: "('h, 'u) sub_slot list"
  tr_node_lv_str :: string
  tr_log :: zlog

definition zero_attachment :: rmw_attachment where
  "zero_attachment = \<lparr> sequence_number = 0, timestamp_ns = 0, gid_length = 0, gid = replicate RMW_GID_SIZE 0 \<rparr>"

definition transport_static :: "('h, 'u) transport" where
  "transport_static =
     \<lparr> tr_initialized = False, tr_domain_id = 0, tr_node_name = [], tr_full_locator = [],
       tr_pubs = replicate MAX_PUBLISHERS
         \<lparr> pub_in_use = False, pub_topic_keyexpr = [], pub_attachment = zero_attachment, pub_lv_keyexpr = [] \<rparr>,
       tr_subs = replicate MAX_SUBSCRIBERS
         \<lparr> sub_in_use = False, sub_user_cb = None, sub_user_data = None, sub_topic_keyexpr = [], sub_lv_keyexpr = [] \<rparr>,
       tr_node_lv_str = [], tr_log = [] \<rparr>"

text \<open>One call into zenoh-pico; \<open>zcall_void\<close> ignores the result, as the code does in most places.\<close>

definition zcall :: "zenoh_env \<Rightarrow> zcall \<Rightarrow> ('h, 'u) transport \<Rightarrow> bool \<times> ('h, 'u) transport" where
  "zcall env c t = (z_ok env (tr_log t) c, t\<lparr> tr_log := tr_log t @ [(c, z_ok env (tr_log t) c)] \<rparr>)"

definition zcall_void :: "zenoh_env \<Rightarrow> zcall \<Rightarrow> ('h, 'u) transport \<Rightarrow> ('h, 'u) transport" where
  "zcall_void env c t = snd (zcall env c t)"

section \<open>Session\<close>

definition configure_locator ::
    "transport_config \<Rightarrow> zenoh_env \<Rightarrow> string option \<Rightarrow> ('h, 'u) transport \<Rightarrow> ('h, 'u) transport" where
  "configure_locator cfg env locator t =
     (case locator of
        None \<Rightarrow> t
      | Some l \<Rightarrow>
          if l = [] then t
          else
            let full_locator = snprintf 128 ((if cfg_reliable cfg then ''tcp/'' else ''udp/'') @ l);
                key = (if cfg_client cfg then Z_CONFIG_CONNECT_KEY else Z_CONFIG_LISTEN_KEY)
            in zcall_void env (Zp_Config_Insert key full_locator) (t\<lparr> tr_full_locator := full_locator \<rparr>))"

definition zenbedded_transport_init ::
    "transport_config \<Rightarrow> zenoh_env \<Rightarrow> u32 \<Rightarrow> string \<Rightarrow> string \<Rightarrow> string option
       \<Rightarrow> ('h, 'u) transport \<Rightarrow> int \<times> ('h, 'u) transport" where
  "zenbedded_transport_init cfg env domain_id node_name mode locator t =
     (if tr_initialized t then (0, t)
      else
        let t = t\<lparr> tr_domain_id := domain_id, tr_node_name := take 63 node_name \<rparr>;
            t = zcall_void env (Zp_Config_Insert Z_CONFIG_MODE_KEY mode) t;
            t = configure_locator cfg env locator t;
            (ok, t) = zcall env Z_Open t
        in if \<not> ok then (-1, t)
           else
             let t = zcall_void env Zp_Start_Read_Task t;
                 t = zcall_void env Zp_Start_Lease_Task t;
                 t = (case cfg_tier cfg of
                        Tier1 \<Rightarrow>
                          let key = node_token_key (tr_domain_id t) (z_info_zid env (tr_log t)) (tr_node_name t)
                          in zcall_void env (Z_Liveliness_Declare_Token Node_Token key) (t\<lparr> tr_node_lv_str := key \<rparr>)
                      | Tier2 \<Rightarrow> t)
             in (0, t\<lparr> tr_initialized := True \<rparr>))"

definition set_pub_in_use :: "bool \<Rightarrow> pub_slot \<Rightarrow> pub_slot" where
  "set_pub_in_use b s = s\<lparr> pub_in_use := b \<rparr>"

definition set_sub_in_use :: "bool \<Rightarrow> ('h, 'u) sub_slot \<Rightarrow> ('h, 'u) sub_slot" where
  "set_sub_in_use b s = s\<lparr> sub_in_use := b \<rparr>"

definition undeclare_token :: "transport_config \<Rightarrow> zenoh_env \<Rightarrow> token \<Rightarrow> ('h, 'u) transport \<Rightarrow> ('h, 'u) transport" where
  "undeclare_token cfg env tok t =
     (case cfg_tier cfg of Tier1 \<Rightarrow> zcall_void env (Z_Liveliness_Undeclare_Token tok) t | Tier2 \<Rightarrow> t)"

definition destroy_pub :: "transport_config \<Rightarrow> zenoh_env \<Rightarrow> nat \<Rightarrow> ('h, 'u) transport \<Rightarrow> ('h, 'u) transport" where
  "destroy_pub cfg env i t =
     (if pub_in_use (tr_pubs t ! i)
      then let t = zcall_void env (Z_Undeclare_Publisher i) (undeclare_token cfg env (Pub_Token i) t)
           in t\<lparr> tr_pubs := (tr_pubs t)[i := set_pub_in_use False (tr_pubs t ! i)] \<rparr>
      else t)"

definition destroy_sub :: "transport_config \<Rightarrow> zenoh_env \<Rightarrow> nat \<Rightarrow> ('h, 'u) transport \<Rightarrow> ('h, 'u) transport" where
  "destroy_sub cfg env i t =
     (if sub_in_use (tr_subs t ! i)
      then let t = zcall_void env (Z_Undeclare_Subscriber i) (undeclare_token cfg env (Sub_Token i) t)
           in t\<lparr> tr_subs := (tr_subs t)[i := set_sub_in_use False (tr_subs t ! i)] \<rparr>
      else t)"

definition zenbedded_transport_destroy ::
    "transport_config \<Rightarrow> zenoh_env \<Rightarrow> ('h, 'u) transport \<Rightarrow> ('h, 'u) transport" where
  "zenbedded_transport_destroy cfg env t =
     (if \<not> tr_initialized t then t
      else
        let t = fold (destroy_pub cfg env) [0..<MAX_PUBLISHERS] t;
            t = fold (destroy_sub cfg env) [0..<MAX_SUBSCRIBERS] t;
            t = undeclare_token cfg env Node_Token t;
            t = zcall_void env Zp_Stop_Read_Task t;
            t = zcall_void env Zp_Stop_Lease_Task t;
            t = zcall_void env Z_Close t
        in t\<lparr> tr_initialized := False \<rparr>)"

section \<open>Publishers\<close>

text \<open>The key of a topic; in Tier 1 a null type is dereferenced by \<open>strcmp\<close>.\<close>

definition topic_keyexpr :: "transport_config \<Rightarrow> u32 \<Rightarrow> string \<Rightarrow> string option \<Rightarrow> string option" where
  "topic_keyexpr cfg domain topic_name type_name =
     (case cfg_tier cfg of
        Tier1 \<Rightarrow> map_option (\<lambda>ty. snprintf KEYEXPR_MAX_LEN (topic_key_t1 domain (clean_topic topic_name) ty)) type_name
      | Tier2 \<Rightarrow> Some (snprintf KEYEXPR_MAX_LEN (clean_topic topic_name)))"

definition update_pub :: "nat \<Rightarrow> (pub_slot \<Rightarrow> pub_slot) \<Rightarrow> ('h, 'u) transport \<Rightarrow> ('h, 'u) transport" where
  "update_pub i f t = t\<lparr> tr_pubs := (tr_pubs t)[i := f (tr_pubs t ! i)] \<rparr>"

definition update_sub ::
    "nat \<Rightarrow> (('h, 'u) sub_slot \<Rightarrow> ('h, 'u) sub_slot) \<Rightarrow> ('h, 'u) transport \<Rightarrow> ('h, 'u) transport" where
  "update_sub i f t = t\<lparr> tr_subs := (tr_subs t)[i := f (tr_subs t ! i)] \<rparr>"

text \<open>What the Tier 1 build does once the publisher is declared: number its messages from 0, draw
  its global id and announce it with a liveliness token.\<close>

definition announce_pub ::
    "zenoh_env \<Rightarrow> nat \<Rightarrow> string \<Rightarrow> string \<Rightarrow> ('h, 'u) transport \<Rightarrow> ('h, 'u) transport" where
  "announce_pub env i topic type_name t =
     (let rand = sys_rand env (tr_log t) RMW_GID_SIZE;
          t = update_pub i (\<lambda>p. p\<lparr> pub_attachment := (pub_attachment p)
                \<lparr> sequence_number := 0, gid_length := of_nat RMW_GID_SIZE, gid := rand \<rparr> \<rparr>) t;
          key = entity_token_key ''MP'' (tr_domain_id t) (z_info_zid env (tr_log t)) (tr_node_name t) topic type_name
      in zcall_void env (Z_Liveliness_Declare_Token (Pub_Token i) key) (update_pub i (\<lambda>p. p\<lparr> pub_lv_keyexpr := key \<rparr>) t))"

definition zenbedded_transport_declare_publisher ::
    "transport_config \<Rightarrow> zenoh_env \<Rightarrow> string \<Rightarrow> string option \<Rightarrow> ('h, 'u) transport
       \<Rightarrow> (nat option \<times> ('h, 'u) transport) option" where
  "zenbedded_transport_declare_publisher cfg env topic_name type_name t =
     (if \<not> tr_initialized t then Some (None, t)
      else case alloc_slot pub_in_use (tr_pubs t) of
        None \<Rightarrow> Some (None, t)
      | Some i \<Rightarrow>
          do { key \<leftarrow> topic_keyexpr cfg (tr_domain_id t) topic_name type_name;
               let t = update_pub i (\<lambda>p. (set_pub_in_use True p)\<lparr> pub_topic_keyexpr := key \<rparr>) t;
               let (ok, t) = zcall env (Z_Declare_Publisher i key (cfg_tier cfg = Tier2)) t;
               if \<not> ok then Some (None, update_pub i (set_pub_in_use False) t)
               else case (cfg_tier cfg, type_name) of
                 (Tier1, Some ty) \<Rightarrow> Some (Some i, announce_pub env i (clean_topic topic_name) ty t)
               | _ \<Rightarrow> Some (Some i, t) })"

text \<open>The packed 33-byte \<open>rmw_zenoh_attachment_t\<close>.\<close>

definition attachment_bytes :: "rmw_attachment \<Rightarrow> byte list" where
  "attachment_bytes a = le64 (sequence_number a) @ le64 (timestamp_ns a) @ [gid_length a] @ gid a"

definition checked_i64 :: "int \<Rightarrow> i64 option" where
  "checked_i64 x = (if - (2 ^ 63) \<le> x \<and> x < 2 ^ 63 then Some (word_of_int x) else None)"

text \<open>The sums and the product are signed: each of them must fit.\<close>

definition stamp_attachment :: "int \<times> int \<Rightarrow> rmw_attachment \<Rightarrow> rmw_attachment option" where
  "stamp_attachment tv a =
     do { sn \<leftarrow> checked_i64 (sint (sequence_number a) + 1);
          seconds_ns \<leftarrow> checked_i64 (fst tv * 1000000000);
          ns \<leftarrow> checked_i64 (fst tv * 1000000000 + snd tv);
          Some (a\<lparr> sequence_number := sn, timestamp_ns := ns \<rparr>) }"

definition zenbedded_transport_publish ::
    "transport_config \<Rightarrow> zenoh_env \<Rightarrow> nat option \<Rightarrow> byte list \<Rightarrow> ('h, 'u) transport
       \<Rightarrow> (int \<times> ('h, 'u) transport) option" where
  "zenbedded_transport_publish cfg env pub payload t =
     (case pub of
        None \<Rightarrow> Some (-1, t)
      | Some i \<Rightarrow>
          if length (tr_pubs t) \<le> i then None
          else if \<not> pub_in_use (tr_pubs t ! i) then Some (-1, t)
          else case cfg_tier cfg of
            Tier1 \<Rightarrow>
              do { a \<leftarrow> stamp_attachment (clock env (tr_log t)) (pub_attachment (tr_pubs t ! i));
                   let t = update_pub i (\<lambda>p. p\<lparr> pub_attachment := a \<rparr>) t;
                   let (ok, t) = zcall env (Z_Publisher_Put i payload (Some (attachment_bytes a))) t;
                   Some (if ok then 0 else -1, t) }
          | Tier2 \<Rightarrow>
              let (ok, t) = zcall env (Z_Publisher_Put i payload None) t
              in Some (if ok then 0 else -1, t))"

section \<open>Subscribers\<close>

definition announce_sub ::
    "zenoh_env \<Rightarrow> nat \<Rightarrow> string \<Rightarrow> string \<Rightarrow> ('h, 'u) transport \<Rightarrow> ('h, 'u) transport" where
  "announce_sub env i topic type_name t =
     (let key = entity_token_key ''MS'' (tr_domain_id t) (z_info_zid env (tr_log t)) (tr_node_name t) topic type_name
      in zcall_void env (Z_Liveliness_Declare_Token (Sub_Token i) key) (update_sub i (\<lambda>s. s\<lparr> sub_lv_keyexpr := key \<rparr>) t))"

definition zenbedded_transport_declare_subscriber ::
    "transport_config \<Rightarrow> zenoh_env \<Rightarrow> string \<Rightarrow> string option \<Rightarrow> 'h option \<Rightarrow> 'u option
       \<Rightarrow> ('h, 'u) transport \<Rightarrow> (nat option \<times> ('h, 'u) transport) option" where
  "zenbedded_transport_declare_subscriber cfg env topic_name type_name callback user_data t =
     (if \<not> tr_initialized t then Some (None, t)
      else case alloc_slot sub_in_use (tr_subs t) of
        None \<Rightarrow> Some (None, t)
      | Some i \<Rightarrow>
          do { key \<leftarrow> topic_keyexpr cfg (tr_domain_id t) topic_name type_name;
               let t = update_sub i (\<lambda>s. (set_sub_in_use True s)
                     \<lparr> sub_user_cb := callback, sub_user_data := user_data, sub_topic_keyexpr := key \<rparr>) t;
               let (ok, t) = zcall env (Z_Declare_Subscriber i key) t;
               if \<not> ok then Some (None, update_sub i (set_sub_in_use False) t)
               else case (cfg_tier cfg, type_name) of
                 (Tier1, Some ty) \<Rightarrow> Some (Some i, announce_sub env i (clean_topic topic_name) ty t)
               | _ \<Rightarrow> Some (Some i, t) })"

text \<open>The size of the receive buffer on the stack of \<open>internal_sub_handler\<close>.\<close>

definition rx_buf_size :: "tier \<Rightarrow> nat" where
  "rx_buf_size t = (case t of Tier1 \<Rightarrow> 1024 | Tier2 \<Rightarrow> 64)"

text \<open>The outer \<open>option\<close> is a memory error, the inner one the callback invoked, if any.\<close>

definition internal_sub_handler ::
    "transport_config \<Rightarrow> ('h, 'u) sub_slot option \<Rightarrow> byte list \<Rightarrow> ('h \<times> byte list \<times> 'u option) option option" where
  "internal_sub_handler cfg sub payload =
     (case sub of
        None \<Rightarrow> Some None
      | Some s \<Rightarrow>
          (case sub_user_cb s of
             None \<Rightarrow> Some None
           | Some cb \<Rightarrow>
               let len = length payload
               in if len = 0 \<or> rx_buf_size (cfg_tier cfg) < len then Some None
                  else do { rx_buf \<leftarrow> mem_write (replicate (rx_buf_size (cfg_tier cfg)) 0) 0 payload;
                            bs \<leftarrow> mem_read rx_buf 0 len;
                            Some (Some (cb, bs, sub_user_data s)) }))"

end
