(* ===== verification/Zenoh_Session.thy ===== *)
theory Zenoh_Session
  imports Zenoh_Transport
begin

text \<open>
  What the transport promises to zenoh-pico: the order in which the session is opened, its tasks
  started, entities declared, used and undeclared, and the session closed, as an automaton over the
  logged calls; and the proof that every operation of \<open>zenoh_transport.c\<close> keeps to it. The state
  of the automaton is a function of the transport's own state, so the pools are an exact ledger of
  what is declared in the session.
\<close>

section \<open>The session automaton\<close>

record zsession =
  zs_open :: bool
  zs_reading :: bool
  zs_leasing :: bool
  zs_pubs :: "nat set"
  zs_subs :: "nat set"
  zs_tokens :: "token set"

definition z_closed :: zsession where
  "z_closed = \<lparr> zs_open = False, zs_reading = False, zs_leasing = False, zs_pubs = {}, zs_subs = {}, zs_tokens = {} \<rparr>"

fun z_legal :: "zcall \<Rightarrow> zsession \<Rightarrow> bool" where
  "z_legal (Zp_Config_Insert k v) s = (\<not> zs_open s)"
| "z_legal Z_Open s = (\<not> zs_open s)"
| "z_legal Zp_Start_Read_Task s = (zs_open s \<and> \<not> zs_reading s)"
| "z_legal Zp_Start_Lease_Task s = (zs_open s \<and> \<not> zs_leasing s)"
| "z_legal (Z_Liveliness_Declare_Token tok k) s = (zs_open s \<and> tok \<notin> zs_tokens s)"
| "z_legal (Z_Liveliness_Undeclare_Token tok) s = (zs_open s \<and> tok \<in> zs_tokens s)"
| "z_legal (Z_Declare_Publisher i k be) s = (zs_open s \<and> i \<notin> zs_pubs s)"
| "z_legal (Z_Undeclare_Publisher i) s = (zs_open s \<and> i \<in> zs_pubs s)"
| "z_legal (Z_Declare_Subscriber i k) s = (zs_open s \<and> i \<notin> zs_subs s)"
| "z_legal (Z_Undeclare_Subscriber i) s = (zs_open s \<and> i \<in> zs_subs s)"
| "z_legal (Z_Publisher_Put i p a) s = (zs_open s \<and> i \<in> zs_pubs s)"
| "z_legal Zp_Stop_Read_Task s = (zs_open s \<and> zs_reading s)"
| "z_legal Zp_Stop_Lease_Task s = (zs_open s \<and> zs_leasing s)"
| "z_legal Z_Close s = (zs_open s \<and> \<not> zs_reading s \<and> \<not> zs_leasing s \<and>
     zs_pubs s = {} \<and> zs_subs s = {} \<and> zs_tokens s = {})"

text \<open>The code ignores the result of declaring a token and of starting a task, so both count as done.\<close>

fun z_apply :: "zcall \<Rightarrow> bool \<Rightarrow> zsession \<Rightarrow> zsession" where
  "z_apply Z_Open ok s = s\<lparr> zs_open := ok \<rparr>"
| "z_apply Zp_Start_Read_Task ok s = s\<lparr> zs_reading := True \<rparr>"
| "z_apply Zp_Start_Lease_Task ok s = s\<lparr> zs_leasing := True \<rparr>"
| "z_apply (Z_Liveliness_Declare_Token tok k) ok s = s\<lparr> zs_tokens := insert tok (zs_tokens s) \<rparr>"
| "z_apply (Z_Liveliness_Undeclare_Token tok) ok s = s\<lparr> zs_tokens := zs_tokens s - {tok} \<rparr>"
| "z_apply (Z_Declare_Publisher i k be) ok s = (if ok then s\<lparr> zs_pubs := insert i (zs_pubs s) \<rparr> else s)"
| "z_apply (Z_Undeclare_Publisher i) ok s = s\<lparr> zs_pubs := zs_pubs s - {i} \<rparr>"
| "z_apply (Z_Declare_Subscriber i k) ok s = (if ok then s\<lparr> zs_subs := insert i (zs_subs s) \<rparr> else s)"
| "z_apply (Z_Undeclare_Subscriber i) ok s = s\<lparr> zs_subs := zs_subs s - {i} \<rparr>"
| "z_apply Zp_Stop_Read_Task ok s = s\<lparr> zs_reading := False \<rparr>"
| "z_apply Zp_Stop_Lease_Task ok s = s\<lparr> zs_leasing := False \<rparr>"
| "z_apply Z_Close ok s = s\<lparr> zs_open := False \<rparr>"
| "z_apply c ok s = s"

fun z_run :: "zlog \<Rightarrow> zsession \<Rightarrow> zsession option" where
  "z_run [] s = Some s"
| "z_run ((c, ok) # log) s = (if z_legal c s then z_run log (z_apply c ok s) else None)"

lemma z_run_append: "z_run (l1 @ l2) s = (case z_run l1 s of None \<Rightarrow> None | Some s' \<Rightarrow> z_run l2 s')"
  by (induction l1 s rule: z_run.induct) auto

definition session_of :: "('h, 'u) transport \<Rightarrow> zsession option" where
  "session_of t = z_run (tr_log t) z_closed"

section \<open>Single calls and slot updates\<close>

interpretation pubs: slot_pool pub_in_use set_pub_in_use
  by unfold_locales (simp add: set_pub_in_use_def)

interpretation subs: slot_pool sub_in_use set_sub_in_use
  by unfold_locales (simp add: set_sub_in_use_def)

lemma zcall_frame [simp]:
  "tr_initialized (zcall_void env c t) = tr_initialized t" "tr_pubs (zcall_void env c t) = tr_pubs t"
  "tr_subs (zcall_void env c t) = tr_subs t" "tr_domain_id (zcall_void env c t) = tr_domain_id t"
  "tr_node_name (zcall_void env c t) = tr_node_name t"
  by (simp_all add: zcall_void_def zcall_def)

lemma zcall_conv: "zcall env c t = (z_ok env (tr_log t) c, zcall_void env c t)"
  by (simp add: zcall_def zcall_void_def)

lemma update_frame [simp]:
  "tr_initialized (update_pub i f t) = tr_initialized t" "tr_subs (update_pub i f t) = tr_subs t"
  "tr_pubs (update_pub i f t) = (tr_pubs t)[i := f (tr_pubs t ! i)]"
  "tr_log (update_pub i f t) = tr_log t"
  "tr_initialized (update_sub i g t) = tr_initialized t" "tr_pubs (update_sub i g t) = tr_pubs t"
  "tr_subs (update_sub i g t) = (tr_subs t)[i := g (tr_subs t ! i)]"
  "tr_log (update_sub i g t) = tr_log t"
  "tr_domain_id (update_pub i f t) = tr_domain_id t" "tr_node_name (update_pub i f t) = tr_node_name t"
  "tr_domain_id (update_sub i g t) = tr_domain_id t" "tr_node_name (update_sub i g t) = tr_node_name t"
  by (simp_all add: update_pub_def update_sub_def)

lemma session_of_log: "tr_log t = tr_log u \<Longrightarrow> session_of t = session_of u"
  by (simp add: session_of_def)

lemma session_of_zcall:
  "session_of t = Some s \<Longrightarrow> z_legal c s \<Longrightarrow>
     session_of (zcall_void env c t) = Some (z_apply c (z_ok env (tr_log t) c) s)"
  by (simp add: session_of_def zcall_void_def zcall_def z_run_append)

section \<open>The ledger\<close>

text \<open>The state of the session when the slots \<open>P\<close> and \<open>S\<close> are in use.\<close>

definition session_with :: "transport_config \<Rightarrow> nat set \<Rightarrow> nat set \<Rightarrow> zsession" where
  "session_with cfg P S =
     \<lparr> zs_open = True, zs_reading = True, zs_leasing = True, zs_pubs = P, zs_subs = S,
       zs_tokens = (if cfg_tier cfg = Tier1 then insert Node_Token (Pub_Token ` P \<union> Sub_Token ` S) else {}) \<rparr>"

definition used_pubs :: "('h, 'u) transport \<Rightarrow> nat set" where
  "used_pubs t = used_slots pub_in_use (tr_pubs t)"

definition used_subs :: "('h, 'u) transport \<Rightarrow> nat set" where
  "used_subs t = used_slots sub_in_use (tr_subs t)"

definition pools_ok :: "('h, 'u) transport \<Rightarrow> bool" where
  "pools_ok t \<longleftrightarrow> length (tr_pubs t) = MAX_PUBLISHERS \<and> length (tr_subs t) = MAX_SUBSCRIBERS"

definition transport_inv :: "transport_config \<Rightarrow> ('h, 'u) transport \<Rightarrow> bool" where
  "transport_inv cfg t \<longleftrightarrow> pools_ok t \<and>
     (if tr_initialized t then session_of t = Some (session_with cfg (used_pubs t) (used_subs t))
      else session_of t = Some z_closed \<and> used_pubs t = {} \<and> used_subs t = {})"

lemmas ledger_defs = used_pubs_def used_subs_def pools_ok_def

lemma transport_inv_static [simp]: "transport_inv cfg transport_static"
  by (auto simp: transport_inv_def transport_static_def session_of_def ledger_defs used_slots_def)

lemma transport_inv_uninit:
  "transport_inv cfg t \<Longrightarrow> \<not> tr_initialized t \<Longrightarrow> session_of t = Some z_closed \<and> pools_ok t \<and> used_pubs t = {} \<and> used_subs t = {}"
  by (simp add: transport_inv_def)

lemma transport_init_inv:
  assumes "transport_inv cfg t"
  shows "transport_inv cfg (snd (zenbedded_transport_init cfg env d n m l t))"
proof (cases "tr_initialized t")
  case True
  then show ?thesis using assms by (simp add: zenbedded_transport_init_def)
next
  case False
  note t = transport_inv_uninit [OF assms False]
  define t1 where "t1 = zcall_void env (Zp_Config_Insert Z_CONFIG_MODE_KEY m)
      (t\<lparr> tr_domain_id := d, tr_node_name := take 63 n \<rparr>)"
  define t2 where "t2 = configure_locator cfg env l t1"
  have t1: "session_of t1 = Some z_closed" "used_pubs t1 = {}" "used_subs t1 = {}" "pools_ok t1" "\<not> tr_initialized t1"
    using t False session_of_zcall [of "t\<lparr> tr_domain_id := d, tr_node_name := take 63 n \<rparr>" z_closed]
    by (simp_all add: t1_def ledger_defs session_of_def z_closed_def)
  have t2: "session_of t2 = Some z_closed" "used_pubs t2 = {}" "used_subs t2 = {}" "pools_ok t2" "\<not> tr_initialized t2"
    using t1 session_of_zcall [of "t1\<lparr> tr_full_locator := f \<rparr>" z_closed for f]
    by (simp_all add: t2_def configure_locator_def ledger_defs session_of_def z_closed_def Let_def split: option.splits)
  show ?thesis
  proof (cases "z_ok env (tr_log t2) Z_Open")
    case False
    then show ?thesis
      using t2 \<open>\<not> tr_initialized t\<close> session_of_zcall [of t2 z_closed Z_Open env]
      by (simp add: zenbedded_transport_init_def Let_def zcall_conv flip: t1_def t2_def)
        (simp add: transport_inv_def ledger_defs z_closed_def)
  next
    case ok: True
    define t3 where "t3 = zcall_void env Zp_Start_Lease_Task (zcall_void env Zp_Start_Read_Task (zcall_void env Z_Open t2))"
    let ?s3 = "z_closed\<lparr> zs_open := True, zs_reading := True, zs_leasing := True \<rparr>"
    have s: "session_of (zcall_void env Z_Open t2) = Some (z_closed\<lparr> zs_open := True \<rparr>)"
      using session_of_zcall [OF t2(1), of Z_Open env] ok by (simp add: z_closed_def)
    then have "session_of (zcall_void env Zp_Start_Read_Task (zcall_void env Z_Open t2)) =
        Some (z_closed\<lparr> zs_open := True, zs_reading := True \<rparr>)"
      by (subst session_of_zcall [OF s]) (simp_all add: z_closed_def)
    from session_of_zcall [OF this, of Zp_Start_Lease_Task env]
    have t3: "session_of t3 = Some ?s3" by (simp add: t3_def z_closed_def)
    have p3: "used_pubs t3 = {}" "used_subs t3 = {}" "pools_ok t3"
      using t2 by (simp_all add: t3_def ledger_defs)
    define key where "key = node_token_key (tr_domain_id t2) (z_info_zid env (tr_log t3)) (tr_node_name t2)"
    have "session_of (zcall_void env (Z_Liveliness_Declare_Token Node_Token key) (t3\<lparr> tr_node_lv_str := key \<rparr>)) =
        Some (?s3\<lparr> zs_tokens := {Node_Token} \<rparr>)"
      using session_of_zcall [of "t3\<lparr> tr_node_lv_str := key \<rparr>" ?s3 "Z_Liveliness_Declare_Token Node_Token key" env] t3
      by (simp add: session_of_def z_closed_def)
    then show ?thesis
      using t3 p3 \<open>\<not> tr_initialized t\<close> ok
      by (cases "cfg_tier cfg")
        (simp_all add: zenbedded_transport_init_def Let_def zcall_conv flip: t1_def t2_def t3_def key_def,
         simp_all add: transport_inv_def ledger_defs session_of_def session_with_def z_closed_def)
  qed
qed

text \<open>The state inside a session, while slots are being released.\<close>

definition in_session :: "transport_config \<Rightarrow> nat set \<Rightarrow> nat set \<Rightarrow> ('h, 'u) transport \<Rightarrow> bool" where
  "in_session cfg P S t \<longleftrightarrow> tr_initialized t \<and> pools_ok t \<and> used_pubs t = P \<and> used_subs t = S \<and>
     session_of t = Some (session_with cfg P S)"

lemma transport_inv_in_session:
  "transport_inv cfg t \<Longrightarrow> tr_initialized t \<Longrightarrow> in_session cfg (used_pubs t) (used_subs t) t"
  by (simp add: transport_inv_def in_session_def)

lemma in_session_inv: "in_session cfg P S t \<Longrightarrow> transport_inv cfg t"
  by (simp add: transport_inv_def in_session_def)

lemma session_of_undeclare_token:
  assumes "session_of t = Some s" and "cfg_tier cfg = Tier1 \<longrightarrow> zs_open s \<and> tok \<in> zs_tokens s"
  shows "session_of (undeclare_token cfg env tok t) =
    Some (if cfg_tier cfg = Tier1 then s\<lparr> zs_tokens := zs_tokens s - {tok} \<rparr> else s)"
  using assms session_of_zcall [of t s "Z_Liveliness_Undeclare_Token tok" env]
  by (simp add: undeclare_token_def split: tier.splits)

lemma undeclare_token_frame [simp]:
  "tr_initialized (undeclare_token cfg env tok t) = tr_initialized t"
  "tr_pubs (undeclare_token cfg env tok t) = tr_pubs t" "tr_subs (undeclare_token cfg env tok t) = tr_subs t"
  by (simp_all add: undeclare_token_def split: tier.splits)

lemma destroy_pub_session:
  assumes t: "in_session cfg P S t" and i: "i < MAX_PUBLISHERS"
  shows "in_session cfg (P - {i}) S (destroy_pub cfg env i t)"
proof (cases "pub_in_use (tr_pubs t ! i)")
  case False
  then have "P - {i} = P" using t i by (auto simp: in_session_def used_pubs_def used_slots_def)
  then show ?thesis using t False by (simp add: destroy_pub_def)
next
  case True
  then have iP: "i \<in> P" using t i by (auto simp: in_session_def ledger_defs used_slots_def)
  let ?u = "undeclare_token cfg env (Pub_Token i) t"
  let ?s = "(session_with cfg P S)\<lparr> zs_tokens := zs_tokens (session_with cfg P S) - {Pub_Token i} \<rparr>"
  have "session_of ?u = Some ?s"
    using session_of_undeclare_token [of t "session_with cfg P S" cfg "Pub_Token i" env] t iP
    by (auto simp: in_session_def session_with_def)
  from session_of_zcall [OF this, of "Z_Undeclare_Publisher i" env]
  have "session_of (zcall_void env (Z_Undeclare_Publisher i) ?u) = Some (?s\<lparr> zs_pubs := P - {i} \<rparr>)"
    using iP by (simp add: session_with_def)
  moreover have "?s\<lparr> zs_pubs := P - {i} \<rparr> = session_with cfg (P - {i}) S"
    by (auto simp: session_with_def)
  ultimately show ?thesis
    using t i True pubs.used_release [of i "tr_pubs t"]
    by (auto simp: in_session_def destroy_pub_def ledger_defs session_of_def Let_def)
qed

lemma destroy_sub_session:
  assumes t: "in_session cfg P S t" and i: "i < MAX_SUBSCRIBERS"
  shows "in_session cfg P (S - {i}) (destroy_sub cfg env i t)"
proof (cases "sub_in_use (tr_subs t ! i)")
  case False
  then have "S - {i} = S" using t i by (auto simp: in_session_def used_subs_def used_slots_def)
  then show ?thesis using t False by (simp add: destroy_sub_def)
next
  case True
  then have iS: "i \<in> S" using t i by (auto simp: in_session_def ledger_defs used_slots_def)
  let ?u = "undeclare_token cfg env (Sub_Token i) t"
  let ?s = "(session_with cfg P S)\<lparr> zs_tokens := zs_tokens (session_with cfg P S) - {Sub_Token i} \<rparr>"
  have "session_of ?u = Some ?s"
    using session_of_undeclare_token [of t "session_with cfg P S" cfg "Sub_Token i" env] t iS
    by (auto simp: in_session_def session_with_def)
  from session_of_zcall [OF this, of "Z_Undeclare_Subscriber i" env]
  have "session_of (zcall_void env (Z_Undeclare_Subscriber i) ?u) = Some (?s\<lparr> zs_subs := S - {i} \<rparr>)"
    using iS by (simp add: session_with_def)
  moreover have "?s\<lparr> zs_subs := S - {i} \<rparr> = session_with cfg P (S - {i})"
    by (auto simp: session_with_def)
  ultimately show ?thesis
    using t i True subs.used_release [of i "tr_subs t"]
    by (auto simp: in_session_def destroy_sub_def ledger_defs session_of_def Let_def)
qed

lemma destroy_pubs_session:
  "in_session cfg P S t \<Longrightarrow> k \<le> MAX_PUBLISHERS \<Longrightarrow> in_session cfg (P - {..<k}) S (fold (destroy_pub cfg env) [0..<k] t)"
proof (induction k)
  case (Suc k)
  have "P - {..<Suc k} = P - {..<k} - {k}" by auto
  then show ?case using Suc destroy_pub_session [of cfg "P - {..<k}" S _ k env] by simp
qed simp

lemma destroy_subs_session:
  "in_session cfg P S t \<Longrightarrow> k \<le> MAX_SUBSCRIBERS \<Longrightarrow> in_session cfg P (S - {..<k}) (fold (destroy_sub cfg env) [0..<k] t)"
proof (induction k)
  case (Suc k)
  have "S - {..<Suc k} = S - {..<k} - {k}" by auto
  then show ?case using Suc destroy_sub_session [of cfg P "S - {..<k}" _ k env] by simp
qed simp

lemma used_pubs_bound: "pools_ok t \<Longrightarrow> used_pubs t - {..<MAX_PUBLISHERS} = {}"
  by (auto simp: ledger_defs used_slots_def)

lemma used_subs_bound: "pools_ok t \<Longrightarrow> used_subs t - {..<MAX_SUBSCRIBERS} = {}"
  by (auto simp: ledger_defs used_slots_def)

lemma transport_destroy_inv:
  assumes "transport_inv cfg t"
  shows "transport_inv cfg (zenbedded_transport_destroy cfg env t) \<and>
    \<not> tr_initialized (zenbedded_transport_destroy cfg env t)"
proof (cases "tr_initialized t")
  case False
  then show ?thesis using assms by (simp add: zenbedded_transport_destroy_def)
next
  case True
  define t1 where "t1 = fold (destroy_pub cfg env) [0..<MAX_PUBLISHERS] t"
  define t2 where "t2 = fold (destroy_sub cfg env) [0..<MAX_SUBSCRIBERS] t1"
  have p: "pools_ok t" using assms by (simp add: transport_inv_def)
  have "in_session cfg {} (used_subs t) t1"
    using destroy_pubs_session [OF transport_inv_in_session [OF assms True], of MAX_PUBLISHERS env]
    unfolding used_pubs_bound [OF p] t1_def by simp
  from destroy_subs_session [OF this, of MAX_SUBSCRIBERS env]
  have t2: "in_session cfg {} {} t2" unfolding used_subs_bound [OF p] t2_def by simp
  define t3 where "t3 = undeclare_token cfg env Node_Token t2"
  let ?s = "(session_with cfg {} {})\<lparr> zs_tokens := {} \<rparr>"
  have s3: "session_of t3 = Some ?s"
    using session_of_undeclare_token [of t2 "session_with cfg {} {}" cfg Node_Token env] t2
    by (auto simp: t3_def in_session_def session_with_def)
  have s4: "session_of (zcall_void env Zp_Stop_Read_Task t3) = Some (?s\<lparr> zs_reading := False \<rparr>)"
    using session_of_zcall [OF s3, of Zp_Stop_Read_Task env] by (simp add: session_with_def)
  have s5: "session_of (zcall_void env Zp_Stop_Lease_Task (zcall_void env Zp_Stop_Read_Task t3)) =
      Some (?s\<lparr> zs_reading := False, zs_leasing := False \<rparr>)"
    using session_of_zcall [OF s4, of Zp_Stop_Lease_Task env] by (simp add: session_with_def)
  have s6: "session_of (zcall_void env Z_Close (zcall_void env Zp_Stop_Lease_Task (zcall_void env Zp_Stop_Read_Task t3))) =
      Some z_closed"
    using session_of_zcall [OF s5, of Z_Close env] by (simp add: session_with_def z_closed_def)
  show ?thesis
    using True s6 t2
    by (simp add: zenbedded_transport_destroy_def Let_def flip: t1_def t2_def t3_def)
      (simp add: transport_inv_def in_session_def ledger_defs session_of_def t3_def)
qed

end
