(* ===== verification/Transport_Props.thy ===== *)
theory Transport_Props
  imports Zenoh_Session
begin

text \<open>
  The operations on publishers and subscribers keep the ledger of \<open>Zenoh_Session\<close>; the transport as
  a step relation, its reachable states, and the properties of the component.
\<close>

section \<open>Declaring and publishing\<close>

lemma token_fresh: "i \<notin> P \<Longrightarrow> Pub_Token i \<notin> zs_tokens (session_with cfg P S)"
    "i \<notin> S \<Longrightarrow> Sub_Token i \<notin> zs_tokens (session_with cfg P S)"
  by (auto simp: session_with_def)

text \<open>How slot updates and calls act on the ledger.\<close>

lemma used_update_keep:
  "pub_in_use (f (tr_pubs t ! i)) = pub_in_use (tr_pubs t ! i) \<Longrightarrow> used_pubs (update_pub i f t) = used_pubs t"
  "sub_in_use (g (tr_subs t ! i)) = sub_in_use (tr_subs t ! i) \<Longrightarrow> used_subs (update_sub i g t) = used_subs t"
  by (simp_all add: used_pubs_def used_subs_def pubs.used_keep subs.used_keep)

lemma used_update_set:
  "i < length (tr_pubs t) \<Longrightarrow> pub_in_use (f (tr_pubs t ! i)) \<Longrightarrow> used_pubs (update_pub i f t) = insert i (used_pubs t)"
  "i < length (tr_subs t) \<Longrightarrow> sub_in_use (g (tr_subs t ! i)) \<Longrightarrow> used_subs (update_sub i g t) = insert i (used_subs t)"
  by (simp_all add: used_pubs_def used_subs_def pubs.used_update subs.used_update)

lemma used_update_clear:
  "i < length (tr_pubs t) \<Longrightarrow> \<not> pub_in_use (f (tr_pubs t ! i)) \<Longrightarrow> used_pubs (update_pub i f t) = used_pubs t - {i}"
  "i < length (tr_subs t) \<Longrightarrow> \<not> sub_in_use (g (tr_subs t ! i)) \<Longrightarrow> used_subs (update_sub i g t) = used_subs t - {i}"
  by (simp_all add: used_pubs_def used_subs_def pubs.used_update subs.used_update)

lemma ledger_frame [simp]:
  "used_pubs (zcall_void env c t) = used_pubs t" "used_subs (zcall_void env c t) = used_subs t"
  "used_subs (update_pub i f t) = used_subs t" "used_pubs (update_sub i g t) = used_pubs t"
  "pools_ok (zcall_void env c t) = pools_ok t" "pools_ok (update_pub i f t) = pools_ok t"
  "pools_ok (update_sub i g t) = pools_ok t"
  "session_of (update_pub i f t) = session_of t" "session_of (update_sub i g t) = session_of t"
  by (simp_all add: ledger_defs session_of_def)

lemma announce_pub_session:
  assumes "session_of t = Some ((session_with cfg P S)\<lparr> zs_pubs := insert i P \<rparr>)" and "i \<notin> P" and "cfg_tier cfg = Tier1"
  shows "session_of (announce_pub env i topic ty t) = Some (session_with cfg (insert i P) S) \<and>
    tr_initialized (announce_pub env i topic ty t) = tr_initialized t \<and>
    used_pubs (announce_pub env i topic ty t) = used_pubs t \<and>
    used_subs (announce_pub env i topic ty t) = used_subs t \<and> pools_ok (announce_pub env i topic ty t) = pools_ok t"
proof -
  have "\<exists>u key. announce_pub env i topic ty t = zcall_void env (Z_Liveliness_Declare_Token (Pub_Token i) key) u \<and>
      session_of u = session_of t \<and> tr_initialized u = tr_initialized t \<and> used_pubs u = used_pubs t \<and>
      used_subs u = used_subs t \<and> pools_ok u = pools_ok t"
    unfolding announce_pub_def Let_def
    by (intro exI conjI, rule refl) (simp_all add: used_update_keep)
  then obtain u key where u: "announce_pub env i topic ty t = zcall_void env (Z_Liveliness_Declare_Token (Pub_Token i) key) u"
      "session_of u = session_of t" "tr_initialized u = tr_initialized t" "used_pubs u = used_pubs t"
      "used_subs u = used_subs t" "pools_ok u = pools_ok t" by blast
  have "session_of (announce_pub env i topic ty t) = Some (session_with cfg (insert i P) S)"
    unfolding u(1) using assms u(2)
    by (subst session_of_zcall [OF trans [OF u(2) assms(1)]]) (auto simp: session_with_def)
  then show ?thesis using u by simp
qed

lemma announce_sub_session:
  assumes "session_of t = Some ((session_with cfg P S)\<lparr> zs_subs := insert i S \<rparr>)" and "i \<notin> S" and "cfg_tier cfg = Tier1"
  shows "session_of (announce_sub env i topic ty t) = Some (session_with cfg P (insert i S)) \<and>
    tr_initialized (announce_sub env i topic ty t) = tr_initialized t \<and>
    used_pubs (announce_sub env i topic ty t) = used_pubs t \<and>
    used_subs (announce_sub env i topic ty t) = used_subs t \<and> pools_ok (announce_sub env i topic ty t) = pools_ok t"
proof -
  have "\<exists>u key. announce_sub env i topic ty t = zcall_void env (Z_Liveliness_Declare_Token (Sub_Token i) key) u \<and>
      session_of u = session_of t \<and> tr_initialized u = tr_initialized t \<and> used_pubs u = used_pubs t \<and>
      used_subs u = used_subs t \<and> pools_ok u = pools_ok t"
    unfolding announce_sub_def Let_def
    by (intro exI conjI, rule refl) (simp_all add: used_update_keep)
  then obtain u key where u: "announce_sub env i topic ty t = zcall_void env (Z_Liveliness_Declare_Token (Sub_Token i) key) u"
      "session_of u = session_of t" "tr_initialized u = tr_initialized t" "used_pubs u = used_pubs t"
      "used_subs u = used_subs t" "pools_ok u = pools_ok t" by blast
  have "session_of (announce_sub env i topic ty t) = Some (session_with cfg P (insert i S))"
    unfolding u(1) using assms u(2)
    by (subst session_of_zcall [OF trans [OF u(2) assms(1)]]) (auto simp: session_with_def)
  then show ?thesis using u by simp
qed

text \<open>What \<open>declare_publisher\<close> does to the ledger: \<open>h\<close> is the handle it returns.\<close>

lemma declare_publisher_session:
  assumes inv: "transport_inv cfg t"
    and d: "zenbedded_transport_declare_publisher cfg env topic ty t = Some (h, t')"
  shows "transport_inv cfg t' \<and> tr_initialized t' = tr_initialized t \<and> used_subs t' = used_subs t \<and>
    (case h of None \<Rightarrow> used_pubs t' = used_pubs t
     | Some i \<Rightarrow> tr_initialized t \<and> i < MAX_PUBLISHERS \<and> i \<notin> used_pubs t \<and> used_pubs t' = insert i (used_pubs t))"
proof (cases "tr_initialized t \<and> alloc_slot pub_in_use (tr_pubs t) \<noteq> None")
  case False
  then show ?thesis
    using d inv by (auto simp: zenbedded_transport_declare_publisher_def split: if_splits)
next
  case True
  then obtain i where i: "alloc_slot pub_in_use (tr_pubs t) = Some i" by blast
  obtain key where key: "topic_keyexpr cfg (tr_domain_id t) topic ty = Some key"
    using d True i by (auto simp: zenbedded_transport_declare_publisher_def bind_eq_Some_conv)
  have il: "i < length (tr_pubs t)" and iu: "i \<notin> used_pubs t"
    using pubs.alloc_fresh [OF i] by (simp_all add: used_pubs_def)
  let ?P = "used_pubs t" and ?S = "used_subs t" and ?c = "Z_Declare_Publisher i key (cfg_tier cfg = Tier2)"
  define t1 where "t1 = update_pub i (\<lambda>p. (set_pub_in_use True p)\<lparr> pub_topic_keyexpr := key \<rparr>) t"
  define t2 where "t2 = zcall_void env ?c t1"
  have ses: "in_session cfg ?P ?S t" using inv True by (simp add: transport_inv_in_session)
  then have s1: "session_of t1 = Some (session_with cfg ?P ?S)" by (simp add: t1_def in_session_def)
  have s2: "session_of t2 = Some (if z_ok env (tr_log t1) ?c then (session_with cfg ?P ?S)\<lparr> zs_pubs := insert i ?P \<rparr>
      else session_with cfg ?P ?S)"
    using session_of_zcall [OF s1, of ?c env] iu by (simp add: t2_def session_with_def)
  have p2: "used_pubs t2 = insert i ?P" "used_subs t2 = ?S" "pools_ok t2" "tr_initialized t2"
    using il ses by (simp_all add: t2_def t1_def used_update_set in_session_def set_pub_in_use_def)
  have i10: "i < MAX_PUBLISHERS" using ses il by (simp add: in_session_def pools_ok_def)
  have l2: "i < length (tr_pubs t2)" using il by (simp add: t2_def t1_def)
  have d': "(if \<not> z_ok env (tr_log t1) ?c then Some (None, update_pub i (set_pub_in_use False) t2)
       else case (cfg_tier cfg, ty) of
         (Tier1, Some y) \<Rightarrow> Some (Some i, announce_pub env i (clean_topic topic) y t2)
       | _ \<Rightarrow> Some (Some i, t2)) = Some (h, t')"
    using d True i key by (cases "cfg_tier cfg"; cases ty)
      (simp_all add: zenbedded_transport_declare_publisher_def zcall_conv t1_def t2_def Let_def split: if_splits)
  show ?thesis
  proof (cases "z_ok env (tr_log t1) ?c")
    case False
    then have e: "h = None" "t' = update_pub i (set_pub_in_use False) t2" using d' by auto
    have "used_pubs t' = ?P"
      using used_update_clear(1) [OF l2, of "set_pub_in_use False"] p2(1) iu by (simp add: e(2) set_pub_in_use_def)
    then show ?thesis using e s2 p2 False True by (simp add: transport_inv_def)
  next
    case ok: True
    show ?thesis
    proof (cases "cfg_tier cfg")
      case Tier2
      then have e: "h = Some i" "t' = t2" using d' ok by auto
      have "(session_with cfg ?P ?S)\<lparr> zs_pubs := insert i ?P \<rparr> = session_with cfg (insert i ?P) ?S"
        using Tier2 by (simp add: session_with_def)
      then show ?thesis using e s2 p2 ok True iu i10 by (simp add: transport_inv_def)
    next
      case Tier1
      then obtain y where y: "ty = Some y" using key by (auto simp: topic_keyexpr_def)
      then have e: "h = Some i" "t' = announce_pub env i (clean_topic topic) y t2" using d' ok Tier1 by auto
      show ?thesis
        using announce_pub_session [where t = t2 and cfg = cfg and P = ?P and S = ?S and i = i] s2 ok iu Tier1 e p2 True i10
        by (simp add: transport_inv_def)
    qed
  qed
qed

lemma declare_subscriber_session:
  assumes inv: "transport_inv cfg t"
    and d: "zenbedded_transport_declare_subscriber cfg env topic ty cb ud t = Some (h, t')"
  shows "transport_inv cfg t' \<and> tr_initialized t' = tr_initialized t \<and> used_pubs t' = used_pubs t \<and>
    (case h of None \<Rightarrow> used_subs t' = used_subs t
     | Some i \<Rightarrow> tr_initialized t \<and> i < MAX_SUBSCRIBERS \<and> i \<notin> used_subs t \<and> used_subs t' = insert i (used_subs t))"
proof (cases "tr_initialized t \<and> alloc_slot sub_in_use (tr_subs t) \<noteq> None")
  case False
  then show ?thesis
    using d inv by (auto simp: zenbedded_transport_declare_subscriber_def split: if_splits)
next
  case True
  then obtain i where i: "alloc_slot sub_in_use (tr_subs t) = Some i" by blast
  obtain key where key: "topic_keyexpr cfg (tr_domain_id t) topic ty = Some key"
    using d True i by (auto simp: zenbedded_transport_declare_subscriber_def bind_eq_Some_conv)
  have il: "i < length (tr_subs t)" and iu: "i \<notin> used_subs t"
    using subs.alloc_fresh [OF i] by (simp_all add: used_subs_def)
  let ?P = "used_pubs t" and ?S = "used_subs t" and ?c = "Z_Declare_Subscriber i key"
  define t1 where "t1 = update_sub i (\<lambda>s. (set_sub_in_use True s)
      \<lparr> sub_user_cb := cb, sub_user_data := ud, sub_topic_keyexpr := key \<rparr>) t"
  define t2 where "t2 = zcall_void env ?c t1"
  have ses: "in_session cfg ?P ?S t" using inv True by (simp add: transport_inv_in_session)
  then have s1: "session_of t1 = Some (session_with cfg ?P ?S)" by (simp add: t1_def in_session_def)
  have s2: "session_of t2 = Some (if z_ok env (tr_log t1) ?c then (session_with cfg ?P ?S)\<lparr> zs_subs := insert i ?S \<rparr>
      else session_with cfg ?P ?S)"
    using session_of_zcall [OF s1, of ?c env] iu by (simp add: t2_def session_with_def)
  have p2: "used_subs t2 = insert i ?S" "used_pubs t2 = ?P" "pools_ok t2" "tr_initialized t2"
    using il ses by (simp_all add: t2_def t1_def used_update_set in_session_def set_sub_in_use_def)
  have i10: "i < MAX_SUBSCRIBERS" using ses il by (simp add: in_session_def pools_ok_def)
  have l2: "i < length (tr_subs t2)" using il by (simp add: t2_def t1_def)
  have d': "(if \<not> z_ok env (tr_log t1) ?c then Some (None, update_sub i (set_sub_in_use False) t2)
       else case (cfg_tier cfg, ty) of
         (Tier1, Some y) \<Rightarrow> Some (Some i, announce_sub env i (clean_topic topic) y t2)
       | _ \<Rightarrow> Some (Some i, t2)) = Some (h, t')"
    using d True i key by (cases "cfg_tier cfg"; cases ty)
      (simp_all add: zenbedded_transport_declare_subscriber_def zcall_conv t1_def t2_def Let_def split: if_splits)
  show ?thesis
  proof (cases "z_ok env (tr_log t1) ?c")
    case False
    then have e: "h = None" "t' = update_sub i (set_sub_in_use False) t2" using d' by auto
    have "used_subs t' = ?S"
      using used_update_clear(2) [OF l2, of "set_sub_in_use False"] p2(1) iu by (simp add: e(2) set_sub_in_use_def)
    then show ?thesis using e s2 p2 False True by (simp add: transport_inv_def)
  next
    case ok: True
    show ?thesis
    proof (cases "cfg_tier cfg")
      case Tier2
      then have e: "h = Some i" "t' = t2" using d' ok by auto
      have "(session_with cfg ?P ?S)\<lparr> zs_subs := insert i ?S \<rparr> = session_with cfg ?P (insert i ?S)"
        using Tier2 by (simp add: session_with_def)
      then show ?thesis using e s2 p2 ok True iu i10 by (simp add: transport_inv_def)
    next
      case Tier1
      then obtain y where y: "ty = Some y" using key by (auto simp: topic_keyexpr_def)
      then have e: "h = Some i" "t' = announce_sub env i (clean_topic topic) y t2" using d' ok Tier1 by auto
      show ?thesis
        using announce_sub_session [where t = t2 and cfg = cfg and P = ?P and S = ?S and i = i] s2 ok iu Tier1 e p2 True i10
        by (simp add: transport_inv_def)
    qed
  qed
qed

lemma publish_session:
  assumes inv: "transport_inv cfg t" and p: "zenbedded_transport_publish cfg env pub payload t = Some (r, t')"
  shows "transport_inv cfg t' \<and> tr_initialized t' = tr_initialized t \<and> used_pubs t' = used_pubs t \<and> used_subs t' = used_subs t"
proof (cases "t' = t")
  case False
  then obtain i where i: "pub = Some i" "i < length (tr_pubs t)" "pub_in_use (tr_pubs t ! i)"
    using p by (auto simp: zenbedded_transport_publish_def split: option.splits if_splits)
  then have iP: "i \<in> used_pubs t" by (simp add: used_pubs_def used_slots_def)
  then have init: "tr_initialized t" using inv by (auto simp: transport_inv_def split: if_splits)
  then have ses: "session_of t = Some (session_with cfg (used_pubs t) (used_subs t))"
    using inv by (simp add: transport_inv_def)
  obtain u a where u: "t' = zcall_void env (Z_Publisher_Put i payload a) u" "used_pubs u = used_pubs t"
      "used_subs u = used_subs t" "pools_ok u = pools_ok t" "tr_initialized u = tr_initialized t" "session_of u = session_of t"
    using p i by (auto simp: zenbedded_transport_publish_def zcall_conv Let_def bind_eq_Some_conv used_update_keep
        split: tier.splits)
  have "session_of t' = session_of t"
    using session_of_zcall [of u "session_with cfg (used_pubs t) (used_subs t)" "Z_Publisher_Put i payload a" env] u ses iP
    by (simp add: session_with_def)
  then show ?thesis using u inv by (simp add: transport_inv_def)
qed (use inv in simp)

section \<open>The transport as a step relation\<close>

text \<open>Any sequence of calls of the interface, with any arguments.\<close>

inductive transport_step ::
    "transport_config \<Rightarrow> zenoh_env \<Rightarrow> ('h, 'u) transport \<Rightarrow> ('h, 'u) transport \<Rightarrow> bool" for cfg env where
  step_init: "transport_step cfg env t (snd (zenbedded_transport_init cfg env domain node mode locator t))"
| step_destroy: "transport_step cfg env t (zenbedded_transport_destroy cfg env t)"
| step_declare_publisher:
    "zenbedded_transport_declare_publisher cfg env topic ty t = Some (h, t') \<Longrightarrow> transport_step cfg env t t'"
| step_declare_subscriber:
    "zenbedded_transport_declare_subscriber cfg env topic ty cb ud t = Some (h, t') \<Longrightarrow> transport_step cfg env t t'"
| step_publish:
    "zenbedded_transport_publish cfg env pub payload t = Some (r, t') \<Longrightarrow> transport_step cfg env t t'"

inductive transport_reachable :: "transport_config \<Rightarrow> zenoh_env \<Rightarrow> ('h, 'u) transport \<Rightarrow> bool" for cfg env where
  reach_static: "transport_reachable cfg env transport_static"
| reach_step: "transport_reachable cfg env t \<Longrightarrow> transport_step cfg env t t' \<Longrightarrow> transport_reachable cfg env t'"

lemma transport_step_inv: "transport_step cfg env t t' \<Longrightarrow> transport_inv cfg t \<Longrightarrow> transport_inv cfg t'"
proof (induction rule: transport_step.induct)
  case step_init
  then show ?case by (rule transport_init_inv)
next
  case step_destroy
  then show ?case by (rule transport_destroy_inv [THEN conjunct1])
next
  case step_declare_publisher
  then show ?case using declare_publisher_session by blast
next
  case step_declare_subscriber
  then show ?case using declare_subscriber_session by blast
next
  case step_publish
  then show ?case using publish_session by blast
qed

lemma transport_reachable_inv: "transport_reachable cfg env t \<Longrightarrow> transport_inv cfg t"
  by (induction rule: transport_reachable.induct) (auto intro: transport_step_inv)

lemma used_pubs_card: "pools_ok t \<Longrightarrow> alloc_slot pub_in_use (tr_pubs t) = None \<longleftrightarrow> card (used_pubs t) = MAX_PUBLISHERS"
  by (simp add: alloc_slot_None_card ledger_defs)

lemma used_pubs_iff: "i \<in> used_pubs t \<longleftrightarrow> i < length (tr_pubs t) \<and> pub_in_use (tr_pubs t ! i)"
  by (simp add: used_pubs_def used_slots_def)

text \<open>The payload and the sequence number that a put carries, whether or not zenoh accepts it.\<close>

fun put_sequence :: "zcall \<times> bool \<Rightarrow> (byte list \<times> u64) option" where
  "put_sequence (Z_Publisher_Put i payload (Some a), ok) = Some (payload, word_of_le (take 8 a))"
| "put_sequence _ = None"

fun publish_all ::
    "transport_config \<Rightarrow> zenoh_env \<Rightarrow> nat \<Rightarrow> byte list list \<Rightarrow> ('h, 'u) transport \<Rightarrow> ('h, 'u) transport option" where
  "publish_all cfg env i [] t = Some t"
| "publish_all cfg env i (p # ps) t =
     do { (r, t) \<leftarrow> zenbedded_transport_publish cfg env (Some i) p t; publish_all cfg env i ps t }"

lemma sequence_in_attachment [simp]: "word_of_le (take 8 (attachment_bytes a)) = sequence_number a"
  by (simp add: attachment_bytes_def)

text \<open>The clock's time in nanoseconds fits into 64 bits, at every time.\<close>

definition stamp_fits :: "int \<times> int \<Rightarrow> bool" where
  "stamp_fits tv \<longleftrightarrow> - (2 ^ 63) \<le> fst tv * 1000000000 \<and> fst tv * 1000000000 < 2 ^ 63 \<and>
     - (2 ^ 63) \<le> fst tv * 1000000000 + snd tv \<and> fst tv * 1000000000 + snd tv < 2 ^ 63"

definition clock_ok :: "zenoh_env \<Rightarrow> bool" where
  "clock_ok env \<longleftrightarrow> (\<forall>log. stamp_fits (clock env log))"

lemma stamp_attachment_ok:
  assumes "n + 1 < 2 ^ 63" and "sequence_number a = of_nat n" and "stamp_fits tv"
  shows "\<exists>a'. stamp_attachment tv a = Some a' \<and> sequence_number a' = of_nat (Suc n)"
proof -
  have "sint (of_nat n :: i64) = int n"
    using assms(1) by (simp add: sint_uint signed_take_bit_int_eq_self uint_nat unat_of_nat unsigned_of_nat take_bit_nat_eq_self)
  then show ?thesis using assms by (simp add: stamp_attachment_def stamp_fits_def checked_i64_def add.commute)
qed

text \<open>A Tier 1 publication is defined as long as its stamp and its number fit, and carries the next number.\<close>

lemma publish_stamped:
  assumes tier: "cfg_tier cfg = Tier1"
    and t: "i < length (tr_pubs t)" "pub_in_use (tr_pubs t ! i)" "sequence_number (pub_attachment (tr_pubs t ! i)) = of_nat n"
    and n: "n + 1 < 2 ^ 63"
    and clk: "clock_ok env"
  shows "\<exists>r u a. zenbedded_transport_publish cfg env (Some i) p t = Some (r, u) \<and>
    i < length (tr_pubs u) \<and> pub_in_use (tr_pubs u ! i) \<and>
    sequence_number (pub_attachment (tr_pubs u ! i)) = of_nat (Suc n) \<and>
    tr_log u = tr_log t @ [(Z_Publisher_Put i p (Some (attachment_bytes a)),
      z_ok env (tr_log t) (Z_Publisher_Put i p (Some (attachment_bytes a))))] \<and>
    sequence_number a = of_nat (Suc n)"
proof -
  let ?tv = "clock env (tr_log t)"
  obtain a where "stamp_attachment ?tv (pub_attachment (tr_pubs t ! i)) = Some a" "sequence_number a = of_nat (Suc n)"
    using stamp_attachment_ok [OF n t(3), of ?tv] clk by (auto simp: clock_ok_def)
  then show ?thesis using t tier by (simp add: zenbedded_transport_publish_def zcall_def Let_def) blast
qed

lemma declare_publisher_numbered:
  assumes "cfg_tier cfg = Tier1" and "zenbedded_transport_declare_publisher cfg env topic ty t = Some (Some i, t1)"
  shows "i < length (tr_pubs t1) \<and> pub_in_use (tr_pubs t1 ! i) \<and>
      sequence_number (pub_attachment (tr_pubs t1 ! i)) = 0"
proof -
  obtain y where y: "ty = Some y" using assms(1,2)
    by (cases ty) (auto simp: zenbedded_transport_declare_publisher_def topic_keyexpr_def split: if_splits option.splits)
  obtain j where "alloc_slot pub_in_use (tr_pubs t) = Some j" using assms(2)
    by (auto simp: zenbedded_transport_declare_publisher_def split: if_splits option.splits)
  moreover from this have "j < length (tr_pubs t)" using pubs.alloc_fresh by blast
  ultimately show ?thesis
    using assms(1,2) y
    by (auto simp: zenbedded_transport_declare_publisher_def topic_keyexpr_def zcall_def zcall_void_def Let_def
        announce_pub_def set_pub_in_use_def split: if_splits)
qed

text \<open>If zenoh accepts the declaration and a slot is free, a handle is returned.\<close>

lemma declare_publisher_accepts:
  assumes "transport_inv cfg t" and "tr_initialized t" and "card (used_pubs t) \<noteq> MAX_PUBLISHERS"
    and "\<And>log c. (\<forall>i p a. c \<noteq> Z_Publisher_Put i p a) \<Longrightarrow> z_ok env log c"
    and "cfg_tier cfg = Tier1 \<Longrightarrow> ty \<noteq> None"
  shows "\<exists>i t'. zenbedded_transport_declare_publisher cfg env topic ty t = Some (Some i, t')"
proof -
  have "pools_ok t" using assms(1) by (simp add: transport_inv_def)
  then obtain i where "alloc_slot pub_in_use (tr_pubs t) = Some i" using used_pubs_card assms(3) by blast
  then show ?thesis using assms(2,4,5)
    by (cases "cfg_tier cfg"; cases ty)
      (simp_all add: zenbedded_transport_declare_publisher_def topic_keyexpr_def zcall_conv Let_def)
qed

lemma declare_subscriber_accepts:
  assumes "transport_inv cfg t" and "tr_initialized t" and "card (used_subs t) \<noteq> MAX_SUBSCRIBERS"
    and "\<And>log c. (\<forall>i p a. c \<noteq> Z_Publisher_Put i p a) \<Longrightarrow> z_ok env log c"
    and "cfg_tier cfg = Tier1 \<Longrightarrow> ty \<noteq> None"
  shows "\<exists>i t'. zenbedded_transport_declare_subscriber cfg env topic ty cb ud t = Some (Some i, t')"
proof -
  have "pools_ok t" using assms(1) by (simp add: transport_inv_def)
  then obtain i where "alloc_slot sub_in_use (tr_subs t) = Some i"
    using alloc_slot_None_card [of sub_in_use "tr_subs t"] assms(3) by (auto simp: ledger_defs)
  then show ?thesis using assms(2,4,5)
    by (cases "cfg_tier cfg"; cases ty)
      (simp_all add: zenbedded_transport_declare_subscriber_def topic_keyexpr_def zcall_conv Let_def)
qed

lemma transport_init_accepts:
  assumes "\<And>log c. (\<forall>i p a. c \<noteq> Z_Publisher_Put i p a) \<Longrightarrow> z_ok env log c"
  shows "\<exists>t'. zenbedded_transport_init cfg env d n m l t = (0, t') \<and> tr_initialized t'"
  using assms by (auto simp: zenbedded_transport_init_def Let_def zcall_conv split: tier.splits)

lemma transport_init_unused:
  assumes "transport_inv cfg t" and "\<not> tr_initialized t" and "zenbedded_transport_init cfg env d n m l t = (r, t')"
  shows "used_pubs t' = {} \<and> used_subs t' = {}"
proof -
  have "tr_pubs t' = tr_pubs t \<and> tr_subs t' = tr_subs t"
    using assms(2,3) by (auto simp: zenbedded_transport_init_def Let_def zcall_conv configure_locator_def
        split: tier.splits option.splits if_splits)
  then show ?thesis using transport_inv_uninit [OF assms(1,2)] by (simp add: ledger_defs)
qed

lemma declare_subscriber_pubs:
  assumes "zenbedded_transport_declare_subscriber cfg env topic ty cb ud t = Some (h, t')"
  shows "tr_pubs t' = tr_pubs t"
  using assms by (cases "cfg_tier cfg"; cases ty)
    (auto simp: zenbedded_transport_declare_subscriber_def topic_keyexpr_def zcall_conv Let_def announce_sub_def
      split: if_splits option.splits)

section \<open>Properties\<close>

text \<open>C4: Whatever the order in which the interface is called and whatever zenoh-pico answers, the
  transport uses its zenoh session in order: nothing is declared, published or undeclared outside
  of an open session, nothing is declared or undeclared twice, no put goes to an undeclared
  publisher, and the slots in use are at every moment exactly the publishers and subscribers that
  are declared (with their liveliness tokens in Tier 1).\<close>

theorem transport_uses_session_in_order:
  assumes "transport_reachable cfg env t"
  shows "session_of t =
    Some (if tr_initialized t then session_with cfg (used_pubs t) (used_subs t) else z_closed) \<and>
    (tr_initialized t \<or> used_pubs t = {} \<and> used_subs t = {})"
  using transport_reachable_inv [OF assms] by (auto simp: transport_inv_def split: if_splits)

text \<open>C22: After \<open>zenbedded_transport_destroy\<close> nothing is left: the session is closed with every
  publisher, subscriber and token undeclared and both tasks stopped, all slots are free, a second
  destroy does nothing, and publishing through an old handle fails without touching zenoh.\<close>

theorem transport_destroy_leaves_nothing:
  assumes "transport_reachable cfg env t" and "i < MAX_PUBLISHERS"
  shows "session_of (zenbedded_transport_destroy cfg env t) = Some z_closed \<and>
    used_pubs (zenbedded_transport_destroy cfg env t) = {} \<and> used_subs (zenbedded_transport_destroy cfg env t) = {} \<and>
    zenbedded_transport_destroy cfg env (zenbedded_transport_destroy cfg env t) = zenbedded_transport_destroy cfg env t \<and>
    zenbedded_transport_publish cfg env (Some i) payload (zenbedded_transport_destroy cfg env t) =
      Some (-1, zenbedded_transport_destroy cfg env t)"
proof -
  let ?d = "zenbedded_transport_destroy cfg env t"
  have d: "transport_inv cfg ?d" "\<not> tr_initialized ?d"
    using transport_destroy_inv [OF transport_reachable_inv [OF assms(1)]] by simp_all
  then have c: "session_of ?d = Some z_closed" "used_pubs ?d = {}" "used_subs ?d = {}" "pools_ok ?d"
    by (simp_all add: transport_inv_def)
  have "i < length (tr_pubs ?d)" using assms(2) c(4) by (simp add: pools_ok_def)
  moreover from this have "\<not> pub_in_use (tr_pubs ?d ! i)" using c(2) used_pubs_iff [of i ?d] by blast
  ultimately have "zenbedded_transport_publish cfg env (Some i) payload ?d = Some (-1, ?d)"
    by (simp add: zenbedded_transport_publish_def)
  then show ?thesis using c d(2) by (simp add: zenbedded_transport_destroy_def [of cfg env ?d])
qed

text \<open>\<open>zenbedded_transport_declare_publisher\<close> returns a handle to a slot that no other publisher
  holds, or NULL and then leaves no slot taken; it returns NULL only if the transport is not
  initialised, all ten slots are taken, or zenoh refused the declaration.\<close>

theorem declare_publisher_handles:
  assumes "transport_reachable cfg env t"
    and "zenbedded_transport_declare_publisher cfg env topic ty t = Some (h, t')"
  shows "(case h of
      Some i \<Rightarrow> i < MAX_PUBLISHERS \<and> i \<notin> used_pubs t \<and> used_pubs t' = insert i (used_pubs t)
    | None \<Rightarrow> used_pubs t' = used_pubs t \<and>
        (\<not> tr_initialized t \<or> card (used_pubs t) = MAX_PUBLISHERS \<or>
         (\<exists>i key be. tr_log t' = tr_log t @ [(Z_Declare_Publisher i key be, False)])))"
proof -
  have inv: "transport_inv cfg t" using assms(1) by (rule transport_reachable_inv)
  then have p: "pools_ok t" by (simp add: transport_inv_def)
  have "\<exists>i key be. tr_log t' = tr_log t @ [(Z_Declare_Publisher i key be, False)]"
    if null: "h = None" and up: "tr_initialized t" and free: "card (used_pubs t) \<noteq> MAX_PUBLISHERS"
  proof -
    obtain i where i: "alloc_slot pub_in_use (tr_pubs t) = Some i"
      using free used_pubs_card [OF p] by blast
    then show ?thesis
      using assms(2) null up i
      by (cases "cfg_tier cfg"; cases ty)
        (auto simp: zenbedded_transport_declare_publisher_def topic_keyexpr_def zcall_def Let_def split: if_splits)
  qed
  then show ?thesis
    using declare_publisher_session [OF inv assms(2)] by (auto split: option.splits)
qed

text \<open>In Tier 1 a publisher numbers its messages: the payloads published through a handle after
  it was declared are handed to zenoh in order, unchanged, each with the attachment whose sequence number is
  its position, counted from 1, so a receiver can detect loss and reordering: a payload that zenoh refuses leaves a gap.\<close>

theorem publish_numbers_messages:
  assumes "cfg_tier cfg = Tier1"
    and "zenbedded_transport_declare_publisher cfg env topic ty t = Some (Some i, t1)"
    and "length payloads < 2 ^ 63 - 1"
    and "clock_ok env"
  shows "\<exists>t2. publish_all cfg env i payloads t1 = Some t2 \<and>
    map put_sequence (drop (length (tr_log t1)) (tr_log t2)) =
      map (\<lambda>k. Some (payloads ! k, of_nat (Suc k))) [0..<length payloads]"
proof -
  note step = publish_stamped [OF assms(1) _ _ _ _ assms(4)]
  have run: "\<exists>u. publish_all cfg env i ps t = Some u \<and> (\<exists>l. tr_log u = tr_log t @ l \<and>
      map put_sequence l = map (\<lambda>k. Some (ps ! k, of_nat (Suc (n + k)))) [0..<length ps])"
    if "i < length (tr_pubs t)" "pub_in_use (tr_pubs t ! i)"
      "sequence_number (pub_attachment (tr_pubs t ! i)) = of_nat n" "n + length ps < 2 ^ 63"
    for t :: "('a, 'b) transport" and ps n
    using that
  proof (induction ps arbitrary: t n)
    case (Cons p ps)
    from Cons.prems(4) have n: "n + 1 < 2 ^ 63" and n': "Suc n + length ps < 2 ^ 63" by simp_all
    obtain r u a ok where u: "zenbedded_transport_publish cfg env (Some i) p t = Some (r, u)"
        "i < length (tr_pubs u)" "pub_in_use (tr_pubs u ! i)"
        "sequence_number (pub_attachment (tr_pubs u ! i)) = of_nat (Suc n)"
        "tr_log u = tr_log t @ [(Z_Publisher_Put i p (Some (attachment_bytes a)), ok)]"
        "sequence_number a = of_nat (Suc n)"
      using step [OF Cons.prems(1-3) n, of p] by blast
    obtain v l where v: "publish_all cfg env i ps u = Some v" "tr_log v = tr_log u @ l"
        "map put_sequence l = map (\<lambda>k. Some (ps ! k, of_nat (Suc (Suc n + k)))) [0..<length ps]"
      using Cons.IH [OF u(2-4) n'] by blast
    have "[0..<length (p # ps)] = 0 # map Suc [0..<length ps]" by (simp add: map_Suc_upt upt_conv_Cons del: upt_Suc)
    then show ?case using u v by (simp add: o_def)
  qed simp
  have "i < length (tr_pubs t1) \<and> pub_in_use (tr_pubs t1 ! i) \<and>
      sequence_number (pub_attachment (tr_pubs t1 ! i)) = of_nat 0"
    using declare_publisher_numbered [OF assms(1,2)] by simp
  then show ?thesis using run [of t1 0 payloads] assms(3) by fastforce
qed

text \<open>C23: The receive handler copies every sample into its stack buffer without ever exceeding it,
  whatever its length, and calls the subscriber's callback exactly for the lengths from 1 up to the
  buffer size (1024 bytes in Tier 1, 64 in Tier 2), with the payload unchanged.\<close>

theorem internal_sub_handler_delivers:
  "internal_sub_handler cfg sub payload =
    Some (case sub of
        None \<Rightarrow> None
      | Some s \<Rightarrow> if 1 \<le> length payload \<and> length payload \<le> (if cfg_tier cfg = Tier1 then 1024 else 64)
          then map_option (\<lambda>cb. (cb, payload, sub_user_data s)) (sub_user_cb s) else None)"
  by (auto simp: internal_sub_handler_def rx_buf_size_def mem_simps Let_def Suc_le_eq
      split: option.splits tier.splits)

text \<open>C24: Two Tier 1 endpoints meet only if they agree: as long as the names fit the 512-byte key
  buffer, equal key expressions mean the same domain, the same topic (but for a leading slash) and
  the same message type.\<close>

theorem topic_keyexpr_separates:
  assumes "cfg_tier cfg = Tier1" and "topic_keyexpr cfg d1 t1 (Some m1) = topic_keyexpr cfg d2 t2 (Some m2)"
    and "CHR ''/'' \<notin> set m1" and "CHR ''/'' \<notin> set m2"
    and "length t1 + length m1 < 428" and "length t2 + length m2 < 428"
  shows "d1 = d2 \<and> clean_topic t1 = clean_topic t2 \<and> m1 = m2"
proof -
  have c: "length (clean_topic t) \<le> length t" for t by (cases t) (auto simp: clean_topic_def)
  have f: "snprintf KEYEXPR_MAX_LEN (topic_key_t1 d (clean_topic t) m) = topic_key_t1 d (clean_topic t) m"
    if "length t + length m < 428" for d t m
    using that length_topic_key_t1 [of d "clean_topic t" m] c [of t] by (simp add: KEYEXPR_MAX_LEN_def)
  show ?thesis
    using assms f topic_key_t1_inj [of d1 "clean_topic t1" m1 d2 "clean_topic t2" m2]
    by (simp add: topic_keyexpr_def)
qed

section \<open>Witnesses\<close>

text \<open>A zenoh that accepts every call, and a transport initialised on it.\<close>

definition quiet_zenoh :: zenoh_env where
  "quiet_zenoh = \<lparr> z_ok = (\<lambda>log c. True), z_info_zid = (\<lambda>log. replicate 16 1),
     sys_rand = (\<lambda>log n. replicate n 5), clock = (\<lambda>log. (7, 5)) \<rparr>"

definition tier1_cfg :: transport_config where
  "tier1_cfg = \<lparr> cfg_tier = Tier1, cfg_reliable = True, cfg_client = True \<rparr>"

definition demo_transport :: "(nat, nat) transport" where
  "demo_transport = snd (zenbedded_transport_init tier1_cfg quiet_zenoh 0 ''n'' ''client'' None transport_static)"

lemma demo_reachable: "transport_reachable tier1_cfg quiet_zenoh demo_transport"
  unfolding demo_transport_def by (rule reach_step [OF reach_static step_init])

lemma demo_initialized: "tr_initialized demo_transport" "tr_pubs demo_transport = tr_pubs (transport_static :: (nat, nat) transport)"
    "tr_subs demo_transport = tr_subs (transport_static :: (nat, nat) transport)"
  by (simp_all add: demo_transport_def zenbedded_transport_init_def Let_def zcall_conv quiet_zenoh_def
      transport_static_def configure_locator_def split: tier.splits)

lemma demo_unused: "used_pubs demo_transport = {}" "used_subs demo_transport = {}"
  by (simp_all add: used_pubs_def used_subs_def demo_initialized used_slots_def transport_static_def)

theorem transport_uses_session_in_order_witness:
  "session_of demo_transport = Some (session_with tier1_cfg {} {})"
  using transport_uses_session_in_order [OF demo_reachable] by (simp add: demo_initialized demo_unused)

theorem transport_destroy_leaves_nothing_witness:
  "session_of (zenbedded_transport_destroy tier1_cfg quiet_zenoh demo_transport) = Some z_closed"
  using transport_destroy_leaves_nothing [OF demo_reachable, of 3] by (simp add: MAX_PUBLISHERS_def)

lemma demo_declares:
  "\<exists>t. zenbedded_transport_declare_publisher tier1_cfg quiet_zenoh ''/x'' (Some ''m'') demo_transport = Some (Some 0, t)"
  by (simp add: zenbedded_transport_declare_publisher_def demo_initialized transport_static_def MAX_PUBLISHERS_def
      tier1_cfg_def topic_keyexpr_def zcall_conv quiet_zenoh_def numeral_eq_Suc)

theorem declare_publisher_handles_witness:
  "\<exists>t. zenbedded_transport_declare_publisher tier1_cfg quiet_zenoh ''/x'' (Some ''m'') demo_transport = Some (Some 0, t) \<and>
     used_pubs t = {0}"
proof -
  obtain t where t: "zenbedded_transport_declare_publisher tier1_cfg quiet_zenoh ''/x'' (Some ''m'') demo_transport = Some (Some 0, t)"
    using demo_declares by blast
  show ?thesis using declare_publisher_handles [OF demo_reachable t] t by (simp add: demo_unused)
qed

theorem publish_numbers_messages_witness:
  "\<exists>t1 t2. zenbedded_transport_declare_publisher tier1_cfg quiet_zenoh ''/x'' (Some ''m'') demo_transport = Some (Some 0, t1) \<and>
     publish_all tier1_cfg quiet_zenoh 0 [[1], [2, 3]] t1 = Some t2 \<and>
     map put_sequence (drop (length (tr_log t1)) (tr_log t2)) = [Some ([1], 1), Some ([2, 3], 2)]"
proof -
  obtain t1 where t: "zenbedded_transport_declare_publisher tier1_cfg quiet_zenoh ''/x'' (Some ''m'') demo_transport = Some (Some 0, t1)"
    using demo_declares by blast
  have "cfg_tier tier1_cfg = Tier1" by (simp add: tier1_cfg_def)
  from publish_numbers_messages [OF this t, of "[[1], [2, 3]]"]
  show ?thesis using t by (auto simp: quiet_zenoh_def clock_ok_def stamp_fits_def)
qed

theorem topic_keyexpr_separates_witness:
  "topic_keyexpr tier1_cfg 7 ''/a/b'' (Some ''m'') \<noteq> topic_keyexpr tier1_cfg 71 ''/a/b'' (Some ''m'')"
  using topic_keyexpr_separates [of tier1_cfg 7 "''/a/b''" "''m''" 71 "''/a/b''" "''m''"]
  by (auto simp: tier1_cfg_def)

end
