(* ===== verification/Cdr_Spec.thy ===== *)
theory Cdr_Spec
  imports Prelude "HOL-Library.Sublist"
begin

text \<open>
  The wire format, as a specification independent of the C code: a CDR stream in little-endian
  encapsulation as a list of bytes in which \<open>None\<close> is a byte whose value is not specified
  (alignment padding, or a field not written yet), the writers for the primitive types, and a
  reader that parses a received payload. \<open>overlay\<close> lays a stream over the old contents of a
  buffer. The theory \<open>Serialization\<close> proves that the C code computes exactly these streams.
\<close>

type_synonym cdr_stream = "byte option list"

section \<open>Writers\<close>

definition cdr_pad :: "nat \<Rightarrow> nat \<Rightarrow> nat" where
  \<comment> \<open>padding before a value of alignment \<open>a\<close>; alignment counts from the end of the header\<close>
  "cdr_pad a n = (a - (n - 4) mod a) mod a"

definition cdr_align :: "nat \<Rightarrow> cdr_stream \<Rightarrow> cdr_stream" where
  "cdr_align a s = s @ replicate (cdr_pad a (length s)) None"

definition cdr_bytes :: "byte list \<Rightarrow> cdr_stream \<Rightarrow> cdr_stream" where
  "cdr_bytes bs s = s @ map Some bs"

definition cdr_header :: cdr_stream where
  "cdr_header = map Some [0x00, 0x01, 0x00, 0x00]"

definition cdr_uint32 :: "u32 \<Rightarrow> cdr_stream \<Rightarrow> cdr_stream" where
  "cdr_uint32 w s = cdr_bytes (le32 w) (cdr_align 4 s)"

definition cdr_string :: "string \<Rightarrow> cdr_stream \<Rightarrow> cdr_stream" where
  "cdr_string str s =
     cdr_bytes (map byte_of_char str @ [0]) (cdr_uint32 (word_of_nat (length str + 1)) s)"

definition cdr_strings :: "string list \<Rightarrow> cdr_stream \<Rightarrow> cdr_stream" where
  "cdr_strings strs s = fold cdr_string strs (cdr_uint32 (word_of_nat (length strs)) s)"

text \<open>
  A sequence of doubles whose contents may be left open (\<open>None\<close>): the elements are aligned to
  8, so an empty sequence has no padding after its length.
\<close>

definition cdr_hole :: "nat \<Rightarrow> byte list option \<Rightarrow> cdr_stream" where
  "cdr_hole k c = (case c of None \<Rightarrow> replicate k None | Some bs \<Rightarrow> map Some bs)"

definition cdr_doubles :: "nat \<Rightarrow> u64 list option \<Rightarrow> cdr_stream \<Rightarrow> cdr_stream" where
  "cdr_doubles n xs s =
     (let s1 = cdr_uint32 (word_of_nat n) s
      in if n = 0 then s1 else cdr_align 8 s1 @ cdr_hole (8 * n) (map_option le64s xs))"

definition cdr_stamp :: "(i32 \<times> u32) option \<Rightarrow> cdr_stream \<Rightarrow> cdr_stream" where
  "cdr_stamp t s = s @ cdr_hole 8 (map_option (\<lambda>(sec, nsec). le32 sec @ le32 nsec) t)"

lemma length_cdr_hole:
  "(\<And>bs. c = Some bs \<Longrightarrow> length bs = k) \<Longrightarrow> length (cdr_hole k c) = k"
  by (cases c) (auto simp: cdr_hole_def)

lemma length_cdr_hole_None [simp]: "length (cdr_hole k None) = k"
  by (simp add: cdr_hole_def)

lemma cdr_pad_4 [simp]: "cdr_pad 4 12 = 0" "cdr_pad 4 4 = 0"
  by (simp_all add: cdr_pad_def)

lemma cdr_pad_less: "0 < a \<Longrightarrow> cdr_pad a n < a"
  by (simp add: cdr_pad_def)

lemma length_cdr_align [simp]: "length (cdr_align a s) = length s + cdr_pad a (length s)"
  by (simp add: cdr_align_def)

lemma length_cdr_bytes [simp]: "length (cdr_bytes bs s) = length s + length bs"
  by (simp add: cdr_bytes_def)

lemma length_cdr_uint32: "length (cdr_uint32 w s) = length s + cdr_pad 4 (length s) + 4"
  by (simp add: cdr_uint32_def)

text \<open>Every writer appends.\<close>

lemma prefix_cdr_align [simp]: "prefix s (cdr_align a s)"
  by (simp add: cdr_align_def)

lemma prefix_cdr_bytes [simp]: "prefix s (cdr_bytes bs s)"
  by (simp add: cdr_bytes_def)

lemma prefix_cdr_uint32 [simp]: "prefix s (cdr_uint32 w s)"
  unfolding cdr_uint32_def by (meson prefix_cdr_align prefix_cdr_bytes prefix_order.trans)

lemma prefix_cdr_string [simp]: "prefix s (cdr_string str s)"
  unfolding cdr_string_def by (meson prefix_cdr_uint32 prefix_cdr_bytes prefix_order.trans)

lemma prefix_fold_cdr_string [simp]: "prefix s (fold cdr_string strs s)"
proof (induction strs arbitrary: s)
  case (Cons x xs)
  then show ?case by (simp) (meson Cons.IH prefix_cdr_string prefix_order.trans)
qed simp

lemma prefix_cdr_strings [simp]: "prefix s (cdr_strings strs s)"
  unfolding cdr_strings_def by (meson prefix_cdr_uint32 prefix_fold_cdr_string prefix_order.trans)

lemma prefix_cdr_doubles [simp]: "prefix s (cdr_doubles n xs s)"
proof -
  have "prefix s (cdr_align 8 (cdr_uint32 w s) @ t)" for w t
    by (meson prefix_cdr_uint32 prefix_cdr_align prefix_prefix prefix_order.trans)
  then show ?thesis by (simp add: cdr_doubles_def Let_def)
qed

lemma prefix_cdr_stamp [simp]: "prefix s (cdr_stamp t s)"
  by (simp add: cdr_stamp_def)

section \<open>The two messages\<close>

text \<open>
  \<open>sensor_msgs/JointState\<close> and \<open>control_msgs/JointCommand\<close> as the code sends them: the sequences
  all have one element per joint. A field given as \<open>None\<close> is a hole of the right size.
\<close>

definition cdr_joint_state ::
    "(i32 \<times> u32) option \<Rightarrow> string \<Rightarrow> string list \<Rightarrow> u64 list option \<Rightarrow> u64 list option
       \<Rightarrow> u64 list option \<Rightarrow> cdr_stream" where
  "cdr_joint_state stamp frame names pos vel eff =
     (let n = length names
      in cdr_doubles n eff (cdr_doubles n vel (cdr_doubles n pos
           (cdr_strings names (cdr_string frame (cdr_stamp stamp cdr_header))))))"

definition cdr_joint_command ::
    "(i32 \<times> u32) option \<Rightarrow> string \<Rightarrow> string list \<Rightarrow> string \<Rightarrow> u64 list option \<Rightarrow> cdr_stream" where
  "cdr_joint_command stamp frame names interface vals =
     (let n = length names
      in cdr_doubles n vals (cdr_string interface
           (cdr_strings names (cdr_string frame (cdr_stamp stamp cdr_header)))))"

section \<open>A stream laid over a buffer\<close>

fun overlay :: "cdr_stream \<Rightarrow> byte list \<Rightarrow> byte list" where
  "overlay [] buf = buf"
| "overlay (x # s) [] = []"
| "overlay (x # s) (y # buf) = (case x of None \<Rightarrow> y | Some b \<Rightarrow> b) # overlay s buf"

lemma length_overlay [simp]: "length (overlay s buf) = length buf"
  by (induction s buf rule: overlay.induct) auto

lemma nth_overlay:
  "i < length buf \<Longrightarrow>
   overlay s buf ! i = (if i < length s then (case s ! i of None \<Rightarrow> buf ! i | Some b \<Rightarrow> b) else buf ! i)"
proof (induction s buf arbitrary: i rule: overlay.induct)
  case (3 x s y buf)
  then show ?case by (cases i) (auto split: option.split)
qed auto

lemma overlay_Nil [simp]: "overlay s [] = []"
  by (cases s) auto

lemma overlay_append:
  "overlay (s @ t) buf = take (length s) (overlay s buf) @ overlay t (drop (length s) buf)"
  by (induction s buf rule: overlay.induct) auto

lemma overlay_drop: "drop (length s) (overlay s buf) = drop (length s) buf"
  by (induction s buf rule: overlay.induct) auto

lemma overlay_holes [simp]: "overlay (replicate k None) buf = buf"
  by (induction k arbitrary: buf) (auto, metis overlay.simps(2,3) neq_Nil_conv option.case(1))

lemma overlay_map_Some: "length bs \<le> length buf \<Longrightarrow> overlay (map Some bs) buf = bs @ drop (length bs) buf"
proof (induction bs arbitrary: buf)
  case (Cons b bs)
  then show ?case by (cases buf) auto
qed simp

lemma overlay_append_holes [simp]: "overlay (s @ replicate k None) buf = overlay s buf"
  by (simp add: overlay_append) (metis append_take_drop_id overlay_drop)

lemma overlay_cdr_align [simp]: "overlay (cdr_align a s) buf = overlay s buf"
  by (simp add: cdr_align_def)

text \<open>Writing bytes at the end of the stream appends them; writing them into a hole fills it.\<close>

lemma mem_write_overlay_end:
  "length s + length bs \<le> length buf \<Longrightarrow>
   mem_write (overlay s buf) (length s) bs = Some (overlay (cdr_bytes bs s) buf)"
  by (simp add: mem_write_def cdr_bytes_def overlay_append overlay_map_Some)
     (metis drop_drop overlay_drop add.commute)

lemma mem_write_overlay_replace:
  assumes "length s + length bs + length t \<le> length buf" and "length bs = length mid"
  shows "mem_write (overlay (s @ mid @ t) buf) (length s) bs =
         Some (overlay (s @ map Some bs @ t) buf)"
proof -
  have "drop (length s + length mid) (overlay (s @ mid @ t) buf)
          = overlay t (drop (length s + length mid) buf)"
    using assms by (simp add: overlay_append add.commute)
  moreover have "take (length s) (overlay (s @ u) buf) = take (length s) (overlay s buf)" for u
    using overlay_append [of s u buf] by (auto simp: min_def)
  ultimately show ?thesis
    using assms by (auto simp: mem_write_def overlay_append overlay_map_Some min_def add.commute)
qed

text \<open>
  A writer only looks at the length of the stream it extends, so replacing an earlier field by one
  of the same size leaves everything after it as it was.
\<close>

definition appender :: "(cdr_stream \<Rightarrow> cdr_stream) \<Rightarrow> bool" where
  "appender f \<longleftrightarrow> (\<exists>g. \<forall>s. f s = s @ g (length s))"

lemma appenderE:
  assumes "appender f"
  obtains g where "\<And>s. f s = s @ g (length s)"
  using assms by (auto simp: appender_def)

lemma appender_compose [intro]:
  assumes "appender f" and "appender g"
  shows "appender (\<lambda>s. g (f s))"
proof -
  obtain f' g' where "\<And>s. f s = s @ f' (length s)" and "\<And>s. g s = s @ g' (length s)"
    using assms by (auto elim!: appenderE)
  then have "\<forall>s. g (f s) = s @ (f' (length s) @ g' (length s + length (f' (length s))))" by simp
  then show ?thesis unfolding appender_def by (intro exI) assumption
qed

lemma appender_id [intro]: "appender (\<lambda>s. s)"
  unfolding appender_def by (rule exI [of _ "\<lambda>_. []"]) simp

lemma appender_cdr_align [intro]: "appender (cdr_align a)"
  unfolding appender_def cdr_align_def
  by (rule exI [of _ "\<lambda>n. replicate (cdr_pad a n) None"]) simp

lemma appender_cdr_bytes [intro]: "appender (cdr_bytes bs)"
  unfolding appender_def cdr_bytes_def
  by (rule exI [of _ "\<lambda>_. map Some bs"]) simp

lemma appender_cdr_uint32 [intro]: "appender (cdr_uint32 w)"
  using appender_compose [OF appender_cdr_align appender_cdr_bytes] by (simp add: cdr_uint32_def [abs_def])

lemma appender_cdr_string [intro]: "appender (cdr_string str)"
  using appender_compose [OF appender_cdr_uint32 appender_cdr_bytes] by (simp add: cdr_string_def [abs_def])

lemma appender_fold_cdr_string [intro]: "appender (fold cdr_string strs)"
proof (induction strs)
  case Nil
  show ?case by (simp add: id_def appender_id)
next
  case (Cons x xs)
  show ?case using appender_compose [OF appender_cdr_string [of x] Cons] by (simp add: comp_def)
qed

lemma appender_cdr_strings [intro]: "appender (cdr_strings strs)"
  using appender_compose [OF appender_cdr_uint32 appender_fold_cdr_string] by (simp add: cdr_strings_def [abs_def])

section \<open>Payloads that carry a stream\<close>

definition carries :: "byte list \<Rightarrow> cdr_stream \<Rightarrow> bool" where
  "carries buf s \<longleftrightarrow>
     length s \<le> length buf \<and> (\<forall>i < length s. s ! i = None \<or> s ! i = Some (buf ! i))"

lemma carries_overlay: "length s \<le> length buf \<Longrightarrow> carries (overlay s buf) s"
  by (auto simp: carries_def nth_overlay split: option.splits)

lemma carries_prefix: "carries buf t \<Longrightarrow> prefix s t \<Longrightarrow> carries buf s"
  unfolding carries_def prefix_def
  by (metis (no_types, lifting) add_leE length_append nth_append order_less_le_trans le_add1)

lemma carries_take: "carries buf s \<Longrightarrow> length s \<le> n \<Longrightarrow> carries (take n buf) s"
  by (auto simp: carries_def)

lemma carries_read:
  assumes "carries buf (s @ map Some bs @ t)"
  shows "mem_read buf (length s) (length bs) = Some bs"
proof (rule mem_read_nth_eqI)
  show "length s + length bs \<le> length buf" using assms by (simp add: carries_def)
next
  fix i assume "i < length bs"
  then have "(s @ map Some bs @ t) ! (length s + i) = Some (bs ! i)"
    by (simp add: nth_append)
  moreover have "length s + i < length (s @ map Some bs @ t)" using \<open>i < length bs\<close> by simp
  ultimately show "buf ! (length s + i) = bs ! i"
    using assms unfolding carries_def by (metis option.distinct(1) option.inject)
qed

lemma carries_read_bytes:
  "carries buf (cdr_bytes bs s) \<Longrightarrow> mem_read buf (length s) (length bs) = Some bs"
  using carries_read [of buf s bs "[]"] by (simp add: cdr_bytes_def)

end
