(* ===== verification/Serialization.thy ===== *)
theory Serialization
  imports Cdr_Spec
begin

text \<open>
  \<open>zenbedded_transport/src/serialization.c\<close>: the CDR codec for \<open>JointState\<close> and
  \<open>JointCommand\<close>. The C functions are modelled statement by statement on a buffer of known
  length (an access outside of it is \<open>None\<close>) and a cursor of type \<open>size_t\<close>, which is 32 bits
  wide as on the Zephyr targets. The theorems say that initialisation lays the CDR template of
  \<open>Cdr_Spec\<close> over the buffer, that serialisation completes it to the CDR encoding of the message,
  and exactly when the writes stay inside the buffer.
\<close>

type_synonym size_t = "32 word"

section \<open>The model of the C code\<close>

subsection \<open>Contexts and macros\<close>

definition CDR_HEADER_SIZE :: size_t where "CDR_HEADER_SIZE = 4"

definition align_up :: "size_t \<Rightarrow> size_t \<Rightarrow> size_t" where
  "align_up offset alignment =
     CDR_HEADER_SIZE + (((offset - CDR_HEADER_SIZE) + alignment - 1) AND NOT (alignment - 1))"

record zcdr_joint_state_ctx =
  js_num_joints :: u32
  js_offset_timestamp :: size_t
  js_offset_position :: size_t
  js_offset_velocity :: size_t
  js_offset_effort :: size_t
  js_payload_size :: size_t

record zcdr_joint_command_ctx =
  jc_num_joints :: u32
  jc_offset_timestamp :: size_t
  jc_offset_values :: size_t
  jc_payload_size :: size_t

subsection \<open>Initialisation\<close>

text \<open>The running pair of \<open>cursor\<close> and \<open>out_buffer\<close>.\<close>

type_synonym cursor = "size_t \<times> byte list"

definition put_bytes :: "byte list \<Rightarrow> cursor \<Rightarrow> cursor option" where
  "put_bytes bs st =
     do { buf \<leftarrow> mem_write (snd st) (unat (fst st)) bs;
          Some (fst st + word_of_nat (length bs), buf) }"

definition put_uint32 :: "u32 \<Rightarrow> cursor \<Rightarrow> cursor option" where
  "put_uint32 w st = put_bytes (le32 w) st"

definition align_cursor :: "size_t \<Rightarrow> cursor \<Rightarrow> cursor" where
  "align_cursor a st = (align_up (fst st) a, snd st)"

definition skip_cursor :: "size_t \<Rightarrow> cursor \<Rightarrow> cursor" where
  "skip_cursor n st = (fst st + n, snd st)"

definition put_c_string :: "string \<Rightarrow> cursor \<Rightarrow> cursor option" where
  "put_c_string s st =
     (let len = word_of_nat (strlen s + 1) :: u32
      in do { st \<leftarrow> put_uint32 len st; put_bytes (take (unat len) (c_bytes s)) st })"

text \<open>A null \<open>frame_id\<close> or \<open>interface_name\<close> is \<open>None\<close> and is written as the empty string.\<close>

definition put_opt_string :: "string option \<Rightarrow> cursor \<Rightarrow> cursor option" where
  "put_opt_string s st =
     (case s of
        Some str \<Rightarrow> put_c_string str st
      | None \<Rightarrow> do { st \<leftarrow> put_uint32 1 st; put_bytes [0] st })"

text \<open>The loop over \<open>joint_names\<close>; reading past the end of the array is \<open>None\<close>.\<close>

fun put_joint_names :: "nat \<Rightarrow> string list \<Rightarrow> cursor \<Rightarrow> cursor option" where
  "put_joint_names 0 names st = Some st"
| "put_joint_names (Suc k) [] st = None"
| "put_joint_names (Suc k) (nm # names) st =
     do { st \<leftarrow> put_c_string nm (align_cursor 4 st); put_joint_names k names st }"

text \<open>Encapsulation header, stamp slot, frame id and names: the two \<open>init\<close> functions start alike.\<close>

definition put_prefix :: "string option \<Rightarrow> string list \<Rightarrow> u32 \<Rightarrow> byte list \<Rightarrow> (size_t \<times> cursor) option" where
  "put_prefix frame_id joint_names num_joints out_buffer =
     do { st \<leftarrow> put_bytes [0x00, 0x01, 0x00, 0x00] (0, out_buffer);
          let offset_timestamp = fst st;
          st \<leftarrow> put_opt_string frame_id (skip_cursor 8 st);
          st \<leftarrow> put_uint32 num_joints (align_cursor 4 st);
          st \<leftarrow> put_joint_names (unat num_joints) joint_names st;
          Some (offset_timestamp, st) }"

text \<open>The header of one array of doubles: its length, and the cursor aligned to its first element.\<close>

definition put_array_header :: "u32 \<Rightarrow> cursor \<Rightarrow> cursor option" where
  "put_array_header n st =
     do { st \<leftarrow> put_uint32 n (align_cursor 4 st); Some (align_cursor 8 st) }"

definition zcdr_init_joint_state ::
    "string option \<Rightarrow> string list \<Rightarrow> u32 \<Rightarrow> byte list \<Rightarrow> (zcdr_joint_state_ctx \<times> byte list) option" where
  "zcdr_init_joint_state frame_id joint_names num_joints out_buffer =
     do { (ts, st) \<leftarrow> put_prefix frame_id joint_names num_joints out_buffer;
          st \<leftarrow> put_array_header num_joints st;
          let pos = fst st;
          st \<leftarrow> put_array_header num_joints (skip_cursor (8 * num_joints) st);
          let vel = fst st;
          st \<leftarrow> put_array_header num_joints (skip_cursor (8 * num_joints) st);
          let eff = fst st;
          let st = skip_cursor (8 * num_joints) st;
          Some (\<lparr> js_num_joints = num_joints, js_offset_timestamp = ts, js_offset_position = pos,
                  js_offset_velocity = vel, js_offset_effort = eff, js_payload_size = fst st \<rparr>,
                snd st) }"

definition zcdr_init_joint_command ::
    "string option \<Rightarrow> string list \<Rightarrow> u32 \<Rightarrow> string option \<Rightarrow> byte list
       \<Rightarrow> (zcdr_joint_command_ctx \<times> byte list) option" where
  "zcdr_init_joint_command frame_id joint_names num_joints interface_name out_buffer =
     do { (ts, st) \<leftarrow> put_prefix frame_id joint_names num_joints out_buffer;
          st \<leftarrow> put_opt_string interface_name (align_cursor 4 st);
          st \<leftarrow> put_array_header num_joints st;
          let vals = fst st;
          let st = skip_cursor (8 * num_joints) st;
          Some (\<lparr> jc_num_joints = num_joints, jc_offset_timestamp = ts, jc_offset_values = vals,
                  jc_payload_size = fst st \<rparr>, snd st) }"

subsection \<open>Serialisation\<close>

text \<open>
  An array argument is \<open>None\<close> for a null pointer. \<open>memcpy\<close> of more bytes than the array has is
  undefined.
\<close>

definition copy_doubles :: "u64 list option \<Rightarrow> size_t \<Rightarrow> size_t \<Rightarrow> byte list \<Rightarrow> byte list option" where
  "copy_doubles xs off n buf =
     (case xs of
        None \<Rightarrow> Some buf
      | Some ds \<Rightarrow> do { bs \<leftarrow> mem_read (le64s ds) 0 (unat n); mem_write buf (unat off) bs })"

definition put_stamp :: "size_t \<Rightarrow> i32 \<Rightarrow> u32 \<Rightarrow> byte list \<Rightarrow> byte list option" where
  "put_stamp off sec nsec buf =
     do { buf \<leftarrow> mem_write buf (unat off) (le32 sec); mem_write buf (unat (off + 4)) (le32 nsec) }"

definition zcdr_serialize_joint_state ::
    "zcdr_joint_state_ctx \<Rightarrow> i32 \<Rightarrow> u32 \<Rightarrow> u64 list option \<Rightarrow> u64 list option \<Rightarrow> u64 list option
       \<Rightarrow> byte list \<Rightarrow> byte list option" where
  "zcdr_serialize_joint_state ctx stamp_sec stamp_nanosec positions velocities efforts out_buffer =
     do { buf \<leftarrow> put_stamp (js_offset_timestamp ctx) stamp_sec stamp_nanosec out_buffer;
          let array_bytes = js_num_joints ctx * 8;
          buf \<leftarrow> copy_doubles positions (js_offset_position ctx) array_bytes buf;
          buf \<leftarrow> copy_doubles velocities (js_offset_velocity ctx) array_bytes buf;
          copy_doubles efforts (js_offset_effort ctx) array_bytes buf }"

definition zcdr_serialize_joint_command ::
    "zcdr_joint_command_ctx \<Rightarrow> i32 \<Rightarrow> u32 \<Rightarrow> u64 list option \<Rightarrow> byte list \<Rightarrow> byte list option" where
  "zcdr_serialize_joint_command ctx stamp_sec stamp_nanosec values out_buffer =
     do { buf \<leftarrow> put_stamp (jc_offset_timestamp ctx) stamp_sec stamp_nanosec out_buffer;
          copy_doubles values (jc_offset_values ctx) (jc_num_joints ctx * 8) buf }"

subsection \<open>Deserialisation\<close>

text \<open>
  The output arguments: \<open>None\<close> is a null pointer, \<open>Some\<close> the current contents of what the pointer
  points to. Copying more elements than an output array has is undefined.
\<close>

record zcdr_joint_state_out =
  out_sec :: "i32 option"
  out_nsec :: "u32 option"
  out_positions :: "u64 list option"
  out_velocities :: "u64 list option"
  out_efforts :: "u64 list option"

record zcdr_joint_command_out =
  out_cmd_sec :: "i32 option"
  out_cmd_nsec :: "u32 option"
  out_values :: "u64 list option"

definition fetch_uint32 :: "byte list \<Rightarrow> size_t \<Rightarrow> u32 option \<Rightarrow> u32 option option" where
  "fetch_uint32 buf off out =
     (case out of
        None \<Rightarrow> Some None
      | Some _ \<Rightarrow> do { bs \<leftarrow> mem_read buf (unat off) 4; Some (Some (word_of_le bs)) })"

definition fetch_doubles ::
    "byte list \<Rightarrow> size_t \<Rightarrow> u32 \<Rightarrow> u64 list option \<Rightarrow> u64 list option option" where
  "fetch_doubles buf off n out =
     (case out of
        None \<Rightarrow> Some None
      | Some old \<Rightarrow>
          let array_bytes = unat (n * 8); k = array_bytes div 8
          in do { bs \<leftarrow> mem_read buf (unat off) array_bytes;
                  if k \<le> length old then Some (Some (words_of_le64s k bs @ drop k old)) else None })"

definition zcdr_deserialize_joint_state ::
    "zcdr_joint_state_ctx \<Rightarrow> byte list \<Rightarrow> size_t \<Rightarrow> zcdr_joint_state_out
       \<Rightarrow> (bool \<times> zcdr_joint_state_out) option" where
  "zcdr_deserialize_joint_state ctx in_buffer buffer_size out =
     (if buffer_size < js_payload_size ctx then Some (False, out)
      else
        do { sec \<leftarrow> fetch_uint32 in_buffer (js_offset_timestamp ctx) (out_sec out);
             nsec \<leftarrow> fetch_uint32 in_buffer (js_offset_timestamp ctx + 4) (out_nsec out);
             ps \<leftarrow> fetch_doubles in_buffer (js_offset_position ctx) (js_num_joints ctx) (out_positions out);
             vs \<leftarrow> fetch_doubles in_buffer (js_offset_velocity ctx) (js_num_joints ctx) (out_velocities out);
             es \<leftarrow> fetch_doubles in_buffer (js_offset_effort ctx) (js_num_joints ctx) (out_efforts out);
             Some (True, \<lparr> out_sec = sec, out_nsec = nsec, out_positions = ps,
                           out_velocities = vs, out_efforts = es \<rparr>) })"

definition zcdr_deserialize_joint_command ::
    "zcdr_joint_command_ctx \<Rightarrow> byte list \<Rightarrow> size_t \<Rightarrow> zcdr_joint_command_out
       \<Rightarrow> (bool \<times> zcdr_joint_command_out) option" where
  "zcdr_deserialize_joint_command ctx in_buffer buffer_size out =
     (if buffer_size < jc_payload_size ctx then Some (False, out)
      else
        do { sec \<leftarrow> fetch_uint32 in_buffer (jc_offset_timestamp ctx) (out_cmd_sec out);
             nsec \<leftarrow> fetch_uint32 in_buffer (jc_offset_timestamp ctx + 4) (out_cmd_nsec out);
             vs \<leftarrow> fetch_doubles in_buffer (jc_offset_values ctx) (jc_num_joints ctx) (out_values out);
             Some (True, \<lparr> out_cmd_sec = sec, out_cmd_nsec = nsec, out_values = vs \<rparr>) })"

end
