(* ===== verification/Serialization_Proofs.thy ===== *)
theory Serialization_Proofs
  imports Serialization
begin

text \<open>
  The lemmas behind the serialisation theorems. The running state of an \<open>init\<close> function is
  described by one stream: \<open>cur s buf\<close> is the cursor at the end of \<open>s\<close> over the buffer \<open>buf\<close>
  overlaid with \<open>s\<close>. Each C operation maps \<open>cur s buf\<close> to \<open>cur s' buf\<close> for the writer \<open>s'\<close> of
  \<open>Cdr_Spec\<close>, or is undefined when \<open>s'\<close> does not fit.
\<close>

section \<open>Arithmetic of cursors\<close>

lemma unat_of_nat_32: "n < 2 ^ 32 \<Longrightarrow> unat (word_of_nat n :: 32 word) = n"
  by (simp add: unat_of_nat take_bit_nat_eq_self)

lemma and_not_mask: "x AND NOT (mask n) = x - take_bit n x" for x :: "'a::len word"
proof -
  have "x AND NOT (mask n) = push_bit n (drop_bit n x)"
    by (rule bit_word_eqI) (auto simp: bit_simps)
  then show ?thesis by (metis add_diff_cancel_right' bits_ident)
qed

lemma unat_take_bit: "unat (take_bit n x) = unat x mod 2 ^ n" for x :: "'a::len word"
  by (metis take_bit_eq_mod unsigned_take_bit_eq)

lemma round_down_of_nat:
  assumes "m < 2 ^ 32"
  shows "(word_of_nat m :: 32 word) AND NOT (mask k) = word_of_nat (m - m mod 2 ^ k)"
proof -
  have "word_of_nat (unat (take_bit k (word_of_nat m :: 32 word))) = (word_of_nat (m mod 2 ^ k) :: 32 word)"
    unfolding unat_take_bit unat_of_nat_32 [OF assms] ..
  then have "take_bit k (word_of_nat m :: 32 word) = word_of_nat (m mod 2 ^ k)" by simp
  then show ?thesis by (simp add: and_not_mask of_nat_diff)
qed

lemma align_round_up:
  assumes "0 < a"
  shows "k + (a - 1) - (k + (a - 1)) mod a = k + (a - k mod a) mod (a :: nat)"
proof (cases "k mod a = 0")
  case True
  then obtain q where "k = a * q" by auto
  then have "(k + (a - 1)) mod a = (a - 1) mod a" by (simp only: mod_mult_self4)
  with assms have "(k + (a - 1)) mod a = a - 1" by simp
  with True show ?thesis by simp
next
  case False
  define r where "r = k mod a"
  have r: "0 < r" "r < a" using False assms by (auto simp: r_def)
  have k: "k = a * (k div a) + r" by (simp add: r_def)
  have "k + (a - 1) = (r - 1) + a * (k div a + 1)" using k r by (simp add: algebra_simps)
  then have "(k + (a - 1)) mod a = (r - 1) mod a" by (metis mod_mult_self2)
  then have "(k + (a - 1)) mod a = r - 1" using r by simp
  moreover have "(a - r) mod a = a - r" using r by simp
  ultimately show ?thesis using r by (simp add: r_def [symmetric])
qed

lemma align_up_of_nat:
  assumes "4 \<le> m" and "m + a < 2 ^ 32 + 4" and "a = 2 ^ k"
  shows "align_up (word_of_nat m) (word_of_nat a) = word_of_nat (m + cdr_pad a m)"
proof -
  let ?j = "m - 4"
  have m: "(word_of_nat m :: 32 word) = 4 + word_of_nat ?j"
    using assms(1) by (metis le_add_diff_inverse of_nat_add of_nat_numeral)
  have a: "(word_of_nat a :: 32 word) = 1 + word_of_nat (a - 1)"
    using assms(3) by (metis add_diff_inverse_nat less_one of_nat_1 of_nat_add power_not_zero zero_neq_numeral)
  have k: "(word_of_nat (a - 1) :: 32 word) = mask k"
    using a assms(3) by (simp add: mask_eq_exp_minus_1)
  have e: "(word_of_nat m :: 32 word) - 4 + word_of_nat a - 1 = word_of_nat (?j + (a - 1))"
    unfolding m a of_nat_add by simp
  have mk: "(word_of_nat a :: 32 word) - 1 = mask k" unfolding a k by simp
  have "?j + (a - 1) < 2 ^ 32" using assms by simp
  then have "(word_of_nat (?j + (a - 1)) :: 32 word) AND NOT (mask k) =
      word_of_nat (?j + (a - 1) - (?j + (a - 1)) mod a)"
    unfolding assms(3) by (rule round_down_of_nat)
  then have "align_up (word_of_nat m) (word_of_nat a) =
      4 + word_of_nat (?j + (a - 1) - (?j + (a - 1)) mod a)"
    unfolding align_up_def CDR_HEADER_SIZE_def e mk by (rule arg_cong)
  also have "\<dots> = word_of_nat (4 + (?j + (a - ?j mod a) mod a))"
    using align_round_up [of a ?j] assms(3) by simp
  also have "4 + (?j + (a - ?j mod a) mod a) = m + cdr_pad a m"
    using assms(1) by (simp add: cdr_pad_def)
  finally show ?thesis .
qed

lemma align_up_4:
  assumes "4 \<le> m" and "m < 2 ^ 32"
  shows "align_up (word_of_nat m) 4 = word_of_nat (m + cdr_pad 4 m)"
proof -
  have "m + 4 < 2 ^ 32 + 4" and "(4 :: nat) = 2 ^ 2" using assms(2) by simp_all
  from align_up_of_nat [OF assms(1) this] show ?thesis unfolding of_nat_numeral .
qed

lemma align_up_8:
  assumes "4 \<le> m" and "m + 4 < 2 ^ 32"
  shows "align_up (word_of_nat m) 8 = word_of_nat (m + cdr_pad 8 m)"
proof -
  have "m + 8 < 2 ^ 32 + 4" and "(8 :: nat) = 2 ^ 3" using assms(2) by simp_all
  from align_up_of_nat [OF assms(1) this] show ?thesis unfolding of_nat_numeral .
qed

section \<open>The initialisation steps\<close>

definition cur :: "cdr_stream \<Rightarrow> byte list \<Rightarrow> cursor" where
  "cur s buf = (word_of_nat (length s), overlay s buf)"

lemma put_bytes_cur:
  assumes "length s < 2 ^ 32"
  shows "put_bytes bs (cur s buf) =
    (if length s + length bs \<le> length buf then Some (cur (cdr_bytes bs s) buf) else None)"
proof (cases "length s + length bs \<le> length buf")
  case True
  then show ?thesis
    using assms mem_write_overlay_end [OF True]
    by (simp add: put_bytes_def cur_def unat_of_nat_32 cdr_bytes_def [symmetric])
next
  case False
  then have "mem_write (overlay s buf) (length s) bs = None" by simp
  with False show ?thesis
    using assms by (simp add: put_bytes_def cur_def unat_of_nat_32 del: mem_write_None_iff)
qed

lemma align_cursor_4: "4 \<le> length s \<Longrightarrow> length s < 2 ^ 32 \<Longrightarrow> align_cursor 4 (cur s buf) = cur (cdr_align 4 s) buf"
  by (simp add: align_cursor_def cur_def align_up_4)

lemma align_cursor_8: "4 \<le> length s \<Longrightarrow> length s + 4 < 2 ^ 32 \<Longrightarrow> align_cursor 8 (cur s buf) = cur (cdr_align 8 s) buf"
  by (simp add: align_cursor_def cur_def align_up_8)

lemma skip_cursor_cur: "skip_cursor (word_of_nat k) (cur s buf) = cur (s @ cdr_hole k None) buf"
  by (simp add: skip_cursor_def cur_def cdr_hole_def)

lemma put_uint32_aligned:
  assumes "4 \<le> length s" and "length s < 2 ^ 32 - 4"
  shows "put_uint32 w (align_cursor 4 (cur s buf)) =
    (if length (cdr_uint32 w s) \<le> length buf then Some (cur (cdr_uint32 w s) buf) else None)"
proof -
  have "length (cdr_align 4 s) < 2 ^ 32" using assms cdr_pad_less [of 4 "length s"] by simp
  then show ?thesis
    using assms by (simp add: align_cursor_4 put_uint32_def put_bytes_cur cdr_uint32_def)
qed

lemma cdr_align_aligned: "cdr_pad a (length s) = 0 \<Longrightarrow> cdr_align a s = s"
  by (simp add: cdr_align_def)

lemma length_cdr_string:
  "length (cdr_string str s) = length s + cdr_pad 4 (length s) + 4 + length str + 1"
  by (simp add: cdr_string_def length_cdr_uint32)

lemma put_c_string_aligned:
  assumes "4 \<le> length s" and "length (cdr_string (c_chars str) s) < 2 ^ 32"
  shows "put_c_string str (align_cursor 4 (cur s buf)) =
    (if length (cdr_string (c_chars str) s) \<le> length buf
     then Some (cur (cdr_string (c_chars str) s) buf) else None)"
proof -
  let ?w = "word_of_nat (strlen str + 1) :: u32"
  let ?s = "cdr_uint32 ?w s"
  have len: "length s < 2 ^ 32 - 4" "strlen str + 1 < 2 ^ 32" "length ?s < 2 ^ 32"
    using assms(2) by (auto simp: length_cdr_string strlen_def length_cdr_uint32)
  have u: "unat ?w = strlen str + 1" using len(2) by (rule unat_of_nat_32)
  have bs: "take (unat ?w) (c_bytes str) = map byte_of_char (c_chars str) @ [0]"
    unfolding u by (simp add: c_bytes_def strlen_def)
  have 1: "put_uint32 ?w (align_cursor 4 (cur s buf)) =
      (if length ?s \<le> length buf then Some (cur ?s buf) else None)"
    using assms(1) len(1) by (rule put_uint32_aligned)
  have 2: "put_bytes (map byte_of_char (c_chars str) @ [0]) (cur ?s buf) =
      (if length (cdr_string (c_chars str) s) \<le> length buf
       then Some (cur (cdr_string (c_chars str) s) buf) else None)"
    using put_bytes_cur [OF len(3)]
    by (simp add: cdr_string_def strlen_def)
  have 3: "length ?s \<le> length (cdr_string (c_chars str) s)"
    by (simp add: cdr_string_def strlen_def)
  show ?thesis
    unfolding put_c_string_def Let_def bs 1 using 2 3 by auto
qed

lemma put_opt_string_aligned:
  assumes "4 \<le> length s" and "length (cdr_string (c_chars (case_option [] id str)) s) < 2 ^ 32"
  shows "put_opt_string str (align_cursor 4 (cur s buf)) =
    (if length (cdr_string (c_chars (case_option [] id str)) s) \<le> length buf
     then Some (cur (cdr_string (c_chars (case_option [] id str)) s) buf) else None)"
proof (cases str)
  case (Some x)
  then show ?thesis using put_c_string_aligned [OF assms(1), of x] assms(2)
    by (simp add: put_opt_string_def)
next
  case None
  then have "put_opt_string str (align_cursor 4 (cur s buf)) = put_c_string [] (align_cursor 4 (cur s buf))"
    by (simp add: put_opt_string_def put_c_string_def strlen_def c_chars_def c_bytes_def)
  then show ?thesis using put_c_string_aligned [OF assms(1), of "[]"] assms(2) None by simp
qed

lemma put_joint_names_cur:
  assumes "4 \<le> length s" and "length (fold cdr_string (map c_chars nms) s) < 2 ^ 32"
    and "length s \<le> length buf"
  shows "put_joint_names (length nms) (nms @ rest) (cur s buf) =
    (if length (fold cdr_string (map c_chars nms) s) \<le> length buf
     then Some (cur (fold cdr_string (map c_chars nms) s) buf) else None)"
  using assms
proof (induction nms arbitrary: s)
  case Nil
  then show ?case by simp
next
  case (Cons nm nms)
  let ?t = "cdr_string (c_chars nm) s"
  let ?f = "fold cdr_string (map c_chars nms) ?t"
  have le: "length ?t \<le> length ?f" by (intro prefix_length_le) simp
  have step: "put_c_string nm (align_cursor 4 (cur s buf)) =
      (if length ?t \<le> length buf then Some (cur ?t buf) else None)"
    using Cons.prems le by (intro put_c_string_aligned) auto
  show ?case
  proof (cases "length ?t \<le> length buf")
    case True
    have "4 \<le> length ?t" using Cons.prems(1) by (simp add: length_cdr_string)
    with Cons.IH [of ?t] Cons.prems(2) True show ?thesis by (simp add: step)
  next
    case False
    with le show ?thesis by (simp add: step)
  qed
qed

lemma put_array_header_cur:
  assumes "4 \<le> length s" and "length (cdr_align 8 (cdr_uint32 n s)) + 8 \<le> 2 ^ 32"
  shows "put_array_header n (cur s buf) =
    (if length (cdr_uint32 n s) \<le> length buf
     then Some (cur (cdr_align 8 (cdr_uint32 n s)) buf) else None)"
proof -
  have "length s < 2 ^ 32 - 4" and "length (cdr_uint32 n s) + 4 < 2 ^ 32"
    and "4 \<le> length (cdr_uint32 n s)"
    using assms by (auto simp: length_cdr_uint32)
  then show ?thesis
    using assms(1) by (simp add: put_array_header_def put_uint32_aligned align_cursor_8)
qed

section \<open>The whole initialisation\<close>

text \<open>What the C strings of the arguments denote: the frame id, and the names the loop reads.\<close>

definition opt_chars :: "string option \<Rightarrow> string" where
  "opt_chars s = c_chars (case_option [] id s)"

definition joint_chars :: "u32 \<Rightarrow> string list \<Rightarrow> string list" where
  "joint_chars n names = map c_chars (take (unat n) names)"

definition cdr_front :: "(i32 \<times> u32) option \<Rightarrow> string \<Rightarrow> string list \<Rightarrow> cdr_stream" where
  "cdr_front stamp frame names = cdr_strings names (cdr_string frame (cdr_stamp stamp cdr_header))"

definition cdr_array_start :: "nat \<Rightarrow> cdr_stream \<Rightarrow> cdr_stream" where
  "cdr_array_start n s = cdr_align 8 (cdr_uint32 (word_of_nat n) s)"

lemma cdr_doubles_start: "0 < n \<Longrightarrow> cdr_doubles n xs s = cdr_array_start n s @ cdr_hole (8 * n) (map_option le64s xs)"
  by (simp add: cdr_doubles_def cdr_array_start_def Let_def)

lemma length_joint_chars: "unat n \<le> length names \<Longrightarrow> length (joint_chars n names) = unat n"
  by (simp add: joint_chars_def)

lemma length_cdr_stamp_header: "length (cdr_stamp None cdr_header) = 12" "length cdr_header = 4"
  by (simp_all add: cdr_stamp_def cdr_header_def cdr_hole_def)

lemma length_front_ge: "12 \<le> length (cdr_front None frame names)"
proof -
  have "prefix (cdr_stamp None cdr_header) (cdr_front None frame names)"
    unfolding cdr_front_def by (meson prefix_cdr_string prefix_cdr_strings prefix_order.trans)
  then show ?thesis using prefix_length_le length_cdr_stamp_header(1) by metis
qed

lemma put_opt_string_12:
  assumes "length s = 12" and "length (cdr_string (opt_chars str) s) < 2 ^ 32"
  shows "put_opt_string str (cur s buf) =
    (if length (cdr_string (opt_chars str) s) \<le> length buf
     then Some (cur (cdr_string (opt_chars str) s) buf) else None)"
proof -
  have "align_cursor 4 (cur s buf) = cur s buf"
    using assms(1) by (simp add: align_cursor_4 cdr_align_aligned)
  then show ?thesis using put_opt_string_aligned [of s str buf] assms by (simp add: opt_chars_def)
qed

lemma put_prefix_spec:
  assumes n: "unat n \<le> length names"
    and L: "length (cdr_front None (opt_chars frame) (joint_chars n names)) < 2 ^ 32"
  shows "put_prefix frame names n buf =
    (if length (cdr_front None (opt_chars frame) (joint_chars n names)) \<le> length buf
     then Some (4, cur (cdr_front None (opt_chars frame) (joint_chars n names)) buf) else None)"
proof -
  let ?h = "cdr_stamp None cdr_header"
  let ?f = "cdr_string (opt_chars frame) ?h"
  let ?c = "cdr_uint32 n ?f"
  let ?s = "cdr_front None (opt_chars frame) (joint_chars n names)"
  have s: "?s = fold cdr_string (map c_chars (take (unat n) names)) ?c"
    using n by (simp add: cdr_front_def cdr_strings_def length_joint_chars)
       (simp add: joint_chars_def)
  have le: "length ?c \<le> length ?s" "length ?f \<le> length ?c"
    unfolding s by (intro prefix_length_le, simp)+
  have f4: "4 \<le> length ?f" by (simp add: length_cdr_string length_cdr_stamp_header)
  have c4: "4 \<le> length ?c" "length ?f < 2 ^ 32 - 4" using le L by (auto simp: length_cdr_uint32)
  have st: "skip_cursor 8 (cur cdr_header buf) = cur ?h buf"
    using skip_cursor_cur [of 8] by (simp add: cdr_stamp_def)
  have b: "put_bytes [0x00, 0x01, 0x00, 0x00] (0, buf) =
      (if 4 \<le> length buf then Some (cur cdr_header buf) else None)"
    using put_bytes_cur [of "[]" "[0x00, 0x01, 0x00, 0x00]" buf]
    by (simp add: cur_def cdr_bytes_def cdr_header_def)
  have fr: "put_opt_string frame (cur ?h buf) = (if length ?f \<le> length buf then Some (cur ?f buf) else None)"
    using le L by (intro put_opt_string_12) (auto simp: length_cdr_stamp_header)
  have ct: "put_uint32 n (align_cursor 4 (cur ?f buf)) =
      (if length ?c \<le> length buf then Some (cur ?c buf) else None)"
    using f4 c4(2) by (rule put_uint32_aligned)
  have nm: "put_joint_names (unat n) names (cur ?c buf) =
      (if length ?s \<le> length buf then Some (cur ?s buf) else None)" if "length ?c \<le> length buf"
    using put_joint_names_cur [of ?c "take (unat n) names" buf "drop (unat n) names"] that c4(1) n L s
    by simp
  have h: "fst (cur cdr_header buf) = 4" by (simp add: cur_def length_cdr_stamp_header)
  show ?thesis
    unfolding put_prefix_def b using le f4 st fr ct nm h by auto
qed

definition js_layout :: "string \<Rightarrow> string list \<Rightarrow> zcdr_joint_state_ctx" where
  "js_layout frame names =
     (let n = length names; front = cdr_front None frame names
      in \<lparr> js_num_joints = word_of_nat n, js_offset_timestamp = 4,
           js_offset_position = word_of_nat (length (cdr_array_start n front)),
           js_offset_velocity = word_of_nat (length (cdr_array_start n (cdr_doubles n None front))),
           js_offset_effort =
             word_of_nat (length (cdr_array_start n (cdr_doubles n None (cdr_doubles n None front)))),
           js_payload_size = word_of_nat (length (cdr_joint_state None frame names None None None)) \<rparr>)"

definition jc_layout :: "string \<Rightarrow> string list \<Rightarrow> string \<Rightarrow> zcdr_joint_command_ctx" where
  "jc_layout frame names interface =
     (let n = length names; front = cdr_string interface (cdr_front None frame names)
      in \<lparr> jc_num_joints = word_of_nat n, jc_offset_timestamp = 4,
           jc_offset_values = word_of_nat (length (cdr_array_start n front)),
           jc_payload_size = word_of_nat (length (cdr_joint_command None frame names interface None)) \<rparr>)"

text \<open>
  The last byte that initialisation writes: the arrays themselves are skipped, so the count of the
  last array is the end of what is written.
\<close>

definition js_written :: "string \<Rightarrow> string list \<Rightarrow> nat" where
  "js_written frame names =
     (let n = length names; front = cdr_front None frame names
      in length (cdr_uint32 (word_of_nat n) (cdr_doubles n None (cdr_doubles n None front))))"

definition jc_written :: "string \<Rightarrow> string list \<Rightarrow> string \<Rightarrow> nat" where
  "jc_written frame names interface =
     length (cdr_uint32 (word_of_nat (length names)) (cdr_string interface (cdr_front None frame names)))"

lemma put_array_cur:
  assumes "4 \<le> length s" and "0 < unat n" and "length (cdr_doubles (unat n) None s) < 2 ^ 32"
  shows "put_array_header n (cur s buf) =
    (if length (cdr_uint32 n s) \<le> length buf then Some (cur (cdr_array_start (unat n) s) buf) else None)"
    and "skip_cursor (8 * n) (cur (cdr_array_start (unat n) s) buf) = cur (cdr_doubles (unat n) None s) buf"
proof -
  have "length (cdr_align 8 (cdr_uint32 n s)) + 8 \<le> 2 ^ 32"
    using assms(2,3) by (simp add: cdr_doubles_start cdr_array_start_def cdr_hole_def)
  from put_array_header_cur [OF assms(1) this]
  show "put_array_header n (cur s buf) =
    (if length (cdr_uint32 n s) \<le> length buf then Some (cur (cdr_array_start (unat n) s) buf) else None)"
    by (simp add: cdr_array_start_def)
  have "skip_cursor (word_of_nat (8 * unat n)) (cur (cdr_array_start (unat n) s) buf) =
      cur (cdr_array_start (unat n) s @ cdr_hole (8 * unat n) None) buf"
    by (rule skip_cursor_cur)
  then show "skip_cursor (8 * n) (cur (cdr_array_start (unat n) s) buf) = cur (cdr_doubles (unat n) None s) buf"
    using assms(2) by (simp add: cdr_doubles_start)
qed

lemma length_doubles_ge: "length s \<le> length (cdr_uint32 w s)" "length (cdr_uint32 (word_of_nat n) s) \<le> length (cdr_doubles n xs s)"
  by (simp_all add: length_cdr_uint32 cdr_doubles_def Let_def)

lemma fst_cur: "fst (cur s buf) = word_of_nat (length s)" and snd_cur: "snd (cur s buf) = overlay s buf"
  by (simp_all add: cur_def)

lemma overlay_doubles_hole:
  "overlay (cdr_doubles n None s) buf = overlay (cdr_uint32 (word_of_nat n) s) buf"
  by (simp add: cdr_doubles_def Let_def cdr_hole_def)

lemma zcdr_init_joint_state_eq:
  assumes n: "0 < unat n" "unat n \<le> length names"
    and L: "length (cdr_joint_state None (opt_chars frame) (joint_chars n names) None None None) < 2 ^ 32"
  shows "zcdr_init_joint_state frame names n buf =
    (if js_written (opt_chars frame) (joint_chars n names) \<le> length buf
     then Some (js_layout (opt_chars frame) (joint_chars n names),
                overlay (cdr_joint_state None (opt_chars frame) (joint_chars n names) None None None) buf)
     else None)"
proof -
  let ?F = "opt_chars frame" and ?N = "joint_chars n names" and ?n = "unat n"
  let ?s0 = "cdr_front None ?F ?N"
  let ?s1 = "cdr_doubles ?n None ?s0"
  let ?s2 = "cdr_doubles ?n None ?s1"
  let ?s3 = "cdr_doubles ?n None ?s2"
  have len: "length ?N = ?n" using n(2) by (rule length_joint_chars)
  have full: "cdr_joint_state None ?F ?N None None None = ?s3"
    by (simp add: cdr_joint_state_def cdr_front_def len Let_def)
  have le: "length ?s0 \<le> length (cdr_uint32 n ?s0)" "length (cdr_uint32 n ?s0) \<le> length ?s1"
      "length ?s1 \<le> length (cdr_uint32 n ?s1)" "length (cdr_uint32 n ?s1) \<le> length ?s2"
      "length ?s2 \<le> length (cdr_uint32 n ?s2)" "length (cdr_uint32 n ?s2) \<le> length ?s3"
    using length_doubles_ge(1) length_doubles_ge(2) [where n = ?n] by auto
  have L3: "length ?s3 < 2 ^ 32" using L by (simp only: full)
  have ge: "4 \<le> length ?s0" using length_front_ge [of ?F ?N] by simp
  have p: "put_prefix frame names n buf = (if length ?s0 \<le> length buf then Some (4, cur ?s0 buf) else None)"
    using n(2) L3 le by (intro put_prefix_spec) auto
  have a1: "put_array_header n (cur ?s0 buf) = (if length (cdr_uint32 n ?s0) \<le> length buf then Some (cur (cdr_array_start ?n ?s0) buf) else None)"
    "skip_cursor (8 * n) (cur (cdr_array_start ?n ?s0) buf) = cur ?s1 buf"
    using put_array_cur [of ?s0 n buf] ge n(1) L3 le by auto
  have a2: "put_array_header n (cur ?s1 buf) = (if length (cdr_uint32 n ?s1) \<le> length buf then Some (cur (cdr_array_start ?n ?s1) buf) else None)"
    "skip_cursor (8 * n) (cur (cdr_array_start ?n ?s1) buf) = cur ?s2 buf"
    using put_array_cur [of ?s1 n buf] ge n(1) L3 le by auto
  have a3: "put_array_header n (cur ?s2 buf) = (if length (cdr_uint32 n ?s2) \<le> length buf then Some (cur (cdr_array_start ?n ?s2) buf) else None)"
    "skip_cursor (8 * n) (cur (cdr_array_start ?n ?s2) buf) = cur ?s3 buf"
    using put_array_cur [of ?s2 n buf] ge n(1) L3 le by auto
  have w: "js_written ?F ?N = length (cdr_uint32 n ?s2)"
    by (simp add: js_written_def len Let_def)
  show ?thesis
  proof (cases "length (cdr_uint32 n ?s2) \<le> length buf")
    case True
    then show ?thesis
      unfolding zcdr_init_joint_state_def w full using le
      by (simp add: p a1 a2 a3 fst_cur snd_cur js_layout_def len full Let_def)
  next
    case False
    then show ?thesis
      unfolding zcdr_init_joint_state_def w using le
      by (simp add: p a1 a2 a3)
  qed
qed

lemma zcdr_init_joint_command_eq:
  assumes n: "0 < unat n" "unat n \<le> length names"
    and L: "length (cdr_joint_command None (opt_chars frame) (joint_chars n names) (opt_chars itf) None) < 2 ^ 32"
  shows "zcdr_init_joint_command frame names n itf buf =
    (if jc_written (opt_chars frame) (joint_chars n names) (opt_chars itf) \<le> length buf
     then Some (jc_layout (opt_chars frame) (joint_chars n names) (opt_chars itf),
                overlay (cdr_joint_command None (opt_chars frame) (joint_chars n names) (opt_chars itf) None) buf)
     else None)"
proof -
  let ?F = "opt_chars frame" and ?N = "joint_chars n names" and ?I = "opt_chars itf" and ?n = "unat n"
  let ?fr = "cdr_front None ?F ?N"
  let ?s0 = "cdr_string ?I ?fr"
  let ?s1 = "cdr_doubles ?n None ?s0"
  have len: "length ?N = ?n" using n(2) by (rule length_joint_chars)
  have full: "cdr_joint_command None ?F ?N ?I None = ?s1"
    by (simp add: cdr_joint_command_def cdr_front_def len Let_def)
  have "length ?fr \<le> length ?s0" by (simp add: length_cdr_string)
  moreover have "length ?s0 \<le> length (cdr_uint32 n ?s0)" "length (cdr_uint32 n ?s0) \<le> length ?s1"
    using length_doubles_ge(1) length_doubles_ge(2) [where n = ?n] by auto
  ultimately have le: "length ?fr \<le> length ?s0" "length ?s0 \<le> length (cdr_uint32 n ?s0)"
      "length (cdr_uint32 n ?s0) \<le> length ?s1" .
  have L3: "length ?s1 < 2 ^ 32" using L by (simp only: full)
  have ge: "4 \<le> length ?fr" using length_front_ge [of ?F ?N] by simp
  have p: "put_prefix frame names n buf = (if length ?fr \<le> length buf then Some (4, cur ?fr buf) else None)"
    using n(2) L3 le by (intro put_prefix_spec) auto
  have i: "put_opt_string itf (align_cursor 4 (cur ?fr buf)) =
      (if length ?s0 \<le> length buf then Some (cur ?s0 buf) else None)"
    using put_opt_string_aligned [of ?fr itf buf] ge L3 le by (simp add: opt_chars_def)
  have a1: "put_array_header n (cur ?s0 buf) = (if length (cdr_uint32 n ?s0) \<le> length buf then Some (cur (cdr_array_start ?n ?s0) buf) else None)"
    "skip_cursor (8 * n) (cur (cdr_array_start ?n ?s0) buf) = cur ?s1 buf"
    using put_array_cur [of ?s0 n buf] ge n(1) L3 le by auto
  have w: "jc_written ?F ?N ?I = length (cdr_uint32 n ?s0)"
    by (simp add: jc_written_def len)
  show ?thesis
  proof (cases "length (cdr_uint32 n ?s0) \<le> length buf")
    case True
    then show ?thesis
      unfolding zcdr_init_joint_command_def w full using le
      by (simp add: p i a1 fst_cur snd_cur jc_layout_def len full Let_def)
  next
    case False
    then show ?thesis
      unfolding zcdr_init_joint_command_def w using le by (simp add: p i a1)
  qed
qed

section \<open>Serialisation fills the template\<close>

text \<open>An array argument of \<open>n\<close> doubles or a null pointer; a null pointer keeps the old contents.\<close>

definition doubles_ok :: "nat \<Rightarrow> u64 list option \<Rightarrow> bool" where
  "doubles_ok n xs \<longleftrightarrow> (case xs of None \<Rightarrow> True | Some ds \<Rightarrow> length ds = n)"

definition patch :: "'a option \<Rightarrow> 'a option \<Rightarrow> 'a option" where
  "patch new old = (case new of None \<Rightarrow> old | Some x \<Rightarrow> Some x)"

lemma patch_None [simp]: "patch None y = y" and patch_Some [simp]: "patch (Some v) y = Some v"
  by (simp_all add: patch_def)

lemma patch_None_right [simp]: "patch x None = x"
  by (simp add: patch_def split: option.splits)

lemma doubles_ok_None [simp]: "doubles_ok n None" and doubles_ok_Some [simp]: "doubles_ok n (Some ds) \<longleftrightarrow> length ds = n"
  by (simp_all add: doubles_ok_def)

lemma doubles_ok_patch: "doubles_ok n x \<Longrightarrow> doubles_ok n y \<Longrightarrow> doubles_ok n (patch x y)"
  by (cases x) auto

lemma length_hole_doubles [simp]:
  "doubles_ok n xs \<Longrightarrow> length (cdr_hole (8 * n) (map_option le64s xs)) = 8 * n"
  by (cases xs) (auto simp: cdr_hole_def)

lemma mem_write_append:
  "do { b \<leftarrow> mem_write buf off xs; mem_write b (off + length xs) ys } = mem_write buf off (xs @ ys)"
proof (cases "off + length xs + length ys \<le> length buf")
  case True
  then show ?thesis by (cases xs) (auto simp: mem_write_def min_def ac_simps)
next
  case False
  then show ?thesis by (auto simp: mem_write_def)
qed

lemma copy_doubles_overlay:
  assumes "doubles_ok k xs" and "doubles_ok k old" and "unat n = 8 * k" and "unat off = length s"
    and "length s + 8 * k + length t \<le> length buf"
  shows "copy_doubles xs off n (overlay (s @ cdr_hole (8 * k) (map_option le64s old) @ t) buf) =
    Some (overlay (s @ cdr_hole (8 * k) (map_option le64s (patch xs old)) @ t) buf)"
proof (cases xs)
  case None
  then show ?thesis by (simp add: copy_doubles_def)
next
  case (Some ds)
  then have "length (le64s ds) = 8 * k" using assms(1) by simp
  then show ?thesis
    using Some assms mem_write_overlay_replace [of s "le64s ds" t buf "cdr_hole (8 * k) (map_option le64s old)"]
    by (simp add: copy_doubles_def mem_read_ok cdr_hole_def [of _ "Some _"])
qed

lemma put_stamp_overlay:
  assumes "length s = 4" and "length mid = 8" and "12 + length t \<le> length buf"
  shows "put_stamp 4 sec nsec (overlay (s @ mid @ t) buf) =
    Some (overlay (s @ cdr_hole 8 (Some (le32 sec @ le32 nsec)) @ t) buf)"
proof -
  have "put_stamp 4 sec nsec b = mem_write b 4 (le32 sec @ le32 nsec)" for b
    using mem_write_append [of b 4 "le32 sec" "le32 nsec"] by (simp add: put_stamp_def)
  then show ?thesis
    using assms mem_write_overlay_replace [of s "le32 sec @ le32 nsec" t buf mid]
    by (simp add: cdr_hole_def)
qed

lemma appender_array_start: "appender (cdr_array_start n)"
  using appender_compose [OF appender_cdr_uint32 appender_cdr_align]
  by (simp add: cdr_array_start_def [abs_def])

lemmas appender_doubles_head =
  appender_compose [OF appender_compose [OF appender_cdr_string appender_cdr_strings] appender_array_start]

lemmas appender_command_head =
  appender_compose [OF appender_compose [OF appender_compose [OF appender_cdr_string appender_cdr_strings]
    appender_cdr_string] appender_array_start]

text \<open>
  The stream of a message, as fixed parts around the four fields that serialisation writes. The
  parts do not depend on the contents of the fields.
\<close>

lemma length_stamp_hole [simp]:
  "length (cdr_hole 8 (map_option (\<lambda>(sec, nsec). le32 sec @ le32 nsec) st)) = 8"
  by (rule length_cdr_hole) auto

lemma length_cdr_header [simp]: "length cdr_header = 4"
  by (simp add: cdr_header_def)

text \<open>In terms of the parts, the offsets of \<open>js_layout\<close> are where the fields start.\<close>

definition js_parts :: "string \<Rightarrow> string list \<Rightarrow> cdr_stream \<Rightarrow> cdr_stream \<Rightarrow> cdr_stream \<Rightarrow> bool" where
  "js_parts frame names g1 g2 g3 \<longleftrightarrow>
     (\<forall>st p v e. doubles_ok (length names) p \<longrightarrow> doubles_ok (length names) v \<longrightarrow>
        cdr_joint_state st frame names p v e =
        cdr_header @ cdr_hole 8 (map_option (\<lambda>(sec, nsec). le32 sec @ le32 nsec) st) @ g1 @
        cdr_hole (8 * length names) (map_option le64s p) @ g2 @
        cdr_hole (8 * length names) (map_option le64s v) @ g3 @
        cdr_hole (8 * length names) (map_option le64s e)) \<and>
     js_layout frame names =
       \<lparr> js_num_joints = word_of_nat (length names), js_offset_timestamp = 4,
         js_offset_position = word_of_nat (12 + length g1),
         js_offset_velocity = word_of_nat (12 + length g1 + 8 * length names + length g2),
         js_offset_effort =
           word_of_nat (12 + length g1 + 16 * length names + length g2 + length g3),
         js_payload_size =
           word_of_nat (12 + length g1 + 24 * length names + length g2 + length g3) \<rparr>"

definition jc_parts :: "string \<Rightarrow> string list \<Rightarrow> string \<Rightarrow> cdr_stream \<Rightarrow> bool" where
  "jc_parts frame names itf g1 \<longleftrightarrow>
     (\<forall>st v. cdr_joint_command st frame names itf v =
        cdr_header @ cdr_hole 8 (map_option (\<lambda>(sec, nsec). le32 sec @ le32 nsec) st) @ g1 @
        cdr_hole (8 * length names) (map_option le64s v)) \<and>
     jc_layout frame names itf =
       \<lparr> jc_num_joints = word_of_nat (length names), jc_offset_timestamp = 4,
         jc_offset_values = word_of_nat (12 + length g1),
         jc_payload_size = word_of_nat (12 + length g1 + 8 * length names) \<rparr>"

lemma cdr_joint_state_parts:
  assumes n: "0 < length names"
  shows "\<exists>g1 g2 g3. js_parts frame names g1 g2 g3"
proof -
  let ?n = "length names"
  have "appender (\<lambda>s. cdr_array_start ?n (cdr_strings names (cdr_string frame s)))"
    by (rule appender_doubles_head)
  then obtain h1 where h1: "\<And>s. cdr_array_start ?n (cdr_strings names (cdr_string frame s)) = s @ h1 (length s)"
    unfolding appender_def by blast
  obtain h2 where h2: "\<And>s. cdr_array_start ?n s = s @ h2 (length s)"
    using appender_array_start [of ?n] unfolding appender_def by blast
  let ?l1 = "12 + length (h1 12) + 8 * ?n"
  let ?l2 = "?l1 + length (h2 ?l1) + 8 * ?n"
  define H where "H = (\<lambda>st. cdr_hole 8 (map_option (\<lambda>(sec, nsec). le32 sec @ le32 nsec) (st :: (i32 \<times> u32) option)))"
  define D where "D = (\<lambda>xs. cdr_hole (8 * ?n) (map_option le64s xs))"
  have lenH: "length (H st) = 8" for st by (simp add: H_def)
  have lenD: "length (D xs) = 8 * ?n" if "doubles_ok ?n xs" for xs using that by (simp add: D_def)
  have dd: "cdr_doubles ?n xs s = cdr_array_start ?n s @ D xs" for xs s
    by (simp add: cdr_doubles_start [OF n] D_def)
  have 0: "cdr_array_start ?n (cdr_front st frame names) = cdr_header @ H st @ h1 12" for st
    by (simp add: cdr_front_def h1 cdr_stamp_def H_def)
  have 1: "cdr_doubles ?n p (cdr_front st frame names) = cdr_header @ H st @ h1 12 @ D p" for st p
    by (simp add: dd 0)
  have 2: "cdr_array_start ?n (cdr_doubles ?n p (cdr_front st frame names)) =
      cdr_header @ H st @ h1 12 @ D p @ h2 ?l1" if "doubles_ok ?n p" for st p
    unfolding 1 h2 using that by (simp add: lenH lenD add.assoc)
  have 3: "cdr_array_start ?n (cdr_doubles ?n v (cdr_doubles ?n p (cdr_front st frame names))) =
      cdr_header @ H st @ h1 12 @ D p @ h2 ?l1 @ D v @ h2 ?l2"
    if "doubles_ok ?n p" "doubles_ok ?n v" for st p v
    unfolding dd [of v] 2 [OF that(1)] unfolding h2 using that by (simp add: lenH lenD add.assoc)
  have full: "cdr_joint_state st frame names p v e =
      cdr_header @ H st @ h1 12 @ D p @ h2 ?l1 @ D v @ h2 ?l2 @ D e"
    if "doubles_ok ?n p" "doubles_ok ?n v" for st p v e
    unfolding cdr_joint_state_def cdr_front_def [symmetric] Let_def dd [of e] 3 [OF that] by simp
  let ?f = "cdr_front None frame names"
  have "length (cdr_array_start ?n ?f) = 12 + length (h1 12)"
    unfolding 0 by (simp add: lenH)
  moreover have "length (cdr_array_start ?n (cdr_doubles ?n None ?f)) =
      12 + length (h1 12) + 8 * ?n + length (h2 ?l1)"
    by (subst 2) (simp_all add: lenH lenD)
  moreover have "length (cdr_array_start ?n (cdr_doubles ?n None (cdr_doubles ?n None ?f))) =
      12 + length (h1 12) + 16 * ?n + length (h2 ?l1) + length (h2 ?l2)"
    by (subst 3) (simp_all add: lenH lenD)
  moreover have "length (cdr_joint_state None frame names None None None) =
      12 + length (h1 12) + 24 * ?n + length (h2 ?l1) + length (h2 ?l2)"
    by (subst full) (simp_all add: lenH lenD)
  ultimately have "js_parts frame names (h1 12) (h2 ?l1) (h2 ?l2)"
    unfolding js_parts_def js_layout_def Let_def using full unfolding H_def D_def by (simp only:) simp
  then show ?thesis by blast
qed

lemma cdr_joint_command_parts:
  assumes n: "0 < length names"
  shows "\<exists>g1. jc_parts frame names itf g1"
proof -
  let ?n = "length names"
  have "appender (\<lambda>s. cdr_array_start ?n (cdr_string itf (cdr_strings names (cdr_string frame s))))"
    by (rule appender_command_head)
  then obtain h1 where h1: "\<And>s. cdr_array_start ?n (cdr_string itf (cdr_strings names (cdr_string frame s))) = s @ h1 (length s)"
    unfolding appender_def by blast
  have 1: "cdr_array_start ?n (cdr_string itf (cdr_front st frame names)) =
      cdr_header @ cdr_hole 8 (map_option (\<lambda>(sec, nsec). le32 sec @ le32 nsec) st) @ h1 12" for st
    by (simp add: cdr_front_def h1 cdr_stamp_def)
  have full: "cdr_joint_command st frame names itf v =
      cdr_header @ cdr_hole 8 (map_option (\<lambda>(sec, nsec). le32 sec @ le32 nsec) st) @ h1 12 @
      cdr_hole (8 * ?n) (map_option le64s v)" for st v
    unfolding cdr_joint_command_def cdr_front_def [symmetric] Let_def cdr_doubles_start [OF n] 1 by simp
  have "length (cdr_array_start ?n (cdr_string itf (cdr_front None frame names))) = 12 + length (h1 12)"
    unfolding 1 by (simp only: length_append length_stamp_hole length_cdr_header)
  moreover have "length (cdr_joint_command None frame names itf None) = 12 + length (h1 12) + 8 * ?n"
    unfolding full length_append length_stamp_hole length_cdr_header
    using length_hole_doubles [OF doubles_ok_None, of ?n] by simp
  ultimately have "jc_parts frame names itf (h1 12)"
    unfolding jc_parts_def jc_layout_def Let_def using full by (simp only:) simp
  then show ?thesis by blast
qed

lemma unat_8_times: "8 * k < 2 ^ 32 \<Longrightarrow> unat ((word_of_nat k :: 32 word) * 8) = 8 * k"
proof -
  assume "8 * k < 2 ^ 32"
  then have "unat (word_of_nat (8 * k) :: 32 word) = 8 * k" by (rule unat_of_nat_32)
  then show ?thesis by (simp add: mult.commute)
qed

lemma zcdr_serialize_joint_state_overlay:
  assumes n: "0 < length names"
    and new: "doubles_ok (length names) pos" "doubles_ok (length names) vel" "doubles_ok (length names) eff"
    and old: "doubles_ok (length names) p" "doubles_ok (length names) v" "doubles_ok (length names) e"
    and fits: "length (cdr_joint_state None frame names None None None) \<le> length buf" "length buf < 2 ^ 32"
  shows "zcdr_serialize_joint_state (js_layout frame names) sec nsec pos vel eff
           (overlay (cdr_joint_state st frame names p v e) buf) =
    Some (overlay (cdr_joint_state (Some (sec, nsec)) frame names (patch pos p) (patch vel v) (patch eff e)) buf)"
proof -
  let ?n = "length names"
  obtain g1 g2 g3 where "js_parts frame names g1 g2 g3"
    using cdr_joint_state_parts [OF n] by blast
  note parts = this [unfolded js_parts_def, THEN conjunct1, rule_format]
    and layout = this [unfolded js_parts_def, THEN conjunct2]
  let ?H = "cdr_hole 8 (map_option (\<lambda>(sec, nsec). le32 sec @ le32 nsec) (Some (sec, nsec)))"
  let ?D = "\<lambda>xs. cdr_hole (8 * ?n) (map_option le64s xs)"
  have room: "12 + length g1 + 24 * ?n + length g2 + length g3 \<le> length buf"
    using fits(1) length_hole_doubles [OF doubles_ok_None, of ?n] length_stamp_hole [of None]
    by (simp add: parts)
  have 1: "put_stamp 4 sec nsec (overlay (cdr_joint_state st frame names p v e) buf) =
      Some (overlay (cdr_header @ ?H @ g1 @ ?D p @ g2 @ ?D v @ g3 @ ?D e) buf)"
    using room old unfolding parts [OF old(1,2)] by (simp add: put_stamp_overlay)
  have 2: "copy_doubles pos (word_of_nat (12 + length g1)) (word_of_nat ?n * 8)
        (overlay (cdr_header @ ?H @ g1 @ ?D p @ g2 @ ?D v @ g3 @ ?D e) buf) =
      Some (overlay (cdr_header @ ?H @ g1 @ ?D (patch pos p) @ g2 @ ?D v @ g3 @ ?D e) buf)"
    using copy_doubles_overlay [of ?n pos p "word_of_nat ?n * 8" "word_of_nat (12 + length g1)"
        "cdr_header @ ?H @ g1" "g2 @ ?D v @ g3 @ ?D e" buf]
    using room fits(2) new old unat_8_times [of ?n] unat_of_nat_32 [of "12 + length g1"] length_stamp_hole [of "Some (sec, nsec)"] by simp
  have 3: "copy_doubles vel (word_of_nat (12 + length g1 + 8 * ?n + length g2)) (word_of_nat ?n * 8)
        (overlay (cdr_header @ ?H @ g1 @ ?D p' @ g2 @ ?D v @ g3 @ ?D e) buf) =
      Some (overlay (cdr_header @ ?H @ g1 @ ?D p' @ g2 @ ?D (patch vel v) @ g3 @ ?D e) buf)"
    if "doubles_ok ?n p'" for p'
    using copy_doubles_overlay [of ?n vel v "word_of_nat ?n * 8"
        "word_of_nat (12 + length g1 + 8 * ?n + length g2)"
        "cdr_header @ ?H @ g1 @ ?D p' @ g2" "g3 @ ?D e" buf]
    using room fits(2) new old that unat_8_times [of ?n]
      unat_of_nat_32 [of "12 + length g1 + 8 * ?n + length g2"] length_stamp_hole [of "Some (sec, nsec)"] by simp
  have 4: "copy_doubles eff (word_of_nat (12 + length g1 + 16 * ?n + length g2 + length g3)) (word_of_nat ?n * 8)
        (overlay (cdr_header @ ?H @ g1 @ ?D p' @ g2 @ ?D v' @ g3 @ ?D e) buf) =
      Some (overlay (cdr_header @ ?H @ g1 @ ?D p' @ g2 @ ?D v' @ g3 @ ?D (patch eff e)) buf)"
    if "doubles_ok ?n p'" "doubles_ok ?n v'" for p' v'
    using copy_doubles_overlay [of ?n eff e "word_of_nat ?n * 8"
        "word_of_nat (12 + length g1 + 16 * ?n + length g2 + length g3)"
        "cdr_header @ ?H @ g1 @ ?D p' @ g2 @ ?D v' @ g3" "[]" buf]
    using room fits(2) new old that unat_8_times [of ?n]
      unat_of_nat_32 [of "12 + length g1 + 16 * ?n + length g2 + length g3"] length_stamp_hole [of "Some (sec, nsec)"] by simp
  note ok = doubles_ok_patch [OF new(1) old(1)] doubles_ok_patch [OF new(2) old(2)]
  show ?thesis
    unfolding zcdr_serialize_joint_state_def layout zcdr_joint_state_ctx.simps 1 Let_def bind.bind_lunit
      2 3 [OF ok(1)] 4 [OF ok] parts [OF ok] ..
qed

lemma zcdr_serialize_joint_command_overlay:
  assumes n: "0 < length names"
    and ok: "doubles_ok (length names) vals" "doubles_ok (length names) v"
    and fits: "length (cdr_joint_command None frame names itf None) \<le> length buf" "length buf < 2 ^ 32"
  shows "zcdr_serialize_joint_command (jc_layout frame names itf) sec nsec vals
           (overlay (cdr_joint_command st frame names itf v) buf) =
    Some (overlay (cdr_joint_command (Some (sec, nsec)) frame names itf (patch vals v)) buf)"
proof -
  let ?n = "length names"
  obtain g1 where "jc_parts frame names itf g1"
    using cdr_joint_command_parts [OF n] by blast
  note parts = this [unfolded jc_parts_def, THEN conjunct1, rule_format]
    and layout = this [unfolded jc_parts_def, THEN conjunct2]
  let ?H = "cdr_hole 8 (map_option (\<lambda>(sec, nsec). le32 sec @ le32 nsec) (Some (sec, nsec)))"
  let ?D = "\<lambda>xs. cdr_hole (8 * ?n) (map_option le64s xs)"
  have room: "12 + length g1 + 8 * ?n \<le> length buf"
    using fits(1) length_hole_doubles [OF doubles_ok_None, of ?n] length_stamp_hole [of None]
    by (simp add: parts)
  have 1: "put_stamp 4 sec nsec (overlay (cdr_joint_command st frame names itf v) buf) =
      Some (overlay (cdr_header @ ?H @ g1 @ ?D v) buf)"
    using room ok unfolding parts by (simp add: put_stamp_overlay)
  have 2: "copy_doubles vals (word_of_nat (12 + length g1)) (word_of_nat ?n * 8)
        (overlay (cdr_header @ ?H @ g1 @ ?D v) buf) =
      Some (overlay (cdr_header @ ?H @ g1 @ ?D (patch vals v)) buf)"
    using copy_doubles_overlay [of ?n vals v "word_of_nat ?n * 8" "word_of_nat (12 + length g1)"
        "cdr_header @ ?H @ g1" "[]" buf]
    using room fits(2) ok unat_8_times [of ?n] unat_of_nat_32 [of "12 + length g1"]
      length_stamp_hole [of "Some (sec, nsec)"] by simp
  show ?thesis
    unfolding zcdr_serialize_joint_command_def layout zcdr_joint_command_ctx.simps 1 bind.bind_lunit 2
    unfolding parts ..
qed

section \<open>Deserialisation reads the fields back\<close>

text \<open>An output array must have room for the joints; a null pointer is skipped.\<close>

definition room_for :: "nat \<Rightarrow> u64 list option \<Rightarrow> bool" where
  "room_for n out \<longleftrightarrow> (case out of None \<Rightarrow> True | Some old \<Rightarrow> n \<le> length old)"

definition store_doubles :: "u64 list \<Rightarrow> u64 list option \<Rightarrow> u64 list option" where
  "store_doubles ds out = map_option (\<lambda>old. ds @ drop (length ds) old) out"

lemma fetch_uint32_carries:
  assumes "carries buf (s @ map Some (le32 w) @ t)" and "unat off = length s"
  shows "fetch_uint32 buf off out = Some (map_option (\<lambda>_. w) out)"
  using carries_read [OF assms(1)] assms(2) by (cases out) (simp_all add: fetch_uint32_def)

lemma fetch_doubles_carries:
  assumes "carries buf (s @ map Some (le64s ds) @ t)" and "unat off = length s"
    and "8 * length ds < 2 ^ 32" and "room_for (length ds) out"
  shows "fetch_doubles buf off (word_of_nat (length ds)) out = Some (store_doubles ds out)"
proof (cases out)
  case None
  then show ?thesis by (simp add: fetch_doubles_def store_doubles_def)
next
  case (Some old)
  have "mem_read buf (length s) (8 * length ds) = Some (le64s ds)"
    using carries_read [OF assms(1)] by simp
  then show ?thesis
    using Some assms(2,4) unat_8_times [OF assms(3)]
    by (simp add: fetch_doubles_def store_doubles_def room_for_def words_of_le64s_le64s Let_def)
qed

lemma cdr_hole_Some [simp]: "cdr_hole k (Some bs) = map Some bs"
  by (simp add: cdr_hole_def)

lemma zcdr_deserialize_joint_state_carries:
  assumes n: "0 < length names"
    and len: "length ps = length names" "length vs = length names" "length es = length names"
    and c: "carries buf (cdr_joint_state (Some (sec, nsec)) frame names (Some ps) (Some vs) (Some es))"
    and b: "length buf < 2 ^ 32"
    and size: "js_payload_size (js_layout frame names) \<le> buffer_size"
    and room: "room_for (length names) (out_positions out)" "room_for (length names) (out_velocities out)"
      "room_for (length names) (out_efforts out)"
  shows "zcdr_deserialize_joint_state (js_layout frame names) buf buffer_size out =
    Some (True, \<lparr> out_sec = map_option (\<lambda>_. sec) (out_sec out), out_nsec = map_option (\<lambda>_. nsec) (out_nsec out),
                  out_positions = store_doubles ps (out_positions out),
                  out_velocities = store_doubles vs (out_velocities out),
                  out_efforts = store_doubles es (out_efforts out) \<rparr>)"
proof -
  let ?n = "length names"
  obtain g1 g2 g3 where "js_parts frame names g1 g2 g3"
    using cdr_joint_state_parts [OF n] by blast
  note parts = this [unfolded js_parts_def, THEN conjunct1, rule_format]
    and layout = this [unfolded js_parts_def, THEN conjunct2]
  let ?H = "map Some (le32 sec) @ map Some (le32 nsec)"
  let ?D = "\<lambda>xs. map Some (le64s xs)"
  have c': "carries buf (cdr_header @ ?H @ g1 @ ?D ps @ g2 @ ?D vs @ g3 @ ?D es)"
    using c len by (simp add: parts)
  have L: "12 + length g1 + 24 * ?n + length g2 + length g3 < 2 ^ 32"
    using c' b len by (simp add: carries_def)
  have 1: "fetch_uint32 buf 4 (out_sec out) = Some (map_option (\<lambda>_. sec) (out_sec out))"
    using c' by (intro fetch_uint32_carries [where s = cdr_header]) simp_all
  have 2: "fetch_uint32 buf 8 (out_nsec out) = Some (map_option (\<lambda>_. nsec) (out_nsec out))"
    using c' by (intro fetch_uint32_carries [where s = "cdr_header @ map Some (le32 sec)"]) simp_all
  have 3: "fetch_doubles buf (word_of_nat (12 + length g1)) (word_of_nat ?n) (out_positions out) =
      Some (store_doubles ps (out_positions out))"
    using fetch_doubles_carries [of buf "cdr_header @ ?H @ g1" ps "g2 @ ?D vs @ g3 @ ?D es"
        "word_of_nat (12 + length g1)" "out_positions out"]
      c' L len room unat_of_nat_32 [of "12 + length g1"] by simp
  have 4: "fetch_doubles buf (word_of_nat (12 + length g1 + 8 * ?n + length g2)) (word_of_nat ?n) (out_velocities out) =
      Some (store_doubles vs (out_velocities out))"
    using fetch_doubles_carries [of buf "cdr_header @ ?H @ g1 @ ?D ps @ g2" vs "g3 @ ?D es"
        "word_of_nat (12 + length g1 + 8 * ?n + length g2)" "out_velocities out"]
      c' L len room unat_of_nat_32 [of "12 + length g1 + 8 * ?n + length g2"] by simp
  have 5: "fetch_doubles buf (word_of_nat (12 + length g1 + 16 * ?n + length g2 + length g3)) (word_of_nat ?n) (out_efforts out) =
      Some (store_doubles es (out_efforts out))"
    using fetch_doubles_carries [of buf "cdr_header @ ?H @ g1 @ ?D ps @ g2 @ ?D vs @ g3" es "[]"
        "word_of_nat (12 + length g1 + 16 * ?n + length g2 + length g3)" "out_efforts out"]
      c' L len room unat_of_nat_32 [of "12 + length g1 + 16 * ?n + length g2 + length g3"] by simp
  have s: "\<not> buffer_size < js_payload_size (js_layout frame names)" using size by simp
  have four: "(4 :: size_t) + 4 = 8" by simp
  show ?thesis
    unfolding zcdr_deserialize_joint_state_def if_not_P [OF s] unfolding layout zcdr_joint_state_ctx.simps four
      1 2 3 4 5 bind.bind_lunit ..
qed

lemma zcdr_deserialize_joint_command_carries:
  assumes n: "0 < length names" and len: "length vs = length names"
    and c: "carries buf (cdr_joint_command (Some (sec, nsec)) frame names itf (Some vs))"
    and b: "length buf < 2 ^ 32"
    and size: "jc_payload_size (jc_layout frame names itf) \<le> buffer_size"
    and room: "room_for (length names) (out_values out)"
  shows "zcdr_deserialize_joint_command (jc_layout frame names itf) buf buffer_size out =
    Some (True, \<lparr> out_cmd_sec = map_option (\<lambda>_. sec) (out_cmd_sec out),
                  out_cmd_nsec = map_option (\<lambda>_. nsec) (out_cmd_nsec out),
                  out_values = store_doubles vs (out_values out) \<rparr>)"
proof -
  let ?n = "length names"
  obtain g1 where "jc_parts frame names itf g1"
    using cdr_joint_command_parts [OF n] by blast
  note parts = this [unfolded jc_parts_def, THEN conjunct1, rule_format]
    and layout = this [unfolded jc_parts_def, THEN conjunct2]
  let ?H = "map Some (le32 sec) @ map Some (le32 nsec)"
  have c': "carries buf (cdr_header @ ?H @ g1 @ map Some (le64s vs))"
    using c len by (simp add: parts)
  have L: "12 + length g1 + 8 * ?n < 2 ^ 32" using c' b len by (simp add: carries_def)
  have 1: "fetch_uint32 buf 4 (out_cmd_sec out) = Some (map_option (\<lambda>_. sec) (out_cmd_sec out))"
    using c' by (intro fetch_uint32_carries [where s = cdr_header]) simp_all
  have 2: "fetch_uint32 buf 8 (out_cmd_nsec out) = Some (map_option (\<lambda>_. nsec) (out_cmd_nsec out))"
    using c' by (intro fetch_uint32_carries [where s = "cdr_header @ map Some (le32 sec)"]) simp_all
  have 3: "fetch_doubles buf (word_of_nat (12 + length g1)) (word_of_nat ?n) (out_values out) =
      Some (store_doubles vs (out_values out))"
    using fetch_doubles_carries [of buf "cdr_header @ ?H @ g1" vs "[]"
        "word_of_nat (12 + length g1)" "out_values out"]
      c' L len room unat_of_nat_32 [of "12 + length g1"] by simp
  have s: "\<not> buffer_size < jc_payload_size (jc_layout frame names itf)" using size by simp
  have four: "(4 :: size_t) + 4 = 8" by simp
  show ?thesis
    unfolding zcdr_deserialize_joint_command_def if_not_P [OF s] unfolding layout zcdr_joint_command_ctx.simps four
      1 2 3 bind.bind_lunit ..
qed

end
