(* ===== verification/Cdr_Reader.thy ===== *)
theory Cdr_Reader
  imports Cdr_Spec
begin

text \<open>
  A CDR reader for the two messages, as the receiving ROS 2 side reads a payload: it knows the
  message type but neither the frame id nor the joint names, and takes every length from the
  payload. It reads back what the writers of \<open>Cdr_Spec\<close> encode, whatever the padding bytes are.
\<close>

section \<open>The reader\<close>

definition get_uint32 :: "byte list \<Rightarrow> nat \<Rightarrow> (u32 \<times> nat) option" where
  "get_uint32 bs p =
     (let q = p + cdr_pad 4 p in do { xs \<leftarrow> mem_read bs q 4; Some (word_of_le xs, q + 4) })"

definition get_string :: "byte list \<Rightarrow> nat \<Rightarrow> (string \<times> nat) option" where
  "get_string bs p =
     do { (n, q) \<leftarrow> get_uint32 bs p;
          xs \<leftarrow> mem_read bs q (unat n);
          if xs = [] \<or> last xs \<noteq> 0 then None
          else Some (map char_of_byte (butlast xs), q + unat n) }"

fun get_string_list :: "nat \<Rightarrow> byte list \<Rightarrow> nat \<Rightarrow> (string list \<times> nat) option" where
  "get_string_list 0 bs p = Some ([], p)"
| "get_string_list (Suc k) bs p =
     do { (x, q) \<leftarrow> get_string bs p; (xs, r) \<leftarrow> get_string_list k bs q; Some (x # xs, r) }"

definition get_strings :: "byte list \<Rightarrow> nat \<Rightarrow> (string list \<times> nat) option" where
  "get_strings bs p = do { (n, q) \<leftarrow> get_uint32 bs p; get_string_list (unat n) bs q }"

definition get_doubles :: "byte list \<Rightarrow> nat \<Rightarrow> (u64 list \<times> nat) option" where
  "get_doubles bs p =
     do { (n, q) \<leftarrow> get_uint32 bs p;
          if n = 0 then Some ([], q)
          else let r = q + cdr_pad 8 q
               in do { xs \<leftarrow> mem_read bs r (8 * unat n);
                       Some (words_of_le64s (unat n) xs, r + 8 * unat n) } }"

record joint_state_msg =
  msg_stamp :: "i32 \<times> u32"
  msg_frame_id :: string
  msg_name :: "string list"
  msg_position :: "u64 list"
  msg_velocity :: "u64 list"
  msg_effort :: "u64 list"

record joint_command_msg =
  cmd_stamp :: "i32 \<times> u32"
  cmd_frame_id :: string
  cmd_joint_names :: "string list"
  cmd_interface_name :: string
  cmd_values :: "u64 list"

definition get_front :: "byte list \<Rightarrow> ((i32 \<times> u32) \<times> string \<times> string list \<times> nat) option" where
  "get_front bs =
     do { h \<leftarrow> mem_read bs 0 4;
          if h \<noteq> [0x00, 0x01, 0x00, 0x00] then None
          else do { (sec, p) \<leftarrow> get_uint32 bs 4; (nsec, p) \<leftarrow> get_uint32 bs p;
                    (frame, p) \<leftarrow> get_string bs p; (names, p) \<leftarrow> get_strings bs p;
                    Some ((sec, nsec), frame, names, p) } }"

definition read_joint_state :: "byte list \<Rightarrow> joint_state_msg option" where
  "read_joint_state bs =
     do { (stamp, frame, names, p) \<leftarrow> get_front bs;
          (ps, p) \<leftarrow> get_doubles bs p; (vs, p) \<leftarrow> get_doubles bs p; (es, p) \<leftarrow> get_doubles bs p;
          Some \<lparr> msg_stamp = stamp, msg_frame_id = frame, msg_name = names,
                 msg_position = ps, msg_velocity = vs, msg_effort = es \<rparr> }"

definition read_joint_command :: "byte list \<Rightarrow> joint_command_msg option" where
  "read_joint_command bs =
     do { (stamp, frame, names, p) \<leftarrow> get_front bs;
          (itf, p) \<leftarrow> get_string bs p; (vs, p) \<leftarrow> get_doubles bs p;
          Some \<lparr> cmd_stamp = stamp, cmd_frame_id = frame, cmd_joint_names = names,
                 cmd_interface_name = itf, cmd_values = vs \<rparr> }"

section \<open>Reading what was written\<close>

lemma unat_of_nat_u32: "n < 2 ^ 32 \<Longrightarrow> unat (word_of_nat n :: u32) = n"
  by (simp add: unat_of_nat take_bit_nat_eq_self)

lemma get_uint32_carries:
  assumes "carries bs (cdr_uint32 w s)"
  shows "get_uint32 bs (length s) = Some (w, length (cdr_uint32 w s))"
  using carries_read_bytes [OF assms [unfolded cdr_uint32_def]]
  by (simp add: get_uint32_def length_cdr_uint32)

lemma get_string_carries:
  assumes c: "carries bs (cdr_string str s)" and l: "length bs < 2 ^ 32"
  shows "get_string bs (length s) = Some (str, length (cdr_string str s))"
proof -
  let ?w = "word_of_nat (length str + 1) :: u32"
  have "length str + 1 < 2 ^ 32" using c l by (simp add: carries_def cdr_string_def)
  then have u: "unat ?w = length str + 1" by (rule unat_of_nat_u32)
  have "carries bs (cdr_uint32 ?w s)"
    using c by (rule carries_prefix) (simp add: cdr_string_def)
  then have 1: "get_uint32 bs (length s) = Some (?w, length (cdr_uint32 ?w s))"
    by (rule get_uint32_carries)
  have 2: "mem_read bs (length (cdr_uint32 ?w s)) (length str + 1) = Some (map byte_of_char str @ [0])"
    using carries_read_bytes [OF c [unfolded cdr_string_def]] by simp
  show ?thesis
    unfolding get_string_def 1 using u 2 by (simp add: cdr_string_def)
qed

lemma get_string_list_carries:
  assumes "carries bs (fold cdr_string strs s)" and "length bs < 2 ^ 32"
  shows "get_string_list (length strs) bs (length s) = Some (strs, length (fold cdr_string strs s))"
  using assms(1)
proof (induction strs arbitrary: s)
  case Nil
  show ?case by simp
next
  case (Cons x xs)
  have "carries bs (cdr_string x s)"
    using Cons.prems by (rule carries_prefix) simp
  then have "get_string bs (length s) = Some (x, length (cdr_string x s))"
    using assms(2) by (rule get_string_carries)
  moreover have "get_string_list (length xs) bs (length (cdr_string x s)) =
      Some (xs, length (fold cdr_string xs (cdr_string x s)))"
    using Cons.prems by (intro Cons.IH) simp
  ultimately show ?case by simp
qed

lemma length_fold_cdr_string: "length s + length strs \<le> length (fold cdr_string strs s)"
proof (induction strs arbitrary: s)
  case (Cons x xs)
  have "length s + 1 \<le> length (cdr_string x s)" by (simp add: cdr_string_def length_cdr_uint32)
  with Cons [of "cdr_string x s"] show ?case by simp
qed simp

lemma get_strings_carries:
  assumes c: "carries bs (cdr_strings strs s)" and l: "length bs < 2 ^ 32"
  shows "get_strings bs (length s) = Some (strs, length (cdr_strings strs s))"
proof -
  let ?w = "word_of_nat (length strs) :: u32"
  have "length strs < 2 ^ 32"
    using c l length_fold_cdr_string [of "cdr_uint32 ?w s" strs] by (simp add: carries_def cdr_strings_def)
  then have u: "unat ?w = length strs" by (rule unat_of_nat_u32)
  have "carries bs (cdr_uint32 ?w s)"
    using c by (rule carries_prefix) (simp add: cdr_strings_def)
  then have "get_uint32 bs (length s) = Some (?w, length (cdr_uint32 ?w s))"
    by (rule get_uint32_carries)
  then show ?thesis
    using get_string_list_carries [OF c [unfolded cdr_strings_def] l] u
    by (simp add: get_strings_def cdr_strings_def)
qed

lemma get_doubles_carries:
  assumes c: "carries bs (cdr_doubles (length xs) (Some xs) s)" and l: "length bs < 2 ^ 32"
  shows "get_doubles bs (length s) = Some (xs, length (cdr_doubles (length xs) (Some xs) s))"
proof -
  let ?w = "word_of_nat (length xs) :: u32"
  let ?s1 = "cdr_uint32 ?w s"
  have "length xs < 2 ^ 32"
    using c l by (cases "xs = []") (auto simp: carries_def cdr_doubles_def cdr_hole_def Let_def)
  then have u: "unat ?w = length xs" by (rule unat_of_nat_u32)
  then have z: "?w = 0 \<longleftrightarrow> xs = []" by (metis length_0_conv unat_0 unat_eq_zero)
  have "carries bs ?s1"
    using c by (rule carries_prefix) (auto simp: cdr_doubles_def cdr_align_def Let_def)
  then have 1: "get_uint32 bs (length s) = Some (?w, length ?s1)"
    by (rule get_uint32_carries)
  show ?thesis
  proof (cases "xs = []")
    case True
    then show ?thesis using 1 z by (simp add: get_doubles_def cdr_doubles_def)
  next
    case False
    then have e: "cdr_doubles (length xs) (Some xs) s = cdr_bytes (le64s xs) (cdr_align 8 ?s1)"
      by (simp add: cdr_doubles_def cdr_hole_def cdr_bytes_def Let_def)
    from carries_read_bytes [OF c [unfolded e]]
    have "mem_read bs (length ?s1 + cdr_pad 8 (length ?s1)) (8 * length xs) = Some (le64s xs)" by simp
    then show ?thesis
      using False 1 z u by (simp add: get_doubles_def e words_of_le64s_le64s Let_def)
  qed
qed

lemma cdr_stamp_uint32s:
  "cdr_stamp (Some (sec, nsec)) cdr_header = cdr_uint32 nsec (cdr_uint32 sec cdr_header)"
  by (simp add: cdr_stamp_def cdr_header_def cdr_uint32_def cdr_align_def cdr_bytes_def cdr_hole_def cdr_pad_def)

lemma get_front_carries:
  assumes c: "carries bs (cdr_strings names (cdr_string frame (cdr_stamp (Some st) cdr_header)))"
    and l: "length bs < 2 ^ 32"
  shows "get_front bs = Some (st, frame, names, length (cdr_strings names (cdr_string frame (cdr_stamp (Some st) cdr_header))))"
proof -
  obtain sec nsec where st: "st = (sec, nsec)" by (cases st)
  let ?s1 = "cdr_uint32 sec cdr_header"
  let ?s2 = "cdr_uint32 nsec ?s1"
  have e: "cdr_stamp (Some st) cdr_header = ?s2" unfolding st by (rule cdr_stamp_uint32s)
  have c3: "carries bs (cdr_string frame ?s2)" using c unfolding e by (rule carries_prefix) simp
  have c2: "carries bs ?s2" using c3 by (rule carries_prefix) simp
  have c1: "carries bs ?s1" using c2 by (rule carries_prefix) simp
  have "carries bs cdr_header" using c1 by (rule carries_prefix) simp
  then have h: "mem_read bs 0 4 = Some [0x00, 0x01, 0x00, 0x00]"
    using carries_read [of bs "[]" "[0x00, 0x01, 0x00, 0x00]" "[]"] by (simp add: cdr_header_def numeral_eq_Suc)
  have "length cdr_header = 4" by (simp add: cdr_header_def)
  then show ?thesis
    unfolding e unfolding st
    using h get_uint32_carries [OF c1] get_uint32_carries [OF c2] get_string_carries [OF c3 l]
      get_strings_carries [OF c [unfolded e] l]
    by (simp add: get_front_def)
qed

lemma read_joint_state_carries:
  assumes len: "length ps = length names" "length vs = length names" "length es = length names"
    and c: "carries bs (cdr_joint_state (Some st) frame names (Some ps) (Some vs) (Some es))"
    and l: "length bs < 2 ^ 32"
  shows "read_joint_state bs =
    Some \<lparr> msg_stamp = st, msg_frame_id = frame, msg_name = names,
           msg_position = ps, msg_velocity = vs, msg_effort = es \<rparr>"
proof -
  let ?n = "length names"
  let ?f = "cdr_strings names (cdr_string frame (cdr_stamp (Some st) cdr_header))"
  let ?p = "cdr_doubles ?n (Some ps) ?f"
  let ?v = "cdr_doubles ?n (Some vs) ?p"
  let ?e = "cdr_doubles ?n (Some es) ?v"
  have ce: "carries bs ?e" using c by (simp add: cdr_joint_state_def Let_def)
  have cv: "carries bs ?v" using ce by (rule carries_prefix) simp
  have cp: "carries bs ?p" using cv by (rule carries_prefix) simp
  have cf: "carries bs ?f" using cp by (rule carries_prefix) simp
  show ?thesis
    using get_front_carries [OF cf l] get_doubles_carries [of bs ps ?f] get_doubles_carries [of bs vs ?p]
      get_doubles_carries [of bs es ?v] cp cv ce len l
    by (simp add: read_joint_state_def)
qed

lemma read_joint_command_carries:
  assumes len: "length vs = length names"
    and c: "carries bs (cdr_joint_command (Some st) frame names itf (Some vs))"
    and l: "length bs < 2 ^ 32"
  shows "read_joint_command bs =
    Some \<lparr> cmd_stamp = st, cmd_frame_id = frame, cmd_joint_names = names,
           cmd_interface_name = itf, cmd_values = vs \<rparr>"
proof -
  let ?n = "length names"
  let ?f = "cdr_strings names (cdr_string frame (cdr_stamp (Some st) cdr_header))"
  let ?i = "cdr_string itf ?f"
  let ?v = "cdr_doubles ?n (Some vs) ?i"
  have cv: "carries bs ?v" using c by (simp add: cdr_joint_command_def Let_def)
  have ci: "carries bs ?i" using cv by (rule carries_prefix) simp
  have cf: "carries bs ?f" using ci by (rule carries_prefix) simp
  show ?thesis
    using get_front_carries [OF cf l] get_string_carries [OF ci l] get_doubles_carries [of bs vs ?i] cv len l
    by (simp add: read_joint_command_def)
qed

end
