(* ===== verification/Serialization_Props.thy ===== *)
theory Serialization_Props
  imports Serialization_Proofs Cdr_Reader
begin

text \<open>The properties of \<open>serialization.c\<close>, each with a concrete instance.\<close>

lemma length_joint_state_layout:
  "\<lbrakk>doubles_ok (length names) p; doubles_ok (length names) v; doubles_ok (length names) e; 0 < length names\<rbrakk>
   \<Longrightarrow> length (cdr_joint_state st frame names p v e) = length (cdr_joint_state None frame names None None None)"
  using cdr_joint_state_parts [of names frame] by (auto simp: js_parts_def)

lemma length_joint_command_layout:
  "\<lbrakk>doubles_ok (length names) v; 0 < length names\<rbrakk>
   \<Longrightarrow> length (cdr_joint_command st frame names itf v) = length (cdr_joint_command None frame names itf None)"
  using cdr_joint_command_parts [of names frame itf] by (auto simp: jc_parts_def)

lemma js_written_le:
  "0 < length names \<Longrightarrow> js_written frame names \<le> length (cdr_joint_state None frame names None None None)"
  unfolding js_written_def Let_def cdr_joint_state_def cdr_front_def [symmetric]
  by (rule length_doubles_ge(2))

lemma jc_written_le:
  "0 < length names \<Longrightarrow> jc_written frame names itf \<le> length (cdr_joint_command None frame names itf None)"
  unfolding jc_written_def Let_def cdr_joint_command_def cdr_front_def [symmetric]
  by (rule length_doubles_ge(2))

lemma js_layout_payload:
  "length (cdr_joint_state None frame names None None None) < 2 ^ 32 \<Longrightarrow>
   unat (js_payload_size (js_layout frame names)) = length (cdr_joint_state None frame names None None None)"
  by (simp add: js_layout_def Let_def unat_of_nat_32)

lemma jc_layout_payload:
  "length (cdr_joint_command None frame names itf None) < 2 ^ 32 \<Longrightarrow>
   unat (jc_payload_size (jc_layout frame names itf)) = length (cdr_joint_command None frame names itf None)"
  by (simp add: jc_layout_def Let_def unat_of_nat_32)

section \<open>Initialisation\<close>

text \<open>\<open>zcdr_init_joint_state\<close> either lays exactly the CDR template of the message over the
  buffer and returns the offsets of its fields, leaving every other byte of the buffer as it was, or
  writes outside of the buffer, and it does the latter exactly when the buffer is shorter than the
  end of the last array count.\<close>

theorem zcdr_init_joint_state_exact:
  assumes "0 < unat num_joints" and "unat num_joints \<le> length joint_names"
    and "length (cdr_joint_state None (opt_chars frame_id) (joint_chars num_joints joint_names) None None None) < 2 ^ 32"
  shows "zcdr_init_joint_state frame_id joint_names num_joints out_buffer =
    (if js_written (opt_chars frame_id) (joint_chars num_joints joint_names) \<le> length out_buffer
     then Some (js_layout (opt_chars frame_id) (joint_chars num_joints joint_names),
                overlay (cdr_joint_state None (opt_chars frame_id) (joint_chars num_joints joint_names) None None None)
                        out_buffer)
     else None)"
  using assms by (rule zcdr_init_joint_state_eq)

theorem zcdr_init_joint_state_exact_witness:
  "zcdr_init_joint_state (Some ''b'') [''j''] 1 (replicate 4 0) = None \<and>
   zcdr_init_joint_state (Some ''b'') [''j''] 1 (replicate 80 0) =
     Some (js_layout ''b'' [''j''],
           overlay (cdr_joint_state None ''b'' [''j''] None None None) (replicate 80 0))"
proof -
  have e: "opt_chars (Some ''b'') = ''b''" "joint_chars 1 [''j''] = [''j'']"
    by code_simp+
  have h: "length (cdr_joint_state None ''b'' [''j''] None None None) = 76"
    "js_written ''b'' [''j''] = 64"
    by code_simp+
  show ?thesis
    using zcdr_init_joint_state_exact [of 1 "[''j'']" "Some ''b''" "replicate 4 0"]
      zcdr_init_joint_state_exact [of 1 "[''j'']" "Some ''b''" "replicate 80 0"] h
    by (simp add: e)
qed

text \<open>\<open>zcdr_init_joint_command\<close> either lays exactly the CDR template of the message over the
  buffer and returns the offset of its values, or writes outside of the buffer, the latter exactly
  when the buffer is shorter than the end of the value count.\<close>

theorem zcdr_init_joint_command_exact:
  assumes "0 < unat num_joints" and "unat num_joints \<le> length joint_names"
    and "length (cdr_joint_command None (opt_chars frame_id) (joint_chars num_joints joint_names)
                   (opt_chars interface_name) None) < 2 ^ 32"
  shows "zcdr_init_joint_command frame_id joint_names num_joints interface_name out_buffer =
    (if jc_written (opt_chars frame_id) (joint_chars num_joints joint_names) (opt_chars interface_name)
          \<le> length out_buffer
     then Some (jc_layout (opt_chars frame_id) (joint_chars num_joints joint_names) (opt_chars interface_name),
                overlay (cdr_joint_command None (opt_chars frame_id) (joint_chars num_joints joint_names)
                           (opt_chars interface_name) None) out_buffer)
     else None)"
  using assms by (rule zcdr_init_joint_command_eq)

lemma one_joint [simp]: "opt_chars (Some ''b'') = ''b''" "opt_chars None = []" "opt_chars (Some ''v'') = ''v''"
    "joint_chars 1 [''j''] = [''j'']"
  by code_simp+

lemma one_joint_lengths [simp]:
  "length (cdr_joint_state None ''b'' [''j''] None None None) = 76" "js_written ''b'' [''j''] = 64"
  "length (cdr_joint_command None ''b'' [''j''] ''v'' None) = 52" "jc_written ''b'' [''j''] ''v'' = 44"
  by code_simp+

theorem zcdr_init_joint_command_exact_witness:
  "zcdr_init_joint_command (Some ''b'') [''j''] 1 (Some ''v'') (replicate 43 0) = None \<and>
   zcdr_init_joint_command (Some ''b'') [''j''] 1 (Some ''v'') (replicate 52 0) =
     Some (jc_layout ''b'' [''j''] ''v'',
           overlay (cdr_joint_command None ''b'' [''j''] ''v'' None) (replicate 52 0))"
  using zcdr_init_joint_command_exact [of 1 "[''j'']" "Some ''b''" "Some ''v''" "replicate 43 0"]
    zcdr_init_joint_command_exact [of 1 "[''j'']" "Some ''b''" "Some ''v''" "replicate 52 0"]
  by simp

section \<open>Serialisation\<close>

text \<open>C5: after \<open>zcdr_init_joint_state\<close> on a buffer with room for the payload,
  \<open>zcdr_serialize_joint_state\<close> with a stamp and one double per joint in each array succeeds, and a
  ROS 2 reader that knows neither the frame id nor the joint names reads the first
  \<open>payload_size\<close> bytes as exactly that message.\<close>

theorem zcdr_joint_state_ros2_reads:
  assumes n: "0 < unat num_joints" "unat num_joints \<le> length joint_names"
    and len: "length ps = unat num_joints" "length vs = unat num_joints" "length es = unat num_joints"
    and fits: "length (cdr_joint_state None (opt_chars frame_id) (joint_chars num_joints joint_names) None None None)
        \<le> length out_buffer"
      "length out_buffer < 2 ^ 32"
  shows "\<exists>ctx buf wire. zcdr_init_joint_state frame_id joint_names num_joints out_buffer = Some (ctx, buf) \<and>
    zcdr_serialize_joint_state ctx sec nsec (Some ps) (Some vs) (Some es) buf = Some wire \<and>
    read_joint_state (take (unat (js_payload_size ctx)) wire) =
      Some \<lparr> msg_stamp = (sec, nsec), msg_frame_id = opt_chars frame_id,
             msg_name = joint_chars num_joints joint_names,
             msg_position = ps, msg_velocity = vs, msg_effort = es \<rparr>"
proof -
  let ?F = "opt_chars frame_id" and ?N = "joint_chars num_joints joint_names"
  have N: "length ?N = unat num_joints" using n(2) by (rule length_joint_chars)
  then have n0: "0 < length ?N" using n(1) by simp
  let ?full = "cdr_joint_state None ?F ?N None None None"
  let ?msg = "cdr_joint_state (Some (sec, nsec)) ?F ?N (Some ps) (Some vs) (Some es)"
  have L: "length ?full < 2 ^ 32" using fits by simp
  have init: "zcdr_init_joint_state frame_id joint_names num_joints out_buffer =
      Some (js_layout ?F ?N, overlay ?full out_buffer)"
    using zcdr_init_joint_state_eq [OF n L] js_written_le [OF n0, of ?F] fits(1) by simp
  have ser: "zcdr_serialize_joint_state (js_layout ?F ?N) sec nsec (Some ps) (Some vs) (Some es)
      (overlay ?full out_buffer) = Some (overlay ?msg out_buffer)"
    using zcdr_serialize_joint_state_overlay [OF n0, of "Some ps" "Some vs" "Some es" None None None ?F out_buffer sec nsec None]
      len N fits by simp
  have lm: "length ?msg = length ?full"
    using len N n0 by (intro length_joint_state_layout) simp_all
  have "carries (take (length ?full) (overlay ?msg out_buffer)) ?msg"
    using lm fits(1) by (intro carries_take carries_overlay) simp_all
  then have "read_joint_state (take (length ?full) (overlay ?msg out_buffer)) =
      Some \<lparr> msg_stamp = (sec, nsec), msg_frame_id = ?F, msg_name = ?N,
             msg_position = ps, msg_velocity = vs, msg_effort = es \<rparr>"
    using len N fits by (intro read_joint_state_carries) simp_all
  with init ser js_layout_payload [OF L] show ?thesis by simp
qed

theorem zcdr_joint_state_ros2_reads_witness:
  "\<exists>ctx buf wire. zcdr_init_joint_state (Some ''b'') [''j''] 1 (replicate 100 7) = Some (ctx, buf) \<and>
    zcdr_serialize_joint_state ctx 12 34 (Some [0x3FF4000000000000]) (Some [5]) (Some [6]) buf = Some wire \<and>
    read_joint_state (take (unat (js_payload_size ctx)) wire) =
      Some \<lparr> msg_stamp = (12, 34), msg_frame_id = ''b'', msg_name = [''j''],
             msg_position = [0x3FF4000000000000], msg_velocity = [5], msg_effort = [6] \<rparr>"
  using zcdr_joint_state_ros2_reads [of 1 "[''j'']" "[0x3FF4000000000000]" "[5]" "[6]" "Some ''b''" "replicate 100 7" 12 34]
  by simp

text \<open>a later \<open>zcdr_serialize_joint_state\<close> call on the same buffer replaces the stamp and the
  arrays it is given, keeps the arrays for which it is given a null pointer, and changes nothing
  else.\<close>

theorem zcdr_serialize_joint_state_update:
  assumes "0 < length names"
    and "doubles_ok (length names) pos" "doubles_ok (length names) vel" "doubles_ok (length names) eff"
    and "doubles_ok (length names) p" "doubles_ok (length names) v" "doubles_ok (length names) e"
    and "length (cdr_joint_state None frame names None None None) \<le> length buf" "length buf < 2 ^ 32"
  shows "zcdr_serialize_joint_state (js_layout frame names) sec nsec pos vel eff
           (overlay (cdr_joint_state st frame names p v e) buf) =
    Some (overlay (cdr_joint_state (Some (sec, nsec)) frame names (patch pos p) (patch vel v) (patch eff e)) buf)"
  using assms by (rule zcdr_serialize_joint_state_overlay)

theorem zcdr_serialize_joint_state_update_witness:
  "zcdr_serialize_joint_state (js_layout ''b'' [''j'']) 9 8 (Some [3]) None None
      (overlay (cdr_joint_state (Some (1, 2)) ''b'' [''j''] (Some [4]) (Some [5]) None) (replicate 90 0)) =
   Some (overlay (cdr_joint_state (Some (9, 8)) ''b'' [''j''] (Some [3]) (Some [5]) None) (replicate 90 0))"
  using zcdr_serialize_joint_state_update [of "[''j'']" "Some [3]" None None "Some [4]" "Some [5]" None "''b''"
      "replicate 90 0" 9 8 "Some (1, 2)"] by simp

section \<open>Deserialisation\<close>

text \<open>C6: \<open>zcdr_deserialize_joint_command\<close>, with the context for its frame id, joint names and
  interface name, reads from every payload that encodes a command with those names, whatever its
  padding bytes, exactly the stamp and the values, into the outputs that are not null.\<close>

theorem zcdr_joint_command_reads_ros2:
  assumes n: "0 < unat num_joints" "unat num_joints \<le> length joint_names"
    and init: "zcdr_init_joint_command frame_id joint_names num_joints interface_name scratch = Some (ctx, scratch')"
    and c: "carries payload (cdr_joint_command (Some (sec, nsec)) (opt_chars frame_id)
              (joint_chars num_joints joint_names) (opt_chars interface_name) (Some vs))"
    and len: "length vs = unat num_joints" "length payload < 2 ^ 32"
    and size: "buffer_size = word_of_nat (length payload)"
    and room: "room_for (unat num_joints) (out_values out)"
  shows "zcdr_deserialize_joint_command ctx payload buffer_size out =
    Some (True, \<lparr> out_cmd_sec = map_option (\<lambda>_. sec) (out_cmd_sec out),
                  out_cmd_nsec = map_option (\<lambda>_. nsec) (out_cmd_nsec out),
                  out_values = store_doubles vs (out_values out) \<rparr>)"
proof -
  let ?F = "opt_chars frame_id" and ?N = "joint_chars num_joints joint_names" and ?I = "opt_chars interface_name"
  have N: "length ?N = unat num_joints" using n(2) by (rule length_joint_chars)
  then have n0: "0 < length ?N" using n(1) by simp
  have le: "length (cdr_joint_command None ?F ?N ?I None) \<le> length payload"
    using c length_joint_command_layout [OF _ n0, of "Some vs"] len N by (simp add: carries_def)
  then have L: "length (cdr_joint_command None ?F ?N ?I None) < 2 ^ 32" using len(2) by simp
  have ctx: "ctx = jc_layout ?F ?N ?I"
    using init zcdr_init_joint_command_eq [OF n L] by (auto split: if_splits)
  have "unat buffer_size = length payload" unfolding size using len(2) by (rule unat_of_nat_32)
  then have "jc_payload_size (jc_layout ?F ?N ?I) \<le> buffer_size"
    using jc_layout_payload [OF L] le by (simp add: word_le_nat_alt)
  then show ?thesis
    unfolding ctx using n0 len(1) c len(2) room N by (intro zcdr_deserialize_joint_command_carries) simp_all
qed

theorem zcdr_joint_command_reads_ros2_witness:
  "\<exists>ctx scratch'. zcdr_init_joint_command (Some ''b'') [''j''] 1 (Some ''v'') (replicate 60 0) = Some (ctx, scratch') \<and>
    zcdr_deserialize_joint_command ctx
      (overlay (cdr_joint_command (Some (1, 2)) ''b'' [''j''] ''v'' (Some [42])) (replicate 52 0xAA)) 52
      \<lparr> out_cmd_sec = Some 0, out_cmd_nsec = None, out_values = Some [0, 7] \<rparr> =
    Some (True, \<lparr> out_cmd_sec = Some 1, out_cmd_nsec = None, out_values = Some [42, 7] \<rparr>)"
proof -
  let ?p = "overlay (cdr_joint_command (Some (1, 2)) ''b'' [''j''] ''v'' (Some [42])) (replicate 52 0xAA)"
  have init: "zcdr_init_joint_command (Some ''b'') [''j''] 1 (Some ''v'') (replicate 60 0) =
      Some (jc_layout ''b'' [''j''] ''v'',
            overlay (cdr_joint_command None ''b'' [''j''] ''v'' None) (replicate 60 0))"
    using zcdr_init_joint_command_eq [of 1 "[''j'']" "Some ''b''" "Some ''v''" "replicate 60 0"] by simp
  have "length (cdr_joint_command (Some (1, 2)) ''b'' [''j''] ''v'' (Some [42])) = 52"
    using length_joint_command_layout [of "[''j'']" "Some [42]"] by simp
  then have c: "carries ?p (cdr_joint_command (Some (1, 2)) ''b'' [''j''] ''v'' (Some [42]))"
    by (intro carries_overlay) simp
  show ?thesis
    using zcdr_joint_command_reads_ros2 [OF _ _ init, of ?p 1 2 "[42]" 52
        "\<lparr> out_cmd_sec = Some 0, out_cmd_nsec = None, out_values = Some [0, 7] \<rparr>"] c init
    by (simp add: store_doubles_def room_for_def)
qed

text \<open>\<open>zcdr_deserialize_joint_state\<close> reads from every payload that encodes a joint state
  with the frame id and joint names of its context exactly the stamp and the three arrays.\<close>

theorem zcdr_joint_state_reads_ros2:
  assumes n: "0 < unat num_joints" "unat num_joints \<le> length joint_names"
    and init: "zcdr_init_joint_state frame_id joint_names num_joints scratch = Some (ctx, scratch')"
    and c: "carries payload (cdr_joint_state (Some (sec, nsec)) (opt_chars frame_id)
              (joint_chars num_joints joint_names) (Some ps) (Some vs) (Some es))"
    and len: "length ps = unat num_joints" "length vs = unat num_joints" "length es = unat num_joints"
      "length payload < 2 ^ 32"
    and size: "buffer_size = word_of_nat (length payload)"
    and room: "room_for (unat num_joints) (out_positions out)" "room_for (unat num_joints) (out_velocities out)"
      "room_for (unat num_joints) (out_efforts out)"
  shows "zcdr_deserialize_joint_state ctx payload buffer_size out =
    Some (True, \<lparr> out_sec = map_option (\<lambda>_. sec) (out_sec out), out_nsec = map_option (\<lambda>_. nsec) (out_nsec out),
                  out_positions = store_doubles ps (out_positions out),
                  out_velocities = store_doubles vs (out_velocities out),
                  out_efforts = store_doubles es (out_efforts out) \<rparr>)"
proof -
  let ?F = "opt_chars frame_id" and ?N = "joint_chars num_joints joint_names"
  have N: "length ?N = unat num_joints" using n(2) by (rule length_joint_chars)
  then have n0: "0 < length ?N" using n(1) by simp
  have le: "length (cdr_joint_state None ?F ?N None None None) \<le> length payload"
    using c length_joint_state_layout [OF _ _ _ n0, of "Some ps" "Some vs" "Some es"] len N
    by (simp add: carries_def)
  then have L: "length (cdr_joint_state None ?F ?N None None None) < 2 ^ 32" using len(4) by simp
  have ctx: "ctx = js_layout ?F ?N"
    using init zcdr_init_joint_state_eq [OF n L] by (auto split: if_splits)
  have "unat buffer_size = length payload" unfolding size using len(4) by (rule unat_of_nat_32)
  then have "js_payload_size (js_layout ?F ?N) \<le> buffer_size"
    using js_layout_payload [OF L] le by (simp add: word_le_nat_alt)
  then show ?thesis
    unfolding ctx using n0 len c room N by (intro zcdr_deserialize_joint_state_carries) simp_all
qed

theorem zcdr_joint_state_reads_ros2_witness:
  "\<exists>ctx scratch'. zcdr_init_joint_state (Some ''b'') [''j''] 1 (replicate 76 0) = Some (ctx, scratch') \<and>
    zcdr_deserialize_joint_state ctx
      (overlay (cdr_joint_state (Some (1, 2)) ''b'' [''j''] (Some [42]) (Some [43]) (Some [44])) (replicate 76 0xAA)) 76
      \<lparr> out_sec = None, out_nsec = Some 0, out_positions = Some [0], out_velocities = None, out_efforts = Some [1] \<rparr> =
    Some (True, \<lparr> out_sec = None, out_nsec = Some 2, out_positions = Some [42], out_velocities = None,
                  out_efforts = Some [44] \<rparr>)"
proof -
  let ?m = "cdr_joint_state (Some (1, 2)) ''b'' [''j''] (Some [42]) (Some [43]) (Some [44])"
  have init: "zcdr_init_joint_state (Some ''b'') [''j''] 1 (replicate 76 0) =
      Some (js_layout ''b'' [''j''],
            overlay (cdr_joint_state None ''b'' [''j''] None None None) (replicate 76 0))"
    using zcdr_init_joint_state_eq [of 1 "[''j'']" "Some ''b''" "replicate 76 0"] by simp
  have "length ?m = 76"
    using length_joint_state_layout [of "[''j'']" "Some [42]" "Some [43]" "Some [44]"] by simp
  then have c: "carries (overlay ?m (replicate 76 0xAA)) ?m"
    by (intro carries_overlay) simp
  show ?thesis
    using zcdr_joint_state_reads_ros2 [OF _ _ init, of "overlay ?m (replicate 76 0xAA)" 1 2 "[42]" "[43]" "[44]" 76
        "\<lparr> out_sec = None, out_nsec = Some 0, out_positions = Some [0], out_velocities = None, out_efforts = Some [1] \<rparr>"]
      c init
    by (simp add: store_doubles_def room_for_def)
qed

text \<open>
  Whatever bytes arrive, a context made by \<open>init\<close> only makes deserialisation read inside of the
  first \<open>payload_size\<close> bytes.
\<close>

lemma fetch_uint32_total: "unat off + 4 \<le> length buf \<Longrightarrow> \<exists>v. fetch_uint32 buf off out = Some v"
  by (cases out) (simp_all add: fetch_uint32_def mem_read_ok)

lemma fetch_doubles_total:
  "\<lbrakk>unat (n * 8) = 8 * k; unat off + 8 * k \<le> length buf; room_for k out\<rbrakk> \<Longrightarrow> \<exists>v. fetch_doubles buf off n out = Some v"
  by (cases out) (simp_all add: fetch_doubles_def mem_read_ok room_for_def Let_def)

lemma zcdr_deserialize_joint_command_total:
  assumes n: "0 < length names"
    and L: "length (cdr_joint_command None frame names itf None) < 2 ^ 32"
    and size: "unat buffer_size \<le> length buf" and room: "room_for (length names) (out_values out)"
  shows "if unat buffer_size < length (cdr_joint_command None frame names itf None)
    then zcdr_deserialize_joint_command (jc_layout frame names itf) buf buffer_size out = Some (False, out)
    else \<exists>out'. zcdr_deserialize_joint_command (jc_layout frame names itf) buf buffer_size out = Some (True, out')"
proof -
  let ?n = "length names"
  obtain g1 where "jc_parts frame names itf g1"
    using cdr_joint_command_parts [OF n] by blast
  note parts = this [unfolded jc_parts_def, THEN conjunct1, rule_format]
    and layout = this [unfolded jc_parts_def, THEN conjunct2]
  let ?p = "12 + length g1 + 8 * ?n"
  have len: "length (cdr_joint_command None frame names itf None) = ?p" by (simp add: parts)
  have less: "(buffer_size < word_of_nat ?p) = (unat buffer_size < ?p)"
    using L unat_of_nat_32 [of ?p] unfolding len by (simp only: word_less_nat_alt)
  show ?thesis
  proof (cases "unat buffer_size < ?p")
    case True
    then show ?thesis
      by (simp only: zcdr_deserialize_joint_command_def layout zcdr_joint_command_ctx.simps less len if_True)
  next
    case False
    have 1: "\<exists>v. fetch_uint32 buf 4 (out_cmd_sec out) = Some v" "\<exists>v. fetch_uint32 buf (4 + 4) (out_cmd_nsec out) = Some v"
      using False size by (intro fetch_uint32_total; simp)+
    have 2: "\<exists>v. fetch_doubles buf (word_of_nat (12 + length g1)) (word_of_nat ?n) (out_values out) = Some v"
      using False size room L unat_8_times [of ?n] unat_of_nat_32 [of "12 + length g1"] len
      by (intro fetch_doubles_total [where k = ?n]) auto
    from 1 2 False show ?thesis
      unfolding zcdr_deserialize_joint_command_def layout zcdr_joint_command_ctx.simps less len
      by (elim exE) (simp del: of_nat_add)
  qed
qed

text \<open>\<open>zcdr_deserialize_joint_command\<close> is memory safe on every received payload: with a
  context made by \<open>zcdr_init_joint_command\<close> and a buffer of at least the stated size it never reads
  outside of the buffer, whatever the bytes; it returns false exactly for a size below
  \<open>payload_size\<close> and then leaves all outputs untouched.\<close>

theorem zcdr_deserialize_joint_command_safe:
  assumes n: "0 < unat num_joints" "unat num_joints \<le> length joint_names"
    and L: "length (cdr_joint_command None (opt_chars frame_id) (joint_chars num_joints joint_names)
                (opt_chars interface_name) None) < 2 ^ 32"
    and init: "zcdr_init_joint_command frame_id joint_names num_joints interface_name scratch = Some (ctx, scratch')"
    and size: "unat buffer_size \<le> length in_buffer" and room: "room_for (unat num_joints) (out_values out)"
  shows "if buffer_size < jc_payload_size ctx
    then zcdr_deserialize_joint_command ctx in_buffer buffer_size out = Some (False, out)
    else \<exists>out'. zcdr_deserialize_joint_command ctx in_buffer buffer_size out = Some (True, out')"
proof -
  let ?F = "opt_chars frame_id" and ?N = "joint_chars num_joints joint_names" and ?I = "opt_chars interface_name"
  have N: "length ?N = unat num_joints" using n(2) by (rule length_joint_chars)
  then have n0: "0 < length ?N" using n(1) by simp
  have ctx: "ctx = jc_layout ?F ?N ?I"
    using init zcdr_init_joint_command_eq [OF n L] by (auto split: if_splits)
  have "(buffer_size < jc_payload_size ctx) = (unat buffer_size < length (cdr_joint_command None ?F ?N ?I None))"
    unfolding ctx by (simp add: word_less_nat_alt jc_layout_payload [OF L])
  then show ?thesis
    using zcdr_deserialize_joint_command_total [OF n0 L size, of out] room N unfolding ctx by simp
qed

theorem zcdr_deserialize_joint_command_safe_witness:
  "\<exists>ctx scratch' out'. zcdr_init_joint_command (Some ''b'') [''j''] 1 (Some ''v'') (replicate 60 0) = Some (ctx, scratch') \<and>
    zcdr_deserialize_joint_command ctx (replicate 52 0xFF) 51
      \<lparr> out_cmd_sec = Some 3, out_cmd_nsec = None, out_values = Some [7] \<rparr> =
      Some (False, \<lparr> out_cmd_sec = Some 3, out_cmd_nsec = None, out_values = Some [7] \<rparr>) \<and>
    zcdr_deserialize_joint_command ctx (replicate 52 0xFF) 52
      \<lparr> out_cmd_sec = Some 3, out_cmd_nsec = None, out_values = Some [7] \<rparr> = Some (True, out')"
proof -
  let ?o = "\<lparr> out_cmd_sec = Some 3, out_cmd_nsec = None, out_values = Some [7] \<rparr>"
  have init: "zcdr_init_joint_command (Some ''b'') [''j''] 1 (Some ''v'') (replicate 60 0) =
      Some (jc_layout ''b'' [''j''] ''v'',
            overlay (cdr_joint_command None ''b'' [''j''] ''v'' None) (replicate 60 0))"
    using zcdr_init_joint_command_eq [of 1 "[''j'']" "Some ''b''" "Some ''v''" "replicate 60 0"] by simp
  have p: "jc_payload_size (jc_layout ''b'' [''j''] ''v'') = 52"
    by (simp add: jc_layout_def Let_def)
  show ?thesis
    using zcdr_deserialize_joint_command_safe [OF _ _ _ init, of 51 "replicate 52 0xFF" ?o]
      zcdr_deserialize_joint_command_safe [OF _ _ _ init, of 52 "replicate 52 0xFF" ?o] init
    by (simp add: p room_for_def)
qed

end
