(* ===== verification/Codecs.thy ===== *)
theory Codecs
  imports Serialization_Props
begin

text \<open>
  The codecs of \<open>zenbedded_rcl/include/zenbedded_rcl/codecs.hpp\<close>. A codec class, which is a template
  argument of the client, is a record of its static member functions. The contract that the file
  states in prose is stated as two locales, one for a codec used on the state channel and one for
  the command channel; \<open>RawCodec\<close>, \<open>JointStateCodec\<close> and \<open>JointCommandCodec\<close> are interpretations.
\<close>

section \<open>The Codec concept\<close>

record ('c, 'p, 'v) state_codec_ops =
  sc_init :: "'p \<Rightarrow> byte list \<Rightarrow> ('c \<times> byte list) option"
  sc_payload_size :: "'c \<Rightarrow> size_t"
  sc_write :: "'c \<Rightarrow> 'v \<Rightarrow> byte list \<Rightarrow> byte list option"

record ('c, 'p, 'v) command_codec_ops =
  cc_init :: "'p \<Rightarrow> byte list \<Rightarrow> ('c \<times> byte list) option"
  cc_payload_size :: "'c \<Rightarrow> size_t"
  cc_read :: "'c \<Rightarrow> byte list \<Rightarrow> size_t \<Rightarrow> 'v \<Rightarrow> (bool \<times> 'v) option"

text \<open>
  \<open>fits p k\<close>: the parameters are usable and their layout fits into \<open>k\<close> bytes. \<open>init\<close> may leave a
  template in the slot (\<open>ready\<close>), which \<open>write\<close> patches; what is on the wire after a complete
  write depends on the parameters and the value only, not on what the slot held before.
\<close>

locale state_codec =
  fixes SC :: "('c, 'p, 'v) state_codec_ops"
    and fits :: "'p \<Rightarrow> nat \<Rightarrow> bool"
    and ctx_of :: "'p \<Rightarrow> 'c"
    and ready :: "'p \<Rightarrow> byte list \<Rightarrow> bool"
    and complete :: "'p \<Rightarrow> 'v \<Rightarrow> bool"
    and enc :: "'p \<Rightarrow> 'v \<Rightarrow> byte list"
  assumes init_ready: "fits p k \<Longrightarrow>
      \<exists>buf. sc_init SC p (replicate k 0) = Some (ctx_of p, buf) \<and> ready p buf \<and> length buf = k"
    and size_fits: "fits p k \<Longrightarrow> unat (sc_payload_size SC (ctx_of p)) \<le> k"
    and write_ready: "ready p buf \<Longrightarrow> complete p v \<Longrightarrow>
      \<exists>buf'. sc_write SC (ctx_of p) v buf = Some buf' \<and> ready p buf' \<and> length buf' = length buf \<and>
        take (unat (sc_payload_size SC (ctx_of p))) buf' = enc p v"

text \<open>\<open>encodes p v buf\<close>: the bytes are an encoding of \<open>v\<close>; \<open>store v out\<close>: \<open>out\<close> after reading \<open>v\<close> into it.\<close>

locale command_codec =
  fixes CC :: "('c, 'p, 'v) command_codec_ops"
    and fits :: "'p \<Rightarrow> nat \<Rightarrow> bool"
    and ctx_of :: "'p \<Rightarrow> 'c"
    and room :: "'p \<Rightarrow> 'v \<Rightarrow> bool"
    and encodes :: "'p \<Rightarrow> 'v \<Rightarrow> byte list \<Rightarrow> bool"
    and store :: "'v \<Rightarrow> 'v \<Rightarrow> 'v"
  assumes init_ctx: "fits p k \<Longrightarrow> length scratch = k \<Longrightarrow> \<exists>s. cc_init CC p scratch = Some (ctx_of p, s)"
    and size_fits: "fits p k \<Longrightarrow> unat (cc_payload_size CC (ctx_of p)) \<le> k"
    and read_total: "fits p k \<Longrightarrow> room p out \<Longrightarrow> unat n \<le> length buf \<Longrightarrow>
      \<exists>out'. cc_read CC (ctx_of p) buf n out = Some (\<not> n < cc_payload_size CC (ctx_of p), out')"
    and read_encoded: "fits p k \<Longrightarrow> room p out \<Longrightarrow> unat n \<le> length buf \<Longrightarrow> length buf < 2 ^ 32 \<Longrightarrow>
      encodes p v (take (unat n) buf) \<Longrightarrow> \<not> n < cc_payload_size CC (ctx_of p) \<Longrightarrow>
      cc_read CC (ctx_of p) buf n out = Some (True, store v out)"

section \<open>RawCodec\<close>

text \<open>A trivially copyable \<open>T\<close> is its object representation, a list of \<open>sizeof(T)\<close> bytes.\<close>

definition raw_init :: "unit \<Rightarrow> byte list \<Rightarrow> (unit \<times> byte list) option" where
  "raw_init p buf = Some ((), buf)"

definition raw_write :: "size_t \<Rightarrow> unit \<Rightarrow> byte list \<Rightarrow> byte list \<Rightarrow> byte list option" where
  "raw_write sizeof_T ctx v buf = do { bs \<leftarrow> mem_read v 0 (unat sizeof_T); mem_write buf 0 bs }"

definition raw_read :: "size_t \<Rightarrow> unit \<Rightarrow> byte list \<Rightarrow> size_t \<Rightarrow> byte list \<Rightarrow> (bool \<times> byte list) option" where
  "raw_read sizeof_T ctx buf sz out =
     (if sz < sizeof_T then Some (False, out)
      else do { bs \<leftarrow> mem_read buf 0 (unat sizeof_T); out \<leftarrow> mem_write out 0 bs; Some (True, out) })"

definition RawCodec_state :: "size_t \<Rightarrow> (unit, unit, byte list) state_codec_ops" where
  "RawCodec_state sizeof_T =
     \<lparr> sc_init = raw_init, sc_payload_size = (\<lambda>ctx. sizeof_T), sc_write = raw_write sizeof_T \<rparr>"

definition RawCodec_command :: "size_t \<Rightarrow> (unit, unit, byte list) command_codec_ops" where
  "RawCodec_command sizeof_T =
     \<lparr> cc_init = raw_init, cc_payload_size = (\<lambda>ctx. sizeof_T), cc_read = raw_read sizeof_T \<rparr>"

definition raw_fits :: "size_t \<Rightarrow> unit \<Rightarrow> nat \<Rightarrow> bool" where
  "raw_fits sizeof_T p k \<longleftrightarrow> unat sizeof_T \<le> k"

definition raw_object :: "size_t \<Rightarrow> unit \<Rightarrow> byte list \<Rightarrow> bool" where
  "raw_object sizeof_T p v \<longleftrightarrow> length v = unat sizeof_T"

definition raw_encodes :: "size_t \<Rightarrow> unit \<Rightarrow> byte list \<Rightarrow> byte list \<Rightarrow> bool" where
  "raw_encodes sizeof_T p v buf \<longleftrightarrow> length v = unat sizeof_T \<and> take (unat sizeof_T) buf = v"

interpretation raw_state: state_codec "RawCodec_state sizeof_T" "raw_fits sizeof_T" "\<lambda>p. ()"
    "\<lambda>p buf. unat sizeof_T \<le> length buf" "raw_object sizeof_T" "\<lambda>p v. v"
  by unfold_locales
    (auto simp: RawCodec_state_def raw_fits_def raw_init_def raw_write_def raw_object_def mem_simps)

interpretation raw_command: command_codec "RawCodec_command sizeof_T" "raw_fits sizeof_T" "\<lambda>p. ()"
    "raw_object sizeof_T" "raw_encodes sizeof_T" "\<lambda>v out. v"
proof unfold_locales
  fix p :: unit and k :: nat and out buf v :: "byte list" and n :: size_t
  assume a: "raw_object sizeof_T p out" "unat n \<le> length buf"
  show "\<exists>out'. cc_read (RawCodec_command sizeof_T) () buf n out =
      Some (\<not> n < cc_payload_size (RawCodec_command sizeof_T) (), out')"
    using a by (auto simp: RawCodec_command_def raw_read_def raw_object_def word_less_nat_alt mem_simps)
  assume "raw_encodes sizeof_T p v (take (unat n) buf)" and "\<not> n < cc_payload_size (RawCodec_command sizeof_T) ()"
  then show "cc_read (RawCodec_command sizeof_T) () buf n out = Some (True, v)"
    using a by (auto simp: RawCodec_command_def raw_read_def raw_object_def raw_encodes_def word_less_nat_alt
        mem_simps min_def)
qed (auto simp: RawCodec_command_def raw_fits_def raw_init_def)

section \<open>JointStateCodec\<close>

record js_params =
  jsp_frame_id :: "string option"
  jsp_joint_names :: "string list"
  jsp_num_joints :: u32

record js_value =
  jsv_stamp_sec :: i32
  jsv_stamp_nanosec :: u32
  jsv_positions :: "u64 list option"
  jsv_velocities :: "u64 list option"
  jsv_efforts :: "u64 list option"

definition JointStateCodec :: "(zcdr_joint_state_ctx, js_params, js_value) state_codec_ops" where
  "JointStateCodec =
     \<lparr> sc_init = (\<lambda>p buf. zcdr_init_joint_state (jsp_frame_id p) (jsp_joint_names p) (jsp_num_joints p) buf),
       sc_payload_size = js_payload_size,
       sc_write = (\<lambda>ctx v buf. zcdr_serialize_joint_state ctx (jsv_stamp_sec v) (jsv_stamp_nanosec v)
         (jsv_positions v) (jsv_velocities v) (jsv_efforts v) buf) \<rparr>"

text \<open>What the parameters denote, and the stream of a message with them.\<close>

definition js_frame :: "js_params \<Rightarrow> string" where
  "js_frame p = opt_chars (jsp_frame_id p)"

definition js_names :: "js_params \<Rightarrow> string list" where
  "js_names p = joint_chars (jsp_num_joints p) (jsp_joint_names p)"

definition js_size :: "js_params \<Rightarrow> nat" where
  "js_size p = length (cdr_joint_state None (js_frame p) (js_names p) None None None)"

definition js_fits :: "js_params \<Rightarrow> nat \<Rightarrow> bool" where
  "js_fits p k \<longleftrightarrow> 0 < unat (jsp_num_joints p) \<and> unat (jsp_num_joints p) \<le> length (jsp_joint_names p) \<and>
     js_size p \<le> k \<and> k < 2 ^ 32"

definition js_ready :: "js_params \<Rightarrow> byte list \<Rightarrow> bool" where
  "js_ready p buf \<longleftrightarrow> js_fits p (length buf) \<and>
     (\<exists>st ps vs es. doubles_ok (length (js_names p)) ps \<and> doubles_ok (length (js_names p)) vs \<and>
        doubles_ok (length (js_names p)) es \<and>
        buf = overlay (cdr_joint_state st (js_frame p) (js_names p) ps vs es) (replicate (length buf) 0))"

definition js_complete :: "js_params \<Rightarrow> js_value \<Rightarrow> bool" where
  "js_complete p v \<longleftrightarrow> (\<forall>xs \<in> {jsv_positions v, jsv_velocities v, jsv_efforts v}.
     \<exists>ds. xs = Some ds \<and> length ds = unat (jsp_num_joints p))"

definition js_wire :: "js_params \<Rightarrow> js_value \<Rightarrow> byte list" where
  "js_wire p v = overlay (cdr_joint_state (Some (jsv_stamp_sec v, jsv_stamp_nanosec v)) (js_frame p) (js_names p)
       (jsv_positions v) (jsv_velocities v) (jsv_efforts v)) (replicate (js_size p) 0)"

definition js_ctx :: "js_params \<Rightarrow> zcdr_joint_state_ctx" where
  "js_ctx p = js_layout (js_frame p) (js_names p)"

lemma take_overlay: "take n (overlay s buf) = overlay s (take n buf)"
  by (rule nth_equalityI) (auto simp: nth_overlay split: option.splits)

lemma js_names_length: "js_fits p k \<Longrightarrow> length (js_names p) = unat (jsp_num_joints p)"
  by (simp add: js_fits_def js_names_def length_joint_chars)

lemma js_payload: "js_fits p k \<Longrightarrow> unat (js_payload_size (js_ctx p)) = js_size p"
  by (simp add: js_ctx_def js_layout_payload js_size_def js_fits_def)

interpretation joint_state: state_codec JointStateCodec js_fits js_ctx js_ready js_complete js_wire
proof unfold_locales
  fix p k assume f: "js_fits p k"
  then have n: "0 < unat (jsp_num_joints p)" "unat (jsp_num_joints p) \<le> length (jsp_joint_names p)"
    and L: "js_size p \<le> k" "k < 2 ^ 32" by (simp_all add: js_fits_def)
  have nn: "0 < length (js_names p)" using js_names_length [OF f] n(1) by simp
  let ?s = "cdr_joint_state None (js_frame p) (js_names p) None None None"
  have "zcdr_init_joint_state (jsp_frame_id p) (jsp_joint_names p) (jsp_num_joints p) (replicate k 0) =
      Some (js_ctx p, overlay ?s (replicate k 0))"
    using zcdr_init_joint_state_eq [OF n, of "jsp_frame_id p" "replicate k 0"] js_written_le [OF nn, of "js_frame p"] L
    by (simp add: js_size_def js_ctx_def js_frame_def js_names_def)
  moreover have "js_ready p (overlay ?s (replicate k 0))"
    using f unfolding js_ready_def by (auto simp: doubles_ok_def intro!: exI [of _ None])
  ultimately show "\<exists>buf. sc_init JointStateCodec p (replicate k 0) = Some (js_ctx p, buf) \<and> js_ready p buf \<and> length buf = k"
    by (simp add: JointStateCodec_def)
  show "unat (sc_payload_size JointStateCodec (js_ctx p)) \<le> k"
    using js_payload [OF f] L by (simp add: JointStateCodec_def)
next
  fix p buf v assume r: "js_ready p buf" and c: "js_complete p v"
  let ?n = "length (js_names p)" and ?S = "Some (jsv_stamp_sec v, jsv_stamp_nanosec v)"
  obtain st ps vs es where b: "doubles_ok ?n ps" "doubles_ok ?n vs" "doubles_ok ?n es"
      "buf = overlay (cdr_joint_state st (js_frame p) (js_names p) ps vs es) (replicate (length buf) 0)"
      and f: "js_fits p (length buf)" using r by (auto simp: js_ready_def)
  have nm: "?n = unat (jsp_num_joints p)" using f by (rule js_names_length)
  obtain a b' e where v: "jsv_positions v = Some a" "jsv_velocities v = Some b'" "jsv_efforts v = Some e"
      "length a = ?n" "length b' = ?n" "length e = ?n" using c nm by (auto simp: js_complete_def)
  have ok: "doubles_ok ?n (jsv_positions v)" "doubles_ok ?n (jsv_velocities v)" "doubles_ok ?n (jsv_efforts v)"
    using v by (simp_all add: doubles_ok_def)
  let ?w = "overlay (cdr_joint_state ?S (js_frame p) (js_names p) (jsv_positions v) (jsv_velocities v) (jsv_efforts v))
      (replicate (length buf) 0)"
  have L: "js_size p \<le> length buf" "length buf < 2 ^ 32" and n0: "0 < ?n" using f nm by (simp_all add: js_fits_def)
  have "zcdr_serialize_joint_state (js_ctx p) (jsv_stamp_sec v) (jsv_stamp_nanosec v)
      (jsv_positions v) (jsv_velocities v) (jsv_efforts v) buf = Some ?w"
    using zcdr_serialize_joint_state_overlay [OF n0 ok b(1-3), of "js_frame p" "replicate (length buf) 0"] L v
    by (subst b(4)) (simp add: js_ctx_def js_size_def)
  moreover have "js_ready p ?w"
    unfolding js_ready_def length_overlay length_replicate
    using f ok by (intro conjI exI [of _ ?S] exI [of _ "jsv_positions v"] exI [of _ "jsv_velocities v"]
        exI [of _ "jsv_efforts v"]) simp_all
  moreover have "take (js_size p) ?w = js_wire p v"
    using L by (simp add: take_overlay js_wire_def min_def)
  ultimately show "\<exists>buf'. sc_write JointStateCodec (js_ctx p) v buf = Some buf' \<and> js_ready p buf' \<and>
      length buf' = length buf \<and> take (unat (sc_payload_size JointStateCodec (js_ctx p))) buf' = js_wire p v"
    using js_payload [OF f] by (simp add: JointStateCodec_def)
qed

section \<open>JointCommandCodec\<close>

record jc_params =
  jcp_frame_id :: "string option"
  jcp_joint_names :: "string list"
  jcp_num_joints :: u32
  jcp_interface_name :: "string option"

record jc_value =
  jcv_stamp_sec :: i32
  jcv_stamp_nanosec :: u32
  jcv_values :: "u64 list option"

definition jc_read_value :: "zcdr_joint_command_ctx \<Rightarrow> byte list \<Rightarrow> size_t \<Rightarrow> jc_value \<Rightarrow> (bool \<times> jc_value) option" where
  "jc_read_value ctx buf sz out =
     do { (ok, res) \<leftarrow> zcdr_deserialize_joint_command ctx buf sz
            \<lparr> out_cmd_sec = Some (jcv_stamp_sec out), out_cmd_nsec = Some (jcv_stamp_nanosec out),
              out_values = jcv_values out \<rparr>;
          Some (ok, \<lparr> jcv_stamp_sec = the (out_cmd_sec res), jcv_stamp_nanosec = the (out_cmd_nsec res),
                      jcv_values = out_values res \<rparr>) }"

definition JointCommandCodec :: "(zcdr_joint_command_ctx, jc_params, jc_value) command_codec_ops" where
  "JointCommandCodec =
     \<lparr> cc_init = (\<lambda>p buf. zcdr_init_joint_command (jcp_frame_id p) (jcp_joint_names p) (jcp_num_joints p)
         (jcp_interface_name p) buf),
       cc_payload_size = jc_payload_size,
       cc_read = jc_read_value \<rparr>"

definition jc_frame :: "jc_params \<Rightarrow> string" where
  "jc_frame p = opt_chars (jcp_frame_id p)"

definition jc_names :: "jc_params \<Rightarrow> string list" where
  "jc_names p = joint_chars (jcp_num_joints p) (jcp_joint_names p)"

definition jc_interface :: "jc_params \<Rightarrow> string" where
  "jc_interface p = opt_chars (jcp_interface_name p)"

definition jc_size :: "jc_params \<Rightarrow> nat" where
  "jc_size p = length (cdr_joint_command None (jc_frame p) (jc_names p) (jc_interface p) None)"

definition jc_fits :: "jc_params \<Rightarrow> nat \<Rightarrow> bool" where
  "jc_fits p k \<longleftrightarrow> 0 < unat (jcp_num_joints p) \<and> unat (jcp_num_joints p) \<le> length (jcp_joint_names p) \<and>
     jc_size p \<le> k \<and> k < 2 ^ 32"

definition jc_room :: "jc_params \<Rightarrow> jc_value \<Rightarrow> bool" where
  "jc_room p out \<longleftrightarrow> room_for (unat (jcp_num_joints p)) (jcv_values out)"

definition jc_encodes :: "jc_params \<Rightarrow> jc_value \<Rightarrow> byte list \<Rightarrow> bool" where
  "jc_encodes p v buf \<longleftrightarrow> (\<exists>ds. jcv_values v = Some ds \<and> length ds = unat (jcp_num_joints p) \<and>
     carries buf (cdr_joint_command (Some (jcv_stamp_sec v, jcv_stamp_nanosec v)) (jc_frame p) (jc_names p)
       (jc_interface p) (Some ds)))"

text \<open>The stamp always, the values only if the caller passes an array.\<close>

definition jc_store :: "jc_value \<Rightarrow> jc_value \<Rightarrow> jc_value" where
  "jc_store v out = v\<lparr> jcv_values := store_doubles (the (jcv_values v)) (jcv_values out) \<rparr>"

definition jc_ctx :: "jc_params \<Rightarrow> zcdr_joint_command_ctx" where
  "jc_ctx p = jc_layout (jc_frame p) (jc_names p) (jc_interface p)"

lemma jc_names_length: "jc_fits p k \<Longrightarrow> length (jc_names p) = unat (jcp_num_joints p)"
  by (simp add: jc_fits_def jc_names_def length_joint_chars)

lemma jc_payload: "jc_fits p k \<Longrightarrow> unat (jc_payload_size (jc_ctx p)) = jc_size p"
  by (simp add: jc_ctx_def jc_layout_payload jc_size_def jc_fits_def)

lemma carries_take_D: "carries (take n buf) s \<Longrightarrow> carries buf s"
  by (auto simp: carries_def)

interpretation joint_command: command_codec JointCommandCodec jc_fits jc_ctx jc_room jc_encodes jc_store
proof unfold_locales
  fix p k and scratch :: "byte list" assume f: "jc_fits p k" and "length scratch = k"
  then have n: "0 < unat (jcp_num_joints p)" "unat (jcp_num_joints p) \<le> length (jcp_joint_names p)"
    and L: "jc_size p \<le> length scratch" "length scratch < 2 ^ 32" by (simp_all add: jc_fits_def)
  have nn: "0 < length (jc_names p)" using jc_names_length [OF f] n(1) by simp
  show "\<exists>s. cc_init JointCommandCodec p scratch = Some (jc_ctx p, s)"
    using zcdr_init_joint_command_eq [OF n, of "jcp_frame_id p" "jcp_interface_name p" scratch]
      jc_written_le [OF nn, of "jc_frame p" "jc_interface p"] L
    by (simp add: JointCommandCodec_def jc_size_def jc_ctx_def jc_frame_def jc_names_def jc_interface_def)
next
  fix p k assume f: "jc_fits p k"
  then show "unat (cc_payload_size JointCommandCodec (jc_ctx p)) \<le> k"
    using jc_payload [OF f] by (simp add: JointCommandCodec_def jc_fits_def)
next
  fix p k out and n :: size_t and buf :: "byte list"
  assume f: "jc_fits p k" and r: "jc_room p out" and l: "unat n \<le> length buf"
  have n0: "0 < length (jc_names p)" and L: "jc_size p < 2 ^ 32" using f jc_names_length [OF f] by (simp_all add: jc_fits_def)
  let ?o = "\<lparr> out_cmd_sec = Some (jcv_stamp_sec out), out_cmd_nsec = Some (jcv_stamp_nanosec out), out_values = jcv_values out \<rparr>"
  have room: "room_for (length (jc_names p)) (out_values ?o)" using r jc_names_length [OF f] by (simp add: jc_room_def)
  have "n < jc_payload_size (jc_ctx p) \<longleftrightarrow> unat n < jc_size p"
    by (simp add: word_less_nat_alt jc_payload [OF f])
  then show "\<exists>out'. cc_read JointCommandCodec (jc_ctx p) buf n out =
      Some (\<not> n < cc_payload_size JointCommandCodec (jc_ctx p), out')"
    using zcdr_deserialize_joint_command_total [OF n0 _ l room, of "jc_frame p" "jc_interface p"] L
    by (auto simp: JointCommandCodec_def jc_read_value_def jc_ctx_def jc_size_def split: if_splits)
next
  fix p k out v and n :: size_t and buf :: "byte list"
  assume f: "jc_fits p k" and r: "jc_room p out" and l: "unat n \<le> length buf" "length buf < 2 ^ 32"
    and e: "jc_encodes p v (take (unat n) buf)" and s: "\<not> n < cc_payload_size JointCommandCodec (jc_ctx p)"
  have nm: "length (jc_names p) = unat (jcp_num_joints p)" using f by (rule jc_names_length)
  then have n0: "0 < length (jc_names p)" using f by (simp add: jc_fits_def)
  let ?st = "cdr_joint_command (Some (jcv_stamp_sec v, jcv_stamp_nanosec v)) (jc_frame p) (jc_names p) (jc_interface p)"
  obtain ds where d: "jcv_values v = Some ds" "length ds = unat (jcp_num_joints p)" "carries (take (unat n) buf) (?st (Some ds))"
    using e unfolding jc_encodes_def by blast
  have ds: "jcv_values v = Some ds" "length ds = length (jc_names p)" "carries buf (?st (Some ds))"
    using d(1,2) nm carries_take_D [OF d(3)] by simp_all
  have sz: "jc_payload_size (jc_layout (jc_frame p) (jc_names p) (jc_interface p)) \<le> n"
    using s by (simp add: JointCommandCodec_def jc_ctx_def)
  let ?o = "\<lparr> out_cmd_sec = Some (jcv_stamp_sec out), out_cmd_nsec = Some (jcv_stamp_nanosec out), out_values = jcv_values out \<rparr>"
  have room: "room_for (length (jc_names p)) (out_values ?o)" using r nm by (simp add: jc_room_def)
  show "cc_read JointCommandCodec (jc_ctx p) buf n out = Some (True, jc_store v out)"
    using zcdr_deserialize_joint_command_carries [OF n0 ds(2,3) l(2) sz room] ds(1)
    by (simp add: JointCommandCodec_def jc_read_value_def jc_ctx_def jc_store_def)
qed

end
