(* ===== verification/Zenbedded_Client.thy ===== *)
theory Zenbedded_Client
  imports Double_Buffer Transport_Props Codecs
begin

text \<open>
  The client (\<open>zenbedded_rcl/src/zenbedded_client.cpp\<close> and \<open>zenbedded_client.hpp\<close>): a state and a
  command double buffer between the application, the control thread and the transport. A template
  argument is a codec record; an object of the class is a record, next to the static state of
  the transport. The Kconfig constants are a record of parameters. The operations are sequential
  here; their interleaving on the buffers is the subject of \<open>Double_Buffer\<close>, that of the calls with the control
  thread the subject of \<open>Thread_Life\<close>. Undefined behaviour
  and a loop that never ends are \<open>None\<close>.
\<close>

section \<open>Configuration and state\<close>

record client_config =
  kc_transport :: transport_config
  kc_domain_id :: u32
  kc_node_name :: string
  kc_zenoh_mode :: string
  kc_zenoh_ip_port :: string
  kc_pub_topic :: string
  kc_sub_topic :: string
  kc_state_type :: string
  kc_cmd_type :: string
  kc_max_state :: nat
  kc_max_cmd :: nat

text \<open>zenoh-pico, and whether \<open>k_thread_join\<close> succeeds within its timeout.\<close>

record client_env =
  ce_zenoh :: zenoh_env
  ce_join :: bool

text \<open>The only callback that is ever registered; its \<open>user_data\<close> is the client.\<close>

datatype callback = On_Transport_Cmd_Cb

type_synonym ctransport = "(callback, unit) transport"

record ('sc, 'cc) client =
  cl_initialized :: bool
  cl_state_payload_size :: size_t
  cl_cmd_payload_size :: size_t
  cl_pub :: "nat option"
  cl_sub :: "nat option"
  cl_state_buffer :: double_buffer
  cl_cmd_buffer :: double_buffer
  cl_cmd_accepted :: u32
  cl_control_freq :: u32
  cl_running :: bool
  cl_started :: bool
  cl_thread_alive :: bool  \<comment> \<open>of the kernel: the control thread exists\<close>
  cl_state_ctx :: 'sc
  cl_cmd_ctx :: 'cc

definition EIO :: int where "EIO = 5"
definition ENOMEM :: int where "ENOMEM = 12"
definition ENODEV :: int where "ENODEV = 19"
definition EINVAL :: int where "EINVAL = 22"

definition reset_buffers :: "client_config \<Rightarrow> ('sc, 'cc) client \<Rightarrow> ('sc, 'cc) client" where
  "reset_buffers kc cl =
     cl\<lparr> cl_state_buffer := db_reset (kc_max_state kc), cl_cmd_buffer := db_reset (kc_max_cmd kc),
         cl_cmd_accepted := 0 \<rparr>"

text \<open>A constructed client; the codec contexts are default-constructed.\<close>

definition client_new :: "client_config \<Rightarrow> 'sc \<Rightarrow> 'cc \<Rightarrow> ('sc, 'cc) client" where
  "client_new kc sctx cctx = reset_buffers kc
     \<lparr> cl_initialized = False, cl_state_payload_size = 0, cl_cmd_payload_size = 0, cl_pub = None, cl_sub = None,
       cl_state_buffer = db_reset (kc_max_state kc), cl_cmd_buffer = db_reset (kc_max_cmd kc), cl_cmd_accepted = 0,
       cl_control_freq = 0, cl_running = False, cl_started = False, cl_thread_alive = False,
       cl_state_ctx = sctx, cl_cmd_ctx = cctx \<rparr>"

section \<open>The control thread\<close>

definition stop_thread :: "client_env \<Rightarrow> ('sc, 'cc) client \<Rightarrow> ('sc, 'cc) client" where
  "stop_thread env cl =
     (if \<not> cl_started cl then cl
      else
        let cl = cl\<lparr> cl_running := False \<rparr>;
            joined = ce_join env;
            cl = (if joined then cl\<lparr> cl_thread_alive := False \<rparr>  \<comment> \<open>left its loop\<close>
                  else cl\<lparr> cl_thread_alive := False \<rparr>)  \<comment> \<open>\<open>k_thread_abort\<close>\<close>
        in cl\<lparr> cl_started := False, cl_control_freq := 0 \<rparr>)"

text \<open>Creating a thread in the object of a live thread is undefined.\<close>

definition start_thread :: "client_env \<Rightarrow> u32 \<Rightarrow> ('sc, 'cc) client \<Rightarrow> (int \<times> ('sc, 'cc) client) option" where
  "start_thread env control_freq cl =
     (if \<not> cl_initialized cl then Some (- ENODEV, cl)
      else if control_freq = 0 then Some (- EINVAL, cl)
      else
        let cl = (if cl_started cl then stop_thread env cl else cl);
            cl = cl\<lparr> cl_control_freq := control_freq, cl_running := True \<rparr>
        in if cl_thread_alive cl then None
           else Some (0, cl\<lparr> cl_thread_alive := True, cl_started := True \<rparr>))"

text \<open>The period of \<open>control_thread_fn\<close>, and how long a cycle sleeps; the subtraction wraps.\<close>

definition period_ms :: "u32 \<Rightarrow> u32 option" where
  "period_ms control_freq = (if control_freq = 0 then None else Some (max (1000 div control_freq) 1))"

definition sleep_ms :: "u32 \<Rightarrow> u32 \<Rightarrow> u32 \<Rightarrow> u32" where
  "sleep_ms period prev_time now = (let diff = now - prev_time in if period \<le> diff then 1 else period - diff)"

section \<open>Initialisation and destruction\<close>

definition optional_type :: "client_config \<Rightarrow> string \<Rightarrow> string option" where
  "optional_type kc s = (case cfg_tier (kc_transport kc) of Tier1 \<Rightarrow> Some s | Tier2 \<Rightarrow> None)"

definition init_base ::
    "client_config \<Rightarrow> client_env \<Rightarrow> u32 \<Rightarrow> size_t \<Rightarrow> size_t \<Rightarrow> ('sc, 'cc) client \<Rightarrow> ctransport
       \<Rightarrow> (int \<times> ('sc, 'cc) client \<times> ctransport) option" where
  "init_base kc env control_freq state_payload_size cmd_payload_size cl t =
     (if cl_initialized cl then Some (0, cl, t)
      else
        let cl = cl\<lparr> cl_state_payload_size := state_payload_size \<rparr>
        in if kc_max_state kc < unat state_payload_size then Some (- ENOMEM, cl, t)
        else let cl = cl\<lparr> cl_cmd_payload_size := cmd_payload_size \<rparr>
        in if kc_max_cmd kc < unat cmd_payload_size then Some (- ENOMEM, cl, t)
        else let (ret, t) = zenbedded_transport_init (kc_transport kc) (ce_zenoh env) (kc_domain_id kc) (kc_node_name kc)
               (kc_zenoh_mode kc) (Some (kc_zenoh_ip_port kc)) t
        in if ret \<noteq> 0 then Some (- EIO, cl, t)
        else do {
          (pub, t) \<leftarrow> zenbedded_transport_declare_publisher (kc_transport kc) (ce_zenoh env) (kc_pub_topic kc)
            (optional_type kc (kc_state_type kc)) t;
          let cl = cl\<lparr> cl_pub := pub \<rparr>;
          if pub = None then Some (- EIO, cl, t)
          else do {
            (sub, t) \<leftarrow> zenbedded_transport_declare_subscriber (kc_transport kc) (ce_zenoh env) (kc_sub_topic kc)
              (optional_type kc (kc_cmd_type kc)) (Some On_Transport_Cmd_Cb) (Some ()) t;
            let cl = cl\<lparr> cl_sub := sub \<rparr>;
            if sub = None then Some (- EIO, cl, t)
            else do {
              (ret, cl) \<leftarrow> start_thread env control_freq (cl\<lparr> cl_initialized := True, cl_control_freq := control_freq \<rparr>);
              Some (ret, cl, t) } } })"

text \<open>\<open>scratch\<close> is the content of the uninitialised \<open>cmd_layout_scratch\<close>.\<close>

definition client_init ::
    "('sc, 'sp, 'sv) state_codec_ops \<Rightarrow> ('cc, 'cp, 'cv) command_codec_ops \<Rightarrow> client_config \<Rightarrow> client_env
       \<Rightarrow> u32 \<Rightarrow> 'sp \<Rightarrow> 'cp \<Rightarrow> byte list \<Rightarrow> ('sc, 'cc) client \<Rightarrow> ctransport
       \<Rightarrow> (int \<times> ('sc, 'cc) client \<times> ctransport) option" where
  "client_init SC CC kc env control_freq state_params cmd_params scratch cl t =
     (if cl_initialized cl then Some (0, cl, t)
      else
        let cl = reset_buffers kc cl; b = cl_state_buffer cl
        in do {
          (sctx, slot0) \<leftarrow> sc_init SC state_params (slots b ! 0);
          (sctx, slot1) \<leftarrow> sc_init SC state_params (slots b ! 1);
          (cctx, scratch') \<leftarrow> cc_init CC cmd_params scratch;
          init_base kc env control_freq (sc_payload_size SC sctx) (cc_payload_size CC cctx)
            (cl\<lparr> cl_state_buffer := b\<lparr> slots := [slot0, slot1] \<rparr>, cl_state_ctx := sctx, cl_cmd_ctx := cctx \<rparr>) t })"

definition client_destroy ::
    "client_config \<Rightarrow> client_env \<Rightarrow> ('sc, 'cc) client \<Rightarrow> ctransport \<Rightarrow> ('sc, 'cc) client \<times> ctransport" where
  "client_destroy kc env cl t =
     (if \<not> cl_initialized cl then (cl, t)
      else
        let cl = stop_thread env cl;
            t = zenbedded_transport_destroy (kc_transport kc) (ce_zenoh env) t
        in (cl\<lparr> cl_pub := None, cl_sub := None, cl_initialized := False \<rparr>, t))"

section \<open>State\<close>

definition write_state ::
    "('sc, 'sp, 'sv) state_codec_ops \<Rightarrow> 'sv \<Rightarrow> ('sc, 'cc) client \<Rightarrow> ('sc, 'cc) client option" where
  "write_state SC value cl =
     (if \<not> cl_initialized cl then Some cl
      else
        let b = cl_state_buffer cl; write_idx = prepare_write_slot b
        in do { s \<leftarrow> sc_write SC (cl_state_ctx cl) value (slots b ! unat write_idx);
                Some (cl\<lparr> cl_state_buffer := commit_write_slot write_idx (b\<lparr> slots := (slots b)[unat write_idx := s] \<rparr>) \<rparr>) })"

text \<open>The retry loops around \<open>read_state_from_buffer\<close> and \<open>read_command_from_buffer\<close>.\<close>

partial_function (option) read_until_consistent :: "nat \<Rightarrow> double_buffer \<Rightarrow> byte list option" where
  "read_until_consistent n b =
     do { (ok, data) \<leftarrow> read_from_buffer n b; if ok then Some data else read_until_consistent n b }"

definition zenoh_publish_state ::
    "client_config \<Rightarrow> client_env \<Rightarrow> ('sc, 'cc) client \<Rightarrow> ctransport \<Rightarrow> (int \<times> ctransport) option" where
  "zenoh_publish_state kc env cl t =
     (if \<not> cl_initialized cl then Some (- ENODEV, t)
      else do {
        data \<leftarrow> read_until_consistent (unat (cl_state_payload_size cl)) (cl_state_buffer cl);
        tmp \<leftarrow> mem_write (replicate (kc_max_state kc) 0) 0 data;
        payload \<leftarrow> mem_read tmp 0 (unat (cl_state_payload_size cl));
        zenbedded_transport_publish (kc_transport kc) (ce_zenoh env) (cl_pub cl) payload t })"

section \<open>Commands\<close>

definition on_transport_cmd_cb :: "byte list \<Rightarrow> ('sc, 'cc) client \<Rightarrow> ('sc, 'cc) client option" where
  "on_transport_cmd_cb payload cl =
     (if length payload \<noteq> unat (cl_cmd_payload_size cl) then Some cl
      else do { b \<leftarrow> write_to_buffer payload (cl_cmd_buffer cl);
                Some (cl\<lparr> cl_cmd_buffer := b, cl_cmd_accepted := cl_cmd_accepted cl + 1 \<rparr>) })"

definition read_command ::
    "('cc, 'cp, 'cv) command_codec_ops \<Rightarrow> client_config \<Rightarrow> 'cv \<Rightarrow> ('sc, 'cc) client \<Rightarrow> (bool \<times> 'cv) option" where
  "read_command CC kc out cl =
     (if \<not> cl_initialized cl then Some (False, out)
      else do {
        data \<leftarrow> read_until_consistent (unat (cl_cmd_payload_size cl)) (cl_cmd_buffer cl);
        tmp \<leftarrow> mem_write (replicate (kc_max_cmd kc) 0) 0 data;
        cc_read CC (cl_cmd_ctx cl) tmp (cl_cmd_payload_size cl) out })"

text \<open>A sample arrives for the client's subscription: zenoh runs \<open>internal_sub_handler\<close> on its slot.\<close>

definition client_receive :: "client_config \<Rightarrow> byte list \<Rightarrow> ('sc, 'cc) client \<Rightarrow> ctransport \<Rightarrow> ('sc, 'cc) client option" where
  "client_receive kc payload cl t =
     (case cl_sub cl of
        None \<Rightarrow> Some cl
      | Some j \<Rightarrow>
          do { call \<leftarrow> internal_sub_handler (kc_transport kc) (Some (tr_subs t ! j)) payload;
               case call of
                 Some (On_Transport_Cmd_Cb, bs, Some u) \<Rightarrow> on_transport_cmd_cb bs cl
               | _ \<Rightarrow> Some cl })"

end
