(* ===== verification/Client_Proofs.thy ===== *)
theory Client_Proofs
  imports Zenbedded_Client
begin

text \<open>
  The client proved against the contracts of its codecs: \<open>client_codecs\<close> puts a state and a command
  codec together, and the lemmas of its context hold for every instance of the template. The
  joint state/joint command client and the raw client are its interpretations.
\<close>

section \<open>Buffers\<close>

lemma read_until_consistent_ok:
  "db_wf sz b \<Longrightarrow> n \<le> sz \<Longrightarrow> read_until_consistent n b = Some (take n (active_slot b))"
  by (subst read_until_consistent.simps) (simp add: read_from_buffer_ok)

text \<open>All of the slots satisfy a predicate.\<close>

definition slots_all :: "(byte list \<Rightarrow> bool) \<Rightarrow> double_buffer \<Rightarrow> bool" where
  "slots_all P b \<longleftrightarrow> (\<forall>s \<in> set (slots b). P s)"

lemma write_slot_commit:
  assumes wf: "db_wf sz b" and s: "length s = sz" and P: "slots_all P b" "P s"
  shows "let b' = commit_write_slot (prepare_write_slot b) (b\<lparr> slots := (slots b)[unat (prepare_write_slot b) := s] \<rparr>)
    in db_wf sz b' \<and> active_slot b' = s \<and> slots_all P b'"
proof -
  let ?w = "prepare_write_slot b"
  have w: "?w \<in> {0, 1}" and l2: "length (slots b) = 2"
    using wf index_xor_1 [of "active_idx b"] by (auto simp: db_wf_def prepare_write_slot_def)
  have "db_wf sz (commit_write_slot ?w (b\<lparr> slots := (slots b)[unat ?w := s] \<rparr>))"
    using wf s w by (intro db_wf_commit db_wf_slot_update)
  moreover have "unat ?w < 2" using w by (rule unat_index)
  ultimately show ?thesis
    using l2 P set_update_subset_insert [of "slots b" "unat ?w" s]
    by (auto simp: Let_def commit_write_slot_def active_slot_def slots_all_def)
qed

lemma inactive_slot_P: "db_wf sz b \<Longrightarrow> slots_all P b \<Longrightarrow> P (slots b ! unat (prepare_write_slot b))"
  using index_xor_1 [of "active_idx b"] unat_index [of "active_idx b XOR 1"]
  by (auto simp: db_wf_def slots_all_def prepare_write_slot_def intro!: nth_mem)

section \<open>What a successful initialisation has done\<close>

lemma declare_subscriber_slot:
  assumes "zenbedded_transport_declare_subscriber cfg env topic ty cb ud t = Some (Some j, t')"
  shows "sub_user_cb (tr_subs t' ! j) = cb \<and> sub_user_data (tr_subs t' ! j) = ud"
proof -
  have i: "alloc_slot sub_in_use (tr_subs t) = Some j"
    using assms by (cases "cfg_tier cfg"; cases ty)
      (auto simp: zenbedded_transport_declare_subscriber_def zcall_conv Let_def bind_eq_Some_conv topic_keyexpr_def
        split: if_splits option.splits)
  then have "j < length (tr_subs t)" using subs.alloc_fresh by blast
  then show ?thesis
    using assms i by (cases "cfg_tier cfg"; cases ty)
      (auto simp: zenbedded_transport_declare_subscriber_def zcall_conv Let_def bind_eq_Some_conv topic_keyexpr_def
        announce_sub_def split: if_splits)
qed

lemma publish_subs:
  assumes "zenbedded_transport_publish cfg env pub payload t = Some (r, t')"
  shows "tr_subs t' = tr_subs t"
  using assms by (auto simp: zenbedded_transport_publish_def zcall_conv Let_def bind_eq_Some_conv
      split: option.splits if_splits tier.splits)

lemma start_thread_frame:
  assumes "start_thread env f cl = Some (r, cl')"
  shows "cl_initialized cl' = cl_initialized cl \<and> cl_state_buffer cl' = cl_state_buffer cl \<and>
    cl_cmd_buffer cl' = cl_cmd_buffer cl \<and> cl_cmd_accepted cl' = cl_cmd_accepted cl \<and>
    cl_state_ctx cl' = cl_state_ctx cl \<and> cl_cmd_ctx cl' = cl_cmd_ctx cl \<and> cl_pub cl' = cl_pub cl \<and>
    cl_sub cl' = cl_sub cl \<and> cl_state_payload_size cl' = cl_state_payload_size cl \<and>
    cl_cmd_payload_size cl' = cl_cmd_payload_size cl"
  using assms by (auto simp: start_thread_def stop_thread_def Let_def split: if_splits)

text \<open>The outcomes of \<open>init_base\<close>: each early return, and success.\<close>

lemma init_base_cases:
  assumes b: "init_base kc env f ss cs cl t = Some (r, cl', t')" and n: "\<not> cl_initialized cl"
  obtains
    (oversized) "kc_max_state kc < unat ss \<or> kc_max_cmd kc < unat cs" "r = - ENOMEM" "t' = t"
      "\<not> cl_initialized cl'" "cl_started cl' = cl_started cl" "cl_thread_alive cl' = cl_thread_alive cl"
      "cl_pub cl' = cl_pub cl"
  | (no_session) r1 where "zenbedded_transport_init (kc_transport kc) (ce_zenoh env) (kc_domain_id kc) (kc_node_name kc)
               (kc_zenoh_mode kc) (Some (kc_zenoh_ip_port kc)) t = (r1, t')" "r1 \<noteq> 0" "r = - EIO"
      "\<not> cl_initialized cl'" "cl_started cl' = cl_started cl" "cl_thread_alive cl' = cl_thread_alive cl"
      "cl_pub cl' = cl_pub cl"
  | (no_publisher) t1 where "zenbedded_transport_init (kc_transport kc) (ce_zenoh env) (kc_domain_id kc) (kc_node_name kc)
               (kc_zenoh_mode kc) (Some (kc_zenoh_ip_port kc)) t = (0, t1)"
      "zenbedded_transport_declare_publisher (kc_transport kc) (ce_zenoh env) (kc_pub_topic kc)
            (optional_type kc (kc_state_type kc)) t1 = Some (None, t')" "r = - EIO"
      "\<not> cl_initialized cl'" "cl_started cl' = cl_started cl" "cl_thread_alive cl' = cl_thread_alive cl"
      "cl_pub cl' = None"
  | (no_subscriber) t1 t2 i where "zenbedded_transport_init (kc_transport kc) (ce_zenoh env) (kc_domain_id kc) (kc_node_name kc)
               (kc_zenoh_mode kc) (Some (kc_zenoh_ip_port kc)) t = (0, t1)"
      "zenbedded_transport_declare_publisher (kc_transport kc) (ce_zenoh env) (kc_pub_topic kc)
            (optional_type kc (kc_state_type kc)) t1 = Some (Some i, t2)"
      "zenbedded_transport_declare_subscriber (kc_transport kc) (ce_zenoh env) (kc_sub_topic kc)
            (optional_type kc (kc_cmd_type kc)) (Some On_Transport_Cmd_Cb) (Some ()) t2 = Some (None, t')" "r = - EIO"
      "\<not> cl_initialized cl'" "cl_started cl' = cl_started cl" "cl_thread_alive cl' = cl_thread_alive cl"
  | (up) t1 t2 i j where "unat ss \<le> kc_max_state kc" "unat cs \<le> kc_max_cmd kc"
      "zenbedded_transport_init (kc_transport kc) (ce_zenoh env) (kc_domain_id kc) (kc_node_name kc)
               (kc_zenoh_mode kc) (Some (kc_zenoh_ip_port kc)) t = (0, t1)"
      "zenbedded_transport_declare_publisher (kc_transport kc) (ce_zenoh env) (kc_pub_topic kc)
            (optional_type kc (kc_state_type kc)) t1 = Some (Some i, t2)"
      "zenbedded_transport_declare_subscriber (kc_transport kc) (ce_zenoh env) (kc_sub_topic kc)
            (optional_type kc (kc_cmd_type kc)) (Some On_Transport_Cmd_Cb) (Some ()) t2 = Some (Some j, t')"
      "start_thread env f (cl\<lparr> cl_state_payload_size := ss, cl_cmd_payload_size := cs, cl_pub := Some i,
        cl_sub := Some j, cl_initialized := True, cl_control_freq := f \<rparr>) = Some (r, cl')"
proof (cases "kc_max_state kc < unat ss \<or> kc_max_cmd kc < unat cs")
  case True
  then show thesis using b n by (intro oversized) (auto simp: init_base_def Let_def split: if_splits)
next
  case sz: False
  obtain r1 t1 where t1: "zenbedded_transport_init (kc_transport kc) (ce_zenoh env) (kc_domain_id kc) (kc_node_name kc)
      (kc_zenoh_mode kc) (Some (kc_zenoh_ip_port kc)) t = (r1, t1)" by fastforce
  show thesis
  proof (cases "r1 = 0")
    case False
    then show thesis using b n sz t1 by (intro no_session [of r1]) (auto simp: init_base_def Let_def)
  next
    case True
    then obtain p t2 where p: "zenbedded_transport_declare_publisher (kc_transport kc) (ce_zenoh env) (kc_pub_topic kc)
            (optional_type kc (kc_state_type kc)) t1 = Some (p, t2)"
      using b n sz t1 by (auto simp: init_base_def Let_def bind_eq_Some_conv)
    show thesis
    proof (cases p)
      case None
      then show thesis using b n sz t1 True p by (intro no_publisher [of t1]) (auto simp: init_base_def Let_def)
    next
      case i: (Some i)
      then obtain q t3 where q: "zenbedded_transport_declare_subscriber (kc_transport kc) (ce_zenoh env) (kc_sub_topic kc)
            (optional_type kc (kc_cmd_type kc)) (Some On_Transport_Cmd_Cb) (Some ()) t2 = Some (q, t3)"
        using b n sz t1 True p by (auto simp: init_base_def Let_def bind_eq_Some_conv)
      show thesis
      proof (cases q)
        case None
        then show thesis
          using b n sz t1 True p i q by (intro no_subscriber [of t1 i t2]) (auto simp: init_base_def Let_def)
      next
        case (Some j)
        then show thesis
          using b n sz t1 True p i q
          by (intro up [of t1 i t2 j]) (auto simp: init_base_def Let_def bind_eq_Some_conv)
      qed
    qed
  qed
qed

lemma init_base_up:
  assumes b: "init_base kc env f ss cs cl t = Some (r, cl', t')"
    and i: "\<not> cl_initialized cl" "cl_initialized cl'" and t: "transport_inv (kc_transport kc) t"
  shows "unat ss \<le> kc_max_state kc \<and> unat cs \<le> kc_max_cmd kc \<and> cl_state_payload_size cl' = ss \<and>
    cl_cmd_payload_size cl' = cs \<and> cl_state_buffer cl' = cl_state_buffer cl \<and>
    cl_cmd_buffer cl' = cl_cmd_buffer cl \<and> cl_cmd_accepted cl' = cl_cmd_accepted cl \<and>
    cl_state_ctx cl' = cl_state_ctx cl \<and> cl_cmd_ctx cl' = cl_cmd_ctx cl \<and>
    transport_inv (kc_transport kc) t' \<and> (\<exists>i. cl_pub cl' = Some i \<and> i \<in> used_pubs t') \<and>
    (\<exists>j. cl_sub cl' = Some j \<and> sub_user_cb (tr_subs t' ! j) = Some On_Transport_Cmd_Cb \<and>
       sub_user_data (tr_subs t' ! j) = Some ())"
  using b i(1)
proof (cases rule: init_base_cases)
  case (up t1 t2 p q)
  note s = up(1,2) and t1 = up(3) and p = up(4) and q = up(5) and st = up(6)
  have "transport_inv (kc_transport kc) t1" using transport_init_inv [OF t] t1 by (metis snd_conv)
  from declare_publisher_session [OF this p]
  have t2: "transport_inv (kc_transport kc) t2" "p \<in> used_pubs t2" by auto
  from declare_subscriber_session [OF t2(1) q] t2(2)
  have t3: "transport_inv (kc_transport kc) t'" "p \<in> used_pubs t'" by auto
  show ?thesis using s t3 declare_subscriber_slot [OF q] start_thread_frame [OF st] by simp
qed (use i in simp_all)

lemma init_base_numbered:
  assumes b: "init_base kc env f ss cs cl t = Some (r, cl', t')"
    and i: "\<not> cl_initialized cl" "cl_initialized cl'" and t1: "cfg_tier (kc_transport kc) = Tier1"
  shows "\<exists>i. cl_pub cl' = Some i \<and> i < length (tr_pubs t') \<and> pub_in_use (tr_pubs t' ! i) \<and>
    sequence_number (pub_attachment (tr_pubs t' ! i)) = 0"
  using b i(1)
proof (cases rule: init_base_cases)
  case (up u1 u2 p q)
  then show ?thesis
    using declare_publisher_numbered [OF t1 up(4)] declare_subscriber_pubs [OF up(5)] start_thread_frame [OF up(6)]
    by simp
qed (use i in simp_all)

text \<open>If zenoh accepts every call, puts apart, initialisation succeeds and the control thread runs.\<close>

lemma init_base_accepts:
  assumes t: "transport_inv (kc_transport kc) t" "\<not> tr_initialized t"
    and z: "\<And>log c. (\<forall>i p a. c \<noteq> Z_Publisher_Put i p a) \<Longrightarrow> z_ok (ce_zenoh env) log c"
    and sz: "unat ss \<le> kc_max_state kc" "unat cs \<le> kc_max_cmd kc" and f: "f \<noteq> 0"
    and cl: "\<not> cl_initialized cl" "\<not> cl_started cl" "\<not> cl_thread_alive cl"
  shows "\<exists>cl' t'. init_base kc env f ss cs cl t = Some (0, cl', t') \<and> cl_initialized cl' \<and> cl_thread_alive cl' \<and>
    cl_running cl' \<and> cl_control_freq cl' = f"
proof -
  let ?cfg = "kc_transport kc" and ?z = "ce_zenoh env"
  obtain t1 where t1: "zenbedded_transport_init ?cfg ?z (kc_domain_id kc) (kc_node_name kc)
      (kc_zenoh_mode kc) (Some (kc_zenoh_ip_port kc)) t = (0, t1)" "tr_initialized t1"
    using transport_init_accepts [of ?z, OF z] by blast
  have i1: "transport_inv ?cfg t1" using transport_init_inv [OF t(1)] t1(1) by (metis snd_conv)
  have u1: "used_pubs t1 = {}" "used_subs t1 = {}" using transport_init_unused [OF t t1(1)] by simp_all
  have ty: "cfg_tier ?cfg = Tier1 \<Longrightarrow> optional_type kc x \<noteq> None" for x by (simp add: optional_type_def)
  obtain p t2 where p: "zenbedded_transport_declare_publisher ?cfg ?z (kc_pub_topic kc)
      (optional_type kc (kc_state_type kc)) t1 = Some (Some p, t2)"
    using declare_publisher_accepts [OF i1 t1(2) _ z ty] u1 by (simp add: MAX_PUBLISHERS_def) blast
  from declare_publisher_session [OF i1 p]
  have t2: "transport_inv ?cfg t2" "tr_initialized t2" "used_subs t2 = {}" using t1(2) u1 by simp_all
  obtain q t3 where q: "zenbedded_transport_declare_subscriber ?cfg ?z (kc_sub_topic kc)
      (optional_type kc (kc_cmd_type kc)) (Some On_Transport_Cmd_Cb) (Some ()) t2 = Some (Some q, t3)"
    using declare_subscriber_accepts [OF t2(1,2) _ z ty] t2(3) by (simp add: MAX_SUBSCRIBERS_def) blast
  show ?thesis
    using cl sz f t1(1) p q by (simp add: init_base_def Let_def start_thread_def)
qed

section \<open>Sequences of operations\<close>

text \<open>What the application, the control thread and the network do with an initialised client.\<close>

datatype 'sv client_op = Op_Write 'sv | Op_Publish | Op_Receive "byte list"

fun perform ::
    "('sc, 'sp, 'sv) state_codec_ops \<Rightarrow> client_config \<Rightarrow> client_env \<Rightarrow> 'sv client_op
       \<Rightarrow> ('sc, 'cc) client \<times> ctransport \<Rightarrow> (('sc, 'cc) client \<times> ctransport) option" where
  "perform SC kc env (Op_Write v) (cl, t) = do { cl \<leftarrow> write_state SC v cl; Some (cl, t) }"
| "perform SC kc env Op_Publish (cl, t) = do { (r, t) \<leftarrow> zenoh_publish_state kc env cl t; Some (cl, t) }"
| "perform SC kc env (Op_Receive bs) (cl, t) = do { cl \<leftarrow> client_receive kc bs cl t; Some (cl, t) }"

fun perform_all ::
    "('sc, 'sp, 'sv) state_codec_ops \<Rightarrow> client_config \<Rightarrow> client_env \<Rightarrow> 'sv client_op list
       \<Rightarrow> ('sc, 'cc) client \<times> ctransport \<Rightarrow> (('sc, 'cc) client \<times> ctransport) option" where
  "perform_all SC kc env [] s = Some s"
| "perform_all SC kc env (x # xs) s = do { s \<leftarrow> perform SC kc env x s; perform_all SC kc env xs s }"

text \<open>The values written, and the payloads accepted for a command size of \<open>n\<close>: those of that size
  which the transport delivers.\<close>

fun written :: "'sv client_op list \<Rightarrow> 'sv list" where
  "written [] = []"
| "written (Op_Write v # xs) = v # written xs"
| "written (_ # xs) = written xs"

definition deliverable :: "tier \<Rightarrow> nat \<Rightarrow> bool" where
  "deliverable tr n \<longleftrightarrow> 1 \<le> n \<and> n \<le> (if tr = Tier1 then 1024 else 64)"

fun accepted :: "tier \<Rightarrow> nat \<Rightarrow> 'sv client_op list \<Rightarrow> byte list list" where
  "accepted tr n [] = []"
| "accepted tr n (Op_Receive bs # xs) =
     (if length bs = n \<and> deliverable tr n then bs # accepted tr n xs else accepted tr n xs)"
| "accepted tr n (_ # xs) = accepted tr n xs"

lemma written_append [simp]: "written (xs @ ys) = written xs @ written ys"
  by (induction xs rule: written.induct) auto

lemma accepted_append [simp]: "accepted tr n (xs @ ys) = accepted tr n xs @ accepted tr n ys"
  by (induction tr n xs rule: accepted.induct) auto

text \<open>What a buffer for payloads of size \<open>n\<close> holds: the last one, or zeros before the first.\<close>

definition latest :: "nat \<Rightarrow> byte list list \<Rightarrow> byte list" where
  "latest n bss = (if bss = [] then replicate n 0 else last bss)"

lemma accepted_length: "c \<in> set (accepted tr n xs) \<Longrightarrow> length c = n"
  by (induction tr n xs rule: accepted.induct) (auto split: if_splits)

lemma accepted_undeliverable: "\<not> deliverable tr n \<Longrightarrow> accepted tr n xs = []"
  by (induction tr n xs rule: accepted.induct) auto

lemma perform_all_snoc:
  "perform_all SC kc env (xs @ [x]) s = do { s \<leftarrow> perform_all SC kc env xs s; perform SC kc env x s }"
  by (induction xs arbitrary: s) (auto split: bind_split)

section \<open>The client over two codecs\<close>

locale client_codecs =
  st: state_codec SC sfits sctx ready complete enc +
  cm: command_codec CC cfits cctx room encodes store
  for SC :: "('sc, 'sp, 'sv) state_codec_ops" and sfits sctx ready complete enc
    and CC :: "('cc, 'cp, 'cv) command_codec_ops" and cfits cctx room encodes store
begin

text \<open>The state of an initialised client after the operations \<open>ops\<close>.\<close>

definition up_static :: "client_config \<Rightarrow> 'sp \<Rightarrow> 'cp \<Rightarrow> ('sc, 'cc) client \<Rightarrow> ctransport \<Rightarrow> bool" where
  "up_static kc sp cp cl t \<longleftrightarrow> cl_initialized cl \<and> sfits sp (kc_max_state kc) \<and> cfits cp (kc_max_cmd kc) \<and>
     cl_state_ctx cl = sctx sp \<and> cl_cmd_ctx cl = cctx cp \<and>
     cl_state_payload_size cl = sc_payload_size SC (sctx sp) \<and> cl_cmd_payload_size cl = cc_payload_size CC (cctx cp) \<and>
     transport_inv (kc_transport kc) t \<and> (\<exists>i. cl_pub cl = Some i \<and> i \<in> used_pubs t) \<and>
     (\<exists>j. cl_sub cl = Some j \<and> sub_user_cb (tr_subs t ! j) = Some On_Transport_Cmd_Cb \<and>
        sub_user_data (tr_subs t ! j) = Some ())"

definition state_ok :: "client_config \<Rightarrow> 'sp \<Rightarrow> 'sv list \<Rightarrow> double_buffer \<Rightarrow> bool" where
  "state_ok kc sp vs b \<longleftrightarrow> db_wf (kc_max_state kc) b \<and> slots_all (ready sp) b \<and>
     (vs \<noteq> [] \<longrightarrow> take (unat (sc_payload_size SC (sctx sp))) (active_slot b) = enc sp (last vs))"

definition cmd_ok :: "client_config \<Rightarrow> 'cp \<Rightarrow> byte list list \<Rightarrow> double_buffer \<Rightarrow> u32 \<Rightarrow> bool" where
  "cmd_ok kc cp bss b n \<longleftrightarrow> db_wf (kc_max_cmd kc) b \<and> n = of_nat (length bss) \<and>
     take (unat (cc_payload_size CC (cctx cp))) (active_slot b) = latest (unat (cc_payload_size CC (cctx cp))) bss"

definition up :: "client_config \<Rightarrow> 'sp \<Rightarrow> 'cp \<Rightarrow> 'sv client_op list \<Rightarrow> ('sc, 'cc) client \<times> ctransport \<Rightarrow> bool" where
  "up kc sp cp ops s \<longleftrightarrow> up_static kc sp cp (fst s) (snd s) \<and>
     state_ok kc sp (written ops) (cl_state_buffer (fst s)) \<and>
     cmd_ok kc cp (accepted (cfg_tier (kc_transport kc)) (unat (cc_payload_size CC (cctx cp))) ops)
       (cl_cmd_buffer (fst s)) (cl_cmd_accepted (fst s))"

lemma client_init_codecs:
  assumes fits: "sfits sp (kc_max_state kc)" "cfits cp (kc_max_cmd kc)" and sc: "length scratch = kc_max_cmd kc"
    and n: "\<not> cl_initialized cl"
  shows "\<exists>slot0 slot1. ready sp slot0 \<and> ready sp slot1 \<and> length slot0 = kc_max_state kc \<and> length slot1 = kc_max_state kc \<and>
    client_init SC CC kc env f sp cp scratch cl t =
      init_base kc env f (sc_payload_size SC (sctx sp)) (cc_payload_size CC (cctx cp))
        ((reset_buffers kc cl)\<lparr> cl_state_buffer := (db_reset (kc_max_state kc))\<lparr> slots := [slot0, slot1] \<rparr>,
           cl_state_ctx := sctx sp, cl_cmd_ctx := cctx cp \<rparr>) t"
proof -
  obtain b where b: "sc_init SC sp (replicate (kc_max_state kc) 0) = Some (sctx sp, b)" "ready sp b"
      "length b = kc_max_state kc" using st.init_ready [OF fits(1)] by blast
  obtain s where "cc_init CC cp scratch = Some (cctx cp, s)" using cm.init_ctx [OF fits(2) sc] by blast
  then have "client_init SC CC kc env f sp cp scratch cl t =
      init_base kc env f (sc_payload_size SC (sctx sp)) (cc_payload_size CC (cctx cp))
        ((reset_buffers kc cl)\<lparr> cl_state_buffer := (db_reset (kc_max_state kc))\<lparr> slots := [b, b] \<rparr>,
           cl_state_ctx := sctx sp, cl_cmd_ctx := cctx cp \<rparr>) t"
    using n b(1) by (simp add: client_init_def reset_buffers_def db_reset_def Let_def)
  then show ?thesis using b(2,3) by blast
qed

lemma up_init:
  assumes fits: "sfits sp (kc_max_state kc)" "cfits cp (kc_max_cmd kc)" and sc: "length scratch = kc_max_cmd kc"
    and n: "\<not> cl_initialized cl" and t: "transport_inv (kc_transport kc) t"
    and i: "client_init SC CC kc env f sp cp scratch cl t = Some (r, cl', t')" and u: "cl_initialized cl'"
  shows "up kc sp cp [] (cl', t')"
proof -
  obtain s0 s1 where s: "ready sp s0" "ready sp s1" "length s0 = kc_max_state kc" "length s1 = kc_max_state kc"
      "init_base kc env f (sc_payload_size SC (sctx sp)) (cc_payload_size CC (cctx cp))
        ((reset_buffers kc cl)\<lparr> cl_state_buffer := (db_reset (kc_max_state kc))\<lparr> slots := [s0, s1] \<rparr>,
           cl_state_ctx := sctx sp, cl_cmd_ctx := cctx cp \<rparr>) t = Some (r, cl', t')"
    using client_init_codecs [OF fits sc n, of env f t] i by auto
  have b: "db_wf (kc_max_state kc) ((db_reset (kc_max_state kc))\<lparr> slots := [s0, s1] \<rparr>)"
    using s by (simp add: db_wf_def db_reset_def)
  have "\<not> cl_initialized ((reset_buffers kc cl)\<lparr> cl_state_buffer := x, cl_state_ctx := y, cl_cmd_ctx := z \<rparr>)" for x y z
    using n by (simp add: reset_buffers_def)
  from init_base_up [OF s(5) this u t] show ?thesis
    using s(1,2) b fits u cm.size_fits [OF fits(2)] db_wf_reset [of "kc_max_cmd kc"]
    by (simp add: up_def up_static_def state_ok_def cmd_ok_def slots_all_def reset_buffers_def latest_def active_slot_def
      db_reset_def min_def)
qed

lemma state_ok_write:
  assumes b: "state_ok kc sp vs b" and c: "complete sp v"
  shows "\<exists>s. sc_write SC (sctx sp) v (slots b ! unat (prepare_write_slot b)) = Some s \<and>
    state_ok kc sp (vs @ [v]) (commit_write_slot (prepare_write_slot b) (b\<lparr> slots := (slots b)[unat (prepare_write_slot b) := s] \<rparr>))"
proof -
  have wf: "db_wf (kc_max_state kc) b" and r: "slots_all (ready sp) b" using b by (simp_all add: state_ok_def)
  obtain s where s: "sc_write SC (sctx sp) v (slots b ! unat (prepare_write_slot b)) = Some s" "ready sp s"
      "length s = length (slots b ! unat (prepare_write_slot b))"
      "take (unat (sc_payload_size SC (sctx sp))) s = enc sp v"
    using st.write_ready [OF inactive_slot_P [OF wf r] c] by blast
  have "length s = kc_max_state kc" using s(3) db_wf_inactive [OF wf] by simp
  from write_slot_commit [OF wf this r s(2)] show ?thesis using s by (simp add: state_ok_def Let_def)
qed

lemma cmd_ok_accept:
  assumes b: "cmd_ok kc cp bss b n" and f: "cfits cp (kc_max_cmd kc)"
    and l: "length bs = unat (cc_payload_size CC (cctx cp))"
  shows "\<exists>b'. write_to_buffer bs b = Some b' \<and> cmd_ok kc cp (bss @ [bs]) b' (n + 1)"
proof -
  have "length bs \<le> kc_max_cmd kc" using cm.size_fits [OF f] l by simp
  from write_to_buffer_wf [OF _ this, of b] b show ?thesis using l by (auto simp: cmd_ok_def latest_def)
qed

lemma receive_up:
  assumes u: "up_static kc sp cp cl t"
  shows "client_receive kc bs cl t =
    (if deliverable (cfg_tier (kc_transport kc)) (length bs) then on_transport_cmd_cb bs cl else Some cl)"
  using u by (cases "cfg_tier (kc_transport kc)")
    (auto simp: up_static_def client_receive_def internal_sub_handler_def rx_buf_size_def deliverable_def
      mem_simps Let_def Suc_le_eq)

lemma publish_up:
  assumes u: "up kc sp cp ops (cl, t)" and w: "written ops \<noteq> []"
  shows "zenoh_publish_state kc env cl t =
    zenbedded_transport_publish (kc_transport kc) (ce_zenoh env) (cl_pub cl) (enc sp (last (written ops))) t"
proof -
  have b: "db_wf (kc_max_state kc) (cl_state_buffer cl)" and n: "unat (sc_payload_size SC (sctx sp)) \<le> kc_max_state kc"
    and c: "cl_initialized cl" "cl_state_payload_size cl = sc_payload_size SC (sctx sp)"
    and e: "take (unat (sc_payload_size SC (sctx sp))) (active_slot (cl_state_buffer cl)) = enc sp (last (written ops))"
    using u w st.size_fits by (auto simp: up_def up_static_def state_ok_def)
  have l: "length (enc sp (last (written ops))) = unat (sc_payload_size SC (sctx sp))"
    using e [symmetric] db_wf_active [OF b] n by simp
  show ?thesis
    using c n e l by (simp add: zenoh_publish_state_def read_until_consistent_ok [OF b n] mem_simps)
qed

lemma up_perform:
  assumes u: "up kc sp cp ops s" and c: "\<And>v. x = Op_Write v \<Longrightarrow> complete sp v"
    and p: "perform SC kc env x s = Some s'"
  shows "up kc sp cp (ops @ [x]) s'"
proof -
  obtain cl t where s: "s = (cl, t)" by (cases s)
  have us: "up_static kc sp cp cl t" and so: "state_ok kc sp (written ops) (cl_state_buffer cl)"
    and f: "cfits cp (kc_max_cmd kc)"
    and co: "cmd_ok kc cp (accepted (cfg_tier (kc_transport kc)) (unat (cc_payload_size CC (cctx cp))) ops)
       (cl_cmd_buffer cl) (cl_cmd_accepted cl)"
    using u by (auto simp: up_def up_static_def s)
  show ?thesis
  proof (cases x)
    case (Op_Write v)
    have "cl_initialized cl" "cl_state_ctx cl = sctx sp" using us by (simp_all add: up_static_def)
    then show ?thesis
      using state_ok_write [OF so c [OF Op_Write]] p u
      by (auto simp: Op_Write s write_state_def Let_def up_def up_static_def)
  next
    case Op_Publish
    then obtain r t' where t': "zenoh_publish_state kc env cl t = Some (r, t')" "s' = (cl, t')"
      using p s by (auto simp: bind_eq_Some_conv)
    then obtain data where d: "zenbedded_transport_publish (kc_transport kc) (ce_zenoh env) (cl_pub cl) data t = Some (r, t')"
      using us by (auto simp: zenoh_publish_state_def up_static_def bind_eq_Some_conv)
    have "transport_inv (kc_transport kc) t" using us by (simp add: up_static_def)
    from publish_session [OF this d] publish_subs [OF d] show ?thesis
      using u t'(2) by (simp add: Op_Publish up_def up_static_def s)
  next
    case (Op_Receive bs)
    then have p': "client_receive kc bs cl t = Some (fst s') \<and> snd s' = t"
      using p s by (auto simp: bind_eq_Some_conv)
    have n: "cl_cmd_payload_size cl = cc_payload_size CC (cctx cp)" using us by (simp add: up_static_def)
    show ?thesis
    proof (cases "deliverable (cfg_tier (kc_transport kc)) (length bs) \<and> length bs = unat (cc_payload_size CC (cctx cp))")
      case False
      then have "fst s' = cl" using p' n receive_up [OF us, of bs] by (auto simp: on_transport_cmd_cb_def split: if_splits)
      then show ?thesis using u p' False by (auto simp: Op_Receive up_def s)
    next
      case True
      obtain b' where b': "write_to_buffer bs (cl_cmd_buffer cl) = Some b'"
          "cmd_ok kc cp (accepted (cfg_tier (kc_transport kc)) (unat (cc_payload_size CC (cctx cp))) ops @ [bs]) b'
            (cl_cmd_accepted cl + 1)"
        using cmd_ok_accept [OF co f, of bs] True by blast
      then have "s' = (cl\<lparr> cl_cmd_buffer := b', cl_cmd_accepted := cl_cmd_accepted cl + 1 \<rparr>, t)"
        using p' True n receive_up [OF us, of bs] by (cases s') (auto simp: on_transport_cmd_cb_def split: if_splits)
      then show ?thesis
        using us so b'(2) True by (auto simp: Op_Receive up_def up_static_def)
    qed
  qed
qed

lemma up_perform_all:
  assumes "up kc sp cp ops s" and "\<forall>v \<in> set (written xs). complete sp v" and "perform_all SC kc env xs s = Some s'"
  shows "up kc sp cp (ops @ xs) s'"
  using assms
proof (induction xs arbitrary: ops s)
  case (Cons x xs)
  obtain s1 where s1: "perform SC kc env x s = Some s1" "perform_all SC kc env xs s1 = Some s'"
    using Cons.prems(3) by (auto simp: bind_eq_Some_conv)
  have "up kc sp cp (ops @ [x]) s1"
    using up_perform [OF Cons.prems(1) _ s1(1)] Cons.prems(2) by auto
  moreover have "\<forall>v \<in> set (written xs). complete sp v" using Cons.prems(2) by (cases x) auto
  ultimately show ?case using Cons.IH s1(2) by fastforce
qed simp

lemma read_command_bytes:
  fixes cp
  defines "n \<equiv> cc_payload_size CC (cctx cp)"
  assumes u: "up kc sp cp ops (cl, t)"
  shows "read_command CC kc out cl =
    cc_read CC (cctx cp) (latest (unat n) (accepted (cfg_tier (kc_transport kc)) (unat n) ops) @ replicate (kc_max_cmd kc - unat n) 0) n out \<and>
    length (latest (unat n) (accepted (cfg_tier (kc_transport kc)) (unat n) ops)) = unat n \<and> unat n \<le> kc_max_cmd kc"
proof -
  have f: "cfits cp (kc_max_cmd kc)" and b: "db_wf (kc_max_cmd kc) (cl_cmd_buffer cl)"
    and c: "cl_initialized cl" "cl_cmd_payload_size cl = n" "cl_cmd_ctx cl = cctx cp"
    and l: "take (unat n) (active_slot (cl_cmd_buffer cl)) =
      latest (unat n) (accepted (cfg_tier (kc_transport kc)) (unat n) ops)"
    using u by (auto simp: up_def up_static_def cmd_ok_def n_def)
  have n: "unat n \<le> kc_max_cmd kc" using cm.size_fits [OF f] by (simp add: n_def)
  let ?d = "take (unat n) (active_slot (cl_cmd_buffer cl))"
  have dl: "length ?d = unat n" using db_wf_active [OF b] n by simp
  then have "read_command CC kc out cl = cc_read CC (cctx cp) (?d @ drop (unat n) (replicate (kc_max_cmd kc) 0)) n out"
    using c n by (simp add: read_command_def read_until_consistent_ok [OF b n] mem_simps)
  then show ?thesis using dl n by (simp add: l)
qed

lemma read_command_latest:
  assumes u: "up kc sp cp ops (cl, t)" and k: "kc_max_cmd kc < 2 ^ 32" and rm: "room cp out"
    and e: "encodes cp v (latest (unat (cc_payload_size CC (cctx cp)))
      (accepted (cfg_tier (kc_transport kc)) (unat (cc_payload_size CC (cctx cp))) ops))"
  shows "read_command CC kc out cl = Some (True, store v out)"
proof -
  have f: "cfits cp (kc_max_cmd kc)" using u by (simp add: up_def up_static_def)
  from read_command_bytes [OF u, of out] show ?thesis
    using cm.read_encoded [OF f rm, of "cc_payload_size CC (cctx cp)" _ v] k e by simp
qed

lemma read_command_up:
  assumes "up kc sp cp ops (cl, t)" and "kc_max_cmd kc < 2 ^ 32" and "room cp out"
    and "accepted (cfg_tier (kc_transport kc)) (unat (cc_payload_size CC (cctx cp))) ops \<noteq> []"
    and "encodes cp v (last (accepted (cfg_tier (kc_transport kc)) (unat (cc_payload_size CC (cctx cp))) ops))"
  shows "read_command CC kc out cl = Some (True, store v out)"
  by (rule read_command_latest [OF assms(1-3)]) (use assms(4,5) in \<open>simp add: latest_def\<close>)

text \<open>No operation of an initialised client is undefined, apart from a publication whose stamp
  or sequence number overflows.\<close>

lemma client_init_accepts:
  assumes fits: "sfits sp (kc_max_state kc)" "cfits cp (kc_max_cmd kc)" and sc: "length scratch = kc_max_cmd kc"
    and t: "transport_inv (kc_transport kc) t" "\<not> tr_initialized t"
    and z: "\<And>log c. (\<forall>i p a. c \<noteq> Z_Publisher_Put i p a) \<Longrightarrow> z_ok (ce_zenoh env) log c"
    and f: "f \<noteq> 0" and cl: "\<not> cl_initialized cl" "\<not> cl_started cl" "\<not> cl_thread_alive cl"
  shows "\<exists>cl' t'. client_init SC CC kc env f sp cp scratch cl t = Some (0, cl', t') \<and> cl_initialized cl' \<and>
    cl_thread_alive cl' \<and> cl_running cl' \<and> cl_control_freq cl' = f"
proof -
  obtain s0 s1 where e: "client_init SC CC kc env f sp cp scratch cl t =
      init_base kc env f (sc_payload_size SC (sctx sp)) (cc_payload_size CC (cctx cp))
        ((reset_buffers kc cl)\<lparr> cl_state_buffer := (db_reset (kc_max_state kc))\<lparr> slots := [s0, s1] \<rparr>,
           cl_state_ctx := sctx sp, cl_cmd_ctx := cctx cp \<rparr>) t"
    using client_init_codecs [OF fits sc cl(1)] by blast
  show ?thesis
    unfolding e by (rule init_base_accepts [OF t z st.size_fits [OF fits(1)] cm.size_fits [OF fits(2)] f])
      (use cl in \<open>simp_all add: reset_buffers_def\<close>)
qed

lemma perform_defined:
  assumes u: "up kc sp cp ops (cl, t)" and c: "\<And>v. x = Op_Write v \<Longrightarrow> complete sp v" and x: "x \<noteq> Op_Publish"
  shows "\<exists>cl'. perform SC kc env x (cl, t) = Some (cl', t)"
proof (cases x)
  case (Op_Write v)
  have "cl_initialized cl" "cl_state_ctx cl = sctx sp" "state_ok kc sp (written ops) (cl_state_buffer cl)"
    using u by (simp_all add: up_def up_static_def)
  then show ?thesis using state_ok_write [OF _ c [OF Op_Write]] by (fastforce simp: Op_Write write_state_def Let_def)
next
  case (Op_Receive bs)
  have us: "up_static kc sp cp cl t" and f: "cfits cp (kc_max_cmd kc)"
    and co: "cmd_ok kc cp (accepted (cfg_tier (kc_transport kc)) (unat (cc_payload_size CC (cctx cp))) ops)
       (cl_cmd_buffer cl) (cl_cmd_accepted cl)"
    using u by (auto simp: up_def up_static_def)
  have n: "cl_cmd_payload_size cl = cc_payload_size CC (cctx cp)" using us by (simp add: up_static_def)
  have "\<exists>cl'. on_transport_cmd_cb bs cl = Some cl'"
    using cmd_ok_accept [OF co f, of bs] n by (auto simp: on_transport_cmd_cb_def)
  then show ?thesis using receive_up [OF us, of bs] by (auto simp: Op_Receive)
qed (use x in simp)

lemma perform_all_defined:
  assumes "up kc sp cp ops (cl, t)" and "\<forall>v \<in> set (written xs). complete sp v" and "Op_Publish \<notin> set xs"
  shows "\<exists>cl'. perform_all SC kc env xs (cl, t) = Some (cl', t)"
  using assms
proof (induction xs arbitrary: ops cl)
  case (Cons x xs)
  have c: "complete sp v" if "x = Op_Write v" for v using that Cons.prems(2) by simp
  obtain cl1 where p: "perform SC kc env x (cl, t) = Some (cl1, t)"
    using perform_defined [OF Cons.prems(1) c] Cons.prems(3) by auto
  have "\<forall>v \<in> set (written xs). complete sp v" using Cons.prems(2) by (cases x) auto
  then show ?case using Cons.IH [OF up_perform [OF Cons.prems(1) c p]] Cons.prems(3) p by simp
qed simp

lemma client_init_numbered:
  assumes "sfits sp (kc_max_state kc)" and "cfits cp (kc_max_cmd kc)" and "length scratch = kc_max_cmd kc"
    and n: "\<not> cl_initialized cl" and i: "client_init SC CC kc env f sp cp scratch cl t = Some (r, cl', t')"
    and u: "cl_initialized cl'" and t1: "cfg_tier (kc_transport kc) = Tier1"
  shows "\<exists>i. cl_pub cl' = Some i \<and> i < length (tr_pubs t') \<and> pub_in_use (tr_pubs t' ! i) \<and>
    sequence_number (pub_attachment (tr_pubs t' ! i)) = 0"
proof -
  obtain s0 s1 where s: "init_base kc env f (sc_payload_size SC (sctx sp)) (cc_payload_size CC (cctx cp))
        ((reset_buffers kc cl)\<lparr> cl_state_buffer := (db_reset (kc_max_state kc))\<lparr> slots := [s0, s1] \<rparr>,
           cl_state_ctx := sctx sp, cl_cmd_ctx := cctx cp \<rparr>) t = Some (r, cl', t')"
    using client_init_codecs [OF assms(1-4), of env f t] i by auto
  show ?thesis by (rule init_base_numbered [OF s _ u t1]) (use n in \<open>simp add: reset_buffers_def\<close>)
qed

end

end
