(* ===== verification/Client_Props.thy ===== *)
theory Client_Props
  imports Client_Proofs
begin

text \<open>
  The properties of the client: what it puts on the wire and hands to the application, its life
  cycle, and the timing of its control thread.
\<close>

section \<open>The clients of the repository\<close>

interpretation joint_client: client_codecs JointStateCodec js_fits js_ctx js_ready js_complete js_wire
    JointCommandCodec jc_fits jc_ctx jc_room jc_encodes jc_store
  by unfold_locales

interpretation raw_client: client_codecs "RawCodec_state n" "raw_fits n" "\<lambda>p. ()" "\<lambda>p buf. unat n \<le> length buf"
    "raw_object n" "\<lambda>p v. v" "RawCodec_command m" "raw_fits m" "\<lambda>p. ()" "raw_object m" "raw_encodes m" "\<lambda>v out. v"
  for n m
  by unfold_locales

lemma publish_log:
  assumes "zenbedded_transport_publish cfg env (Some i) payload t = Some (r, t')" and "pub_in_use (tr_pubs t ! i)"
  shows "\<exists>a ok. tr_log t' = tr_log t @ [(Z_Publisher_Put i payload a, ok)] \<and> r = (if ok then 0 else -1)"
proof -
  have i: "i < length (tr_pubs t)" using assms(1) by (simp add: zenbedded_transport_publish_def split: if_splits)
  show ?thesis
  proof (cases "cfg_tier cfg")
    case Tier1
    let ?a = "stamp_attachment (clock env (tr_log t)) (pub_attachment (tr_pubs t ! i))"
    obtain a where a: "?a = Some a" using assms i Tier1 by (cases ?a) (simp_all add: zenbedded_transport_publish_def)
    let ?c = "Z_Publisher_Put i payload (Some (attachment_bytes a))"
    have "zenbedded_transport_publish cfg env (Some i) payload t =
        Some (if z_ok env (tr_log t) ?c then 0 else -1, zcall_void env ?c (update_pub i (\<lambda>p. p\<lparr> pub_attachment := a \<rparr>) t))"
      using assms(2) i Tier1 a by (simp add: zenbedded_transport_publish_def zcall_conv)
    then have "r = (if z_ok env (tr_log t) ?c then 0 else -1)" and "tr_log t' = tr_log t @ [(?c, z_ok env (tr_log t) ?c)]"
      using assms(1) by (auto simp: zcall_void_def zcall_def)
    then show ?thesis by blast
  next
    case Tier2
    let ?c = "Z_Publisher_Put i payload None"
    have "zenbedded_transport_publish cfg env (Some i) payload t =
        Some (if z_ok env (tr_log t) ?c then 0 else -1, zcall_void env ?c t)"
      using assms(2) i Tier2 by (simp add: zenbedded_transport_publish_def zcall_conv)
    then have "r = (if z_ok env (tr_log t) ?c then 0 else -1)" and "tr_log t' = tr_log t @ [(?c, z_ok env (tr_log t) ?c)]"
      using assms(1) by (auto simp: zcall_void_def zcall_def)
    then show ?thesis by blast
  qed
qed

lemma js_wire_read:
  assumes f: "js_fits p k" and c: "js_complete p v"
  shows "read_joint_state (js_wire p v) =
    Some \<lparr> msg_stamp = (jsv_stamp_sec v, jsv_stamp_nanosec v), msg_frame_id = js_frame p, msg_name = js_names p,
           msg_position = the (jsv_positions v), msg_velocity = the (jsv_velocities v), msg_effort = the (jsv_efforts v) \<rparr>"
proof -
  have nm: "length (js_names p) = unat (jsp_num_joints p)" using f by (rule js_names_length)
  obtain a b e where v: "jsv_positions v = Some a" "jsv_velocities v = Some b" "jsv_efforts v = Some e"
      "length a = length (js_names p)" "length b = length (js_names p)" "length e = length (js_names p)"
    using c nm by (auto simp: js_complete_def)
  let ?m = "cdr_joint_state (Some (jsv_stamp_sec v, jsv_stamp_nanosec v)) (js_frame p) (js_names p) (Some a) (Some b) (Some e)"
  have "0 < length (js_names p)" using f nm by (simp add: js_fits_def)
  then have "length ?m = js_size p"
    unfolding js_size_def using v by (intro length_joint_state_layout) simp_all
  then have "carries (js_wire p v) ?m" unfolding js_wire_def v by (intro carries_overlay) simp
  moreover have "length (js_wire p v) < 2 ^ 32" using f by (simp add: js_wire_def js_fits_def)
  ultimately show ?thesis using read_joint_state_carries [OF v(4-6)] v by simp
qed

lemma publish_up_log:
  assumes e: "zenoh_publish_state kc env cl t = zenbedded_transport_publish (kc_transport kc) (ce_zenoh env) (cl_pub cl) payload t"
    and p: "zenoh_publish_state kc env cl t = Some (r, t')" and i: "\<exists>i. cl_pub cl = Some i \<and> i \<in> used_pubs t"
  shows "\<exists>i a ok. i \<in> used_pubs t \<and> tr_log t' = tr_log t @ [(Z_Publisher_Put i payload a, ok)] \<and> r = (if ok then 0 else -1)"
proof -
  obtain i where "cl_pub cl = Some i" "i \<in> used_pubs t" using i by blast
  moreover from this have "pub_in_use (tr_pubs t ! i)" using used_pubs_iff by blast
  ultimately show ?thesis using publish_log [of "kc_transport kc" "ce_zenoh env" i payload t r t'] e p by metis
qed

section \<open>Messages\<close>

text \<open>End to end, outgoing: once the client is initialised, whatever the application writes, the
  control thread publishes and the network delivers, in any order, the next publication puts one
  payload on a declared publisher, and a ROS 2 subscriber decodes it to exactly the joint state that
  was written last.\<close>

theorem joint_client_publishes_last_written:
  assumes t: "transport_reachable (kc_transport kc) (ce_zenoh env) t" and n: "\<not> cl_initialized cl"
    and fits: "js_fits sp (kc_max_state kc)" "jc_fits cp (kc_max_cmd kc)" "length scratch = kc_max_cmd kc"
    and init: "client_init JointStateCodec JointCommandCodec kc env f sp cp scratch cl t = Some (r, cl1, t1)"
    and up: "cl_initialized cl1"
    and ops: "perform_all JointStateCodec kc env ops (cl1, t1) = Some (cl2, t2)"
    and w: "\<forall>v \<in> set (written ops). js_complete sp v" "written ops \<noteq> []"
    and pub: "zenoh_publish_state kc env cl2 t2 = Some (r', t3)"
  shows "\<exists>i payload a ok. i \<in> used_pubs t2 \<and>
    tr_log t3 = tr_log t2 @ [(Z_Publisher_Put i payload a, ok)] \<and> r' = (if ok then 0 else -1) \<and>
    read_joint_state payload =
      Some \<lparr> msg_stamp = (jsv_stamp_sec (last (written ops)), jsv_stamp_nanosec (last (written ops))),
             msg_frame_id = js_frame sp, msg_name = js_names sp,
             msg_position = the (jsv_positions (last (written ops))),
             msg_velocity = the (jsv_velocities (last (written ops))),
             msg_effort = the (jsv_efforts (last (written ops))) \<rparr>"
proof -
  have u: "joint_client.up kc sp cp ops (cl2, t2)"
    using joint_client.up_perform_all [OF joint_client.up_init [OF fits n transport_reachable_inv [OF t] init up] w(1) ops]
    by simp
  have "js_complete sp (last (written ops))" using w by simp
  note msg = js_wire_read [OF fits(1) this]
  have "\<exists>i. cl_pub cl2 = Some i \<and> i \<in> used_pubs t2"
    using u by (simp add: joint_client.up_def joint_client.up_static_def)
  from publish_up_log [OF joint_client.publish_up [OF u w(2)] pub this] msg show ?thesis by blast
qed

text \<open>C3: End to end, incoming: after any sequence of operations the application reads exactly the
  joint command that was accepted last, that is the last one delivered with the size of the
  layout, and \<open>accepted_command_count\<close> is the number of accepted ones modulo \<open>2 ^ 32\<close>. Payloads of
  another size change neither.\<close>

theorem joint_client_reads_last_command:
  assumes t: "transport_reachable (kc_transport kc) (ce_zenoh env) t" and n: "\<not> cl_initialized cl"
    and fits: "js_fits sp (kc_max_state kc)" "jc_fits cp (kc_max_cmd kc)" "length scratch = kc_max_cmd kc"
    and init: "client_init JointStateCodec JointCommandCodec kc env f sp cp scratch cl t = Some (r, cl1, t1)"
    and up: "cl_initialized cl1"
    and ops: "perform_all JointStateCodec kc env ops (cl1, t1) = Some (cl2, t2)"
    and w: "\<forall>v \<in> set (written ops). js_complete sp v"
    and room: "jc_room cp out"
    and acc: "cmds = accepted (cfg_tier (kc_transport kc)) (jc_size cp) ops" "cmds \<noteq> []" "jc_encodes cp v (last cmds)"
  shows "read_command JointCommandCodec kc out cl2 = Some (True, jc_store v out) \<and>
    cl_cmd_accepted cl2 = of_nat (length cmds)"
proof -
  have u: "joint_client.up kc sp cp ops (cl2, t2)"
    using joint_client.up_perform_all [OF joint_client.up_init [OF fits n transport_reachable_inv [OF t] init up] w ops]
    by simp
  have sz: "unat (cc_payload_size JointCommandCodec (jc_ctx cp)) = jc_size cp"
    using jc_payload [OF fits(2)] by (simp add: JointCommandCodec_def)
  have k: "kc_max_cmd kc < 2 ^ 32" using fits(2) by (simp add: jc_fits_def)
  show ?thesis
    using joint_client.read_command_up [OF u k room, of v] acc u
    by (simp add: sz joint_client.up_def joint_client.cmd_ok_def)
qed

text \<open>The raw client moves objects unchanged: the next publication carries the bytes of the
  object written last, and \<open>read_command\<close> returns the bytes of the payload accepted last.\<close>

theorem raw_client_moves_objects:
  assumes t: "transport_reachable (kc_transport kc) (ce_zenoh env) t" and n: "\<not> cl_initialized cl"
    and fits: "unat sz_state \<le> kc_max_state kc" "unat sz_cmd \<le> kc_max_cmd kc" "length scratch = kc_max_cmd kc"
      "kc_max_cmd kc < 2 ^ 32"
    and init: "client_init (RawCodec_state sz_state) (RawCodec_command sz_cmd) kc env f () () scratch cl t = Some (r, cl1, t1)"
    and up: "cl_initialized cl1"
    and ops: "perform_all (RawCodec_state sz_state) kc env ops (cl1, t1) = Some (cl2, t2)"
    and w: "\<forall>v \<in> set (written ops). length v = unat sz_state" "written ops \<noteq> []"
    and out: "length out = unat sz_cmd"
    and acc: "cmds = accepted (cfg_tier (kc_transport kc)) (unat sz_cmd) ops" "cmds \<noteq> []"
  shows "zenoh_publish_state kc env cl2 t2 =
      zenbedded_transport_publish (kc_transport kc) (ce_zenoh env) (cl_pub cl2) (last (written ops)) t2 \<and>
    read_command (RawCodec_command sz_cmd) kc out cl2 = Some (True, last cmds)"
proof -
  have f: "raw_fits sz_state () (kc_max_state kc)" "raw_fits sz_cmd () (kc_max_cmd kc)"
    using fits by (simp_all add: raw_fits_def)
  have "\<forall>v \<in> set (written ops). raw_object sz_state () v" using w(1) by (simp add: raw_object_def)
  from raw_client.up_perform_all [OF raw_client.up_init [OF f fits(3) n transport_reachable_inv [OF t] init up] this ops]
  have u: "raw_client.up sz_state sz_cmd kc () () ops (cl2, t2)" by simp
  have sz: "unat (cc_payload_size (RawCodec_command sz_cmd) ()) = unat sz_cmd" by (simp add: RawCodec_command_def)
  have "last cmds \<in> set cmds" using acc(2) by simp
  then have "length (last cmds) = unat sz_cmd" unfolding acc(1) by (rule accepted_length)
  then have "raw_encodes sz_cmd () (last cmds) (last cmds)" by (simp add: raw_encodes_def)
  then show ?thesis
    using raw_client.publish_up [OF u w(2)] raw_client.read_command_up [OF u fits(4), of out "last cmds"] acc out
    by (simp add: sz raw_object_def)
qed

text \<open>C40: In Tier 2 no command larger than the 64-byte receive buffer ever arrives: a client whose
  command type has more than 64 bytes initialises without an error as long as it fits the configured
  command buffer, but then accepts nothing, whatever is sent to it.\<close>

theorem tier2_large_commands_lost:
  assumes t: "transport_reachable (kc_transport kc) (ce_zenoh env) t" and n: "\<not> cl_initialized cl"
    and fits: "unat sz_state \<le> kc_max_state kc" "unat sz_cmd \<le> kc_max_cmd kc" "length scratch = kc_max_cmd kc"
    and tier: "cfg_tier (kc_transport kc) = Tier2" "64 < unat sz_cmd"
    and init: "client_init (RawCodec_state sz_state) (RawCodec_command sz_cmd) kc env f () () scratch cl t = Some (r, cl1, t1)"
    and up: "cl_initialized cl1"
    and ops: "perform_all (RawCodec_state sz_state) kc env ops (cl1, t1) = Some (cl2, t2)"
    and w: "\<forall>v \<in> set (written ops). length v = unat sz_state"
  shows "cl_cmd_accepted cl2 = 0"
proof -
  have f: "raw_fits sz_state () (kc_max_state kc)" "raw_fits sz_cmd () (kc_max_cmd kc)"
    using fits by (simp_all add: raw_fits_def)
  have "\<forall>v \<in> set (written ops). raw_object sz_state () v" using w(1) by (simp add: raw_object_def)
  from raw_client.up_perform_all [OF raw_client.up_init [OF f fits(3) n transport_reachable_inv [OF t] init up] this ops]
  have u: "raw_client.up sz_state sz_cmd kc () () ops (cl2, t2)" by simp
  have sz: "unat (cc_payload_size (RawCodec_command sz_cmd) ()) = unat sz_cmd" by (simp add: RawCodec_command_def)
  have "accepted Tier2 (unat sz_cmd) ops = []"
    using tier(2) by (intro accepted_undeliverable) (simp add: deliverable_def)
  then show ?thesis
    using u tier(1) by (simp add: raw_client.up_def raw_client.cmd_ok_def sz)
qed

section \<open>Life cycle\<close>

text \<open>Calls of the client's interface in any order, with any codecs.\<close>

inductive client_step ::
    "('sc, 'sp, 'sv) state_codec_ops \<Rightarrow> ('cc, 'cp, 'cv) command_codec_ops \<Rightarrow> client_config \<Rightarrow> client_env
       \<Rightarrow> ('sc, 'cc) client \<times> ctransport \<Rightarrow> ('sc, 'cc) client \<times> ctransport \<Rightarrow> bool"
  for SC CC kc env where
  cs_init: "client_init SC CC kc env f sp cp scratch cl t = Some (r, cl', t') \<Longrightarrow> client_step SC CC kc env (cl, t) (cl', t')"
| cs_destroy: "client_step SC CC kc env (cl, t) (client_destroy kc env cl t)"
| cs_start: "start_thread env f cl = Some (r, cl') \<Longrightarrow> client_step SC CC kc env (cl, t) (cl', t)"
| cs_stop: "client_step SC CC kc env (cl, t) (stop_thread env cl, t)"
| cs_op: "perform SC kc env x s = Some s' \<Longrightarrow> client_step SC CC kc env s s'"

inductive client_reachable ::
    "('sc, 'sp, 'sv) state_codec_ops \<Rightarrow> ('cc, 'cp, 'cv) command_codec_ops \<Rightarrow> client_config \<Rightarrow> client_env
       \<Rightarrow> ('sc, 'cc) client \<times> ctransport \<Rightarrow> bool"
  for SC CC kc env where
  cr_new: "client_reachable SC CC kc env (client_new kc sctx cctx, transport_static)"
| cr_step: "client_reachable SC CC kc env s \<Longrightarrow> client_step SC CC kc env s s' \<Longrightarrow> client_reachable SC CC kc env s'"

definition client_live :: "client_config \<Rightarrow> ('sc, 'cc) client \<times> ctransport \<Rightarrow> bool" where
  "client_live kc s \<longleftrightarrow> (case s of (cl, t) \<Rightarrow>
     transport_inv (kc_transport kc) t \<and>
     (cl_initialized cl \<longrightarrow> tr_initialized t \<and> (\<exists>i. cl_pub cl = Some i \<and> i \<in> used_pubs t) \<and> (\<exists>j. cl_sub cl = Some j) \<and>
        unat (cl_state_payload_size cl) \<le> kc_max_state kc \<and> unat (cl_cmd_payload_size cl) \<le> kc_max_cmd kc) \<and>
     (cl_thread_alive cl \<longleftrightarrow> cl_started cl) \<and>
     (cl_started cl \<longrightarrow> cl_initialized cl \<and> cl_running cl \<and> cl_control_freq cl \<noteq> 0))"

lemma stop_thread_frame [simp]:
  "cl_initialized (stop_thread env cl) = cl_initialized cl" "cl_pub (stop_thread env cl) = cl_pub cl"
  "cl_sub (stop_thread env cl) = cl_sub cl" "cl_state_payload_size (stop_thread env cl) = cl_state_payload_size cl"
  "cl_cmd_payload_size (stop_thread env cl) = cl_cmd_payload_size cl" "\<not> cl_started (stop_thread env cl)"
  by (simp_all add: stop_thread_def Let_def)

lemma stop_thread_alive: "cl_thread_alive cl = cl_started cl \<Longrightarrow> \<not> cl_thread_alive (stop_thread env cl)"
  by (simp add: stop_thread_def Let_def)

lemma start_thread_live:
  assumes l: "client_live kc (cl, t)" and s: "start_thread env f cl = Some (r, cl')"
  shows "client_live kc (cl', t)"
  using s l stop_thread_alive [of cl env]
  by (auto simp: start_thread_def client_live_def Let_def split: if_splits)

lemma stop_thread_live: "client_live kc (cl, t) \<Longrightarrow> client_live kc (stop_thread env cl, t)"
  using stop_thread_alive [of cl env] by (simp add: client_live_def)

lemma start_thread_initialized: "start_thread env f cl = Some (r, cl') \<Longrightarrow> cl_initialized cl' = cl_initialized cl"
  using start_thread_frame by blast

lemma start_thread_defined: "client_live kc (cl, t) \<Longrightarrow> start_thread env f cl \<noteq> None"
  using stop_thread_alive [of cl env] by (auto simp: start_thread_def client_live_def Let_def)

lemma init_base_live:
  assumes l: "client_live kc (cl, t)" and b: "init_base kc env f ss cs cl t = Some (r, cl', t')"
  shows "client_live kc (cl', t')"
proof (cases "cl_initialized cl")
  case True
  then show ?thesis using l b by (simp add: init_base_def)
next
  case n: False
  have tr: "transport_inv (kc_transport kc) t" using l by (simp add: client_live_def)
  have th: "\<not> cl_thread_alive cl" "\<not> cl_started cl" using l n by (auto simp: client_live_def)
  have i1: "transport_inv (kc_transport kc) u"
    if "zenbedded_transport_init (kc_transport kc) (ce_zenoh env) (kc_domain_id kc) (kc_node_name kc)
      (kc_zenoh_mode kc) (Some (kc_zenoh_ip_port kc)) t = (x, u)" for x u
    using transport_init_inv [OF tr] that by (metis snd_conv)
  show ?thesis using b n
  proof (cases rule: init_base_cases)
    case oversized
    then show ?thesis using tr th by (simp add: client_live_def)
  next
    case no_session
    then show ?thesis using i1 th by (simp add: client_live_def)
  next
    case (no_publisher t1)
    then show ?thesis using declare_publisher_session [OF i1] th by (simp add: client_live_def)
  next
    case (no_subscriber t1 t2 i)
    then show ?thesis
      using declare_subscriber_session [OF conjunct1 [OF declare_publisher_session [OF i1]]] th
      by (simp add: client_live_def)
  next
    case (up t1 t2 i j)
    note i2 = declare_publisher_session [OF i1 [OF up(3)] up(4)]
    note i3 = declare_subscriber_session [OF conjunct1 [OF i2] up(5)]
    define cu where "cu = cl\<lparr> cl_state_payload_size := ss, cl_cmd_payload_size := cs, cl_pub := Some i,
      cl_sub := Some j, cl_initialized := True, cl_control_freq := f \<rparr>"
    have "client_live kc (cu, t')" using i2 i3 th up(1,2) by (simp add: client_live_def cu_def)
    then show ?thesis using start_thread_live up(6) unfolding cu_def by blast
  qed
qed

lemma client_init_live:
  assumes l: "client_live kc (cl, t)" and b: "client_init SC CC kc env f sp cp scratch cl t = Some (r, cl', t')"
  shows "client_live kc (cl', t')"
proof (cases "cl_initialized cl")
  case True
  then show ?thesis using l b by (simp add: client_init_def)
next
  case False
  then obtain cl2 x y where e: "init_base kc env f x y cl2 t = Some (r, cl', t')"
      and c: "cl_initialized cl2 = cl_initialized cl" "cl_started cl2 = cl_started cl" "cl_thread_alive cl2 = cl_thread_alive cl"
    using b by (auto simp: client_init_def reset_buffers_def Let_def bind_eq_Some_conv)
  have "client_live kc (cl2, t)" using l False c by (auto simp: client_live_def)
  then show ?thesis using init_base_live e by blast
qed

lemma client_destroy_live: "client_live kc (cl, t) \<Longrightarrow> client_live kc (client_destroy kc env cl t)"
  using transport_destroy_inv [of "kc_transport kc" t "ce_zenoh env"] stop_thread_alive [of cl env]
  by (auto simp: client_destroy_def client_live_def Let_def)

lemma client_receive_cases:
  assumes "client_receive kc bs cl t = Some c"
  shows "c = cl \<or> (\<exists>bs'. on_transport_cmd_cb bs' cl = Some c)"
proof (cases "cl_sub cl")
  case None
  then show ?thesis using assms by (simp add: client_receive_def)
next
  case (Some j)
  then obtain call :: "(callback \<times> byte list \<times> unit option) option" where call: "(case call of Some (On_Transport_Cmd_Cb, bs, Some u) \<Rightarrow> on_transport_cmd_cb bs cl
      | _ \<Rightarrow> Some cl) = Some c"
    using assms by (auto simp: client_receive_def bind_eq_Some_conv)
  show ?thesis
  proof (cases call)
    case (Some x)
    obtain cb b u where "x = (cb, b, u)" by (cases x)
    then show ?thesis using call Some by (cases cb; cases u) auto
  qed (use call in simp)
qed

lemma perform_live:
  assumes l: "client_live kc s" and p: "perform SC kc env x s = Some s'"
  shows "client_live kc s'"
proof -
  obtain cl t where s: "s = (cl, t)" by (cases s)
  show ?thesis
  proof (cases x)
    case (Op_Write v)
    then show ?thesis using l p s by (auto simp: write_state_def Let_def bind_eq_Some_conv client_live_def split: if_splits)
  next
    case Op_Publish
    then obtain r t' where t': "zenoh_publish_state kc env cl t = Some (r, t')" "s' = (cl, t')"
      using p s by (auto simp: bind_eq_Some_conv)
    show ?thesis
    proof (cases "cl_initialized cl")
      case False
      then show ?thesis using t' l s by (simp add: zenoh_publish_state_def)
    next
      case True
      then obtain d where d: "zenbedded_transport_publish (kc_transport kc) (ce_zenoh env) (cl_pub cl) d t = Some (r, t')"
        using t'(1) by (auto simp: zenoh_publish_state_def bind_eq_Some_conv)
      have "transport_inv (kc_transport kc) t" using l s by (simp add: client_live_def)
      from publish_session [OF this d] show ?thesis using l s t'(2) by (simp add: client_live_def)
    qed
  next
    case (Op_Receive bs)
    then obtain c where c: "client_receive kc bs cl t = Some c" "s' = (c, t)" using p s by (auto simp: bind_eq_Some_conv)
    have "c = cl \<or> (\<exists>b. c = cl\<lparr> cl_cmd_buffer := b, cl_cmd_accepted := cl_cmd_accepted cl + 1 \<rparr>)"
      using client_receive_cases [OF c(1)] by (auto simp: on_transport_cmd_cb_def bind_eq_Some_conv split: if_splits)
    then show ?thesis using l s c(2) by (auto simp: client_live_def)
  qed
qed

lemma client_reachable_live: "client_reachable SC CC kc env s \<Longrightarrow> client_live kc s"
proof (induction rule: client_reachable.induct)
  case (cr_new sctx cctx)
  show ?case by (simp add: client_live_def client_new_def reset_buffers_def)
next
  case (cr_step s s')
  show ?case using cr_step.hyps(2)
  proof cases
    case cs_init
    then show ?thesis using cr_step.IH client_init_live by metis
  next
    case cs_destroy
    then show ?thesis using cr_step.IH client_destroy_live by metis
  next
    case cs_start
    then show ?thesis using cr_step.IH start_thread_live by metis
  next
    case cs_stop
    then show ?thesis using cr_step.IH stop_thread_live by metis
  next
    case cs_op
    then show ?thesis using cr_step.IH perform_live by blast
  qed
qed

text \<open>C7: In every state the client can reach, whatever was called, refused or failed before: an
  initialised client has an open session, handles to slots in use and payloads that fit their
  buffers; its control thread exists exactly when it was started, and then the client is
  initialised, the run flag is set and the frequency is not zero, so the thread never divides by zero
  and \<open>k_thread_create\<close> is never called on a live thread.\<close>

theorem client_life_cycle:
  assumes "client_reachable SC CC kc env (cl, t)"
  shows "(cl_initialized cl \<longrightarrow> tr_initialized t \<and> (\<exists>i. cl_pub cl = Some i \<and> i \<in> used_pubs t) \<and>
      unat (cl_state_payload_size cl) \<le> kc_max_state kc \<and> unat (cl_cmd_payload_size cl) \<le> kc_max_cmd kc) \<and>
    (cl_thread_alive cl \<longleftrightarrow> cl_started cl) \<and>
    (cl_started cl \<longrightarrow> cl_initialized cl \<and> cl_running cl \<and> period_ms (cl_control_freq cl) \<noteq> None) \<and>
    start_thread env f cl \<noteq> None"
  using client_reachable_live [OF assms] start_thread_defined [of kc cl t env f]
  by (auto simp: client_live_def period_ms_def)

text \<open>\<open>destroy\<close> of an initialised client stops the thread, closes the session and frees every slot,
  after which the client can be initialised again.\<close>

theorem client_destroy_releases:
  assumes "client_reachable SC CC kc env (cl, t)" and "cl_initialized cl"
    and "client_destroy kc env cl t = (cl', t')"
  shows "\<not> cl_initialized cl' \<and> \<not> cl_thread_alive cl' \<and> \<not> cl_started cl' \<and> cl_pub cl' = None \<and> cl_sub cl' = None \<and>
    session_of t' = Some z_closed \<and> used_pubs t' = {} \<and> used_subs t' = {}"
proof -
  have l: "client_live kc (cl, t)" using assms(1) by (rule client_reachable_live)
  then have "client_live kc (cl', t')" using client_destroy_live [of kc cl t env] assms(3) by simp
  moreover have d: "\<not> cl_initialized cl'" "cl_pub cl' = None" "cl_sub cl' = None"
      "t' = zenbedded_transport_destroy (kc_transport kc) (ce_zenoh env) t"
    using assms(2,3) by (auto simp: client_destroy_def Let_def)
  moreover have "\<not> tr_initialized t'"
    using transport_destroy_inv [of "kc_transport kc" t "ce_zenoh env"] l d(4) by (simp add: client_live_def)
  ultimately show ?thesis by (auto simp: client_live_def transport_inv_def)
qed

text \<open>C39: An initialisation that fails late leaks: when zenoh refuses only the subscriber, \<open>init\<close>
  returns \<open>-EIO\<close> with the session open and a publisher slot taken, and since the client does not
  count as initialised, \<open>destroy\<close> does nothing about it.\<close>

theorem failed_init_leaks_publisher:
  assumes "client_reachable SC CC kc env (cl, t)" and "\<not> cl_initialized cl"
    and "client_init SC CC kc env f sp cp scratch cl t = Some (r, cl', t')"
    and "\<not> cl_initialized cl'" and "cl_pub cl' \<noteq> None" and "cl_pub cl = None"
  shows "r = - EIO \<and> tr_initialized t' \<and> card (used_pubs t') = Suc (card (used_pubs t)) \<and>
    client_destroy kc env cl' t' = (cl', t')"
proof -
  obtain ss cs cl0 where b: "init_base kc env f ss cs cl0 t = Some (r, cl', t')"
      and c0: "\<not> cl_initialized cl0" "cl_pub cl0 = None"
    using assms(2,3,6) by (auto simp: client_init_def reset_buffers_def Let_def bind_eq_Some_conv)
  have tr: "transport_inv (kc_transport kc) t" using client_reachable_live [OF assms(1)] by (simp add: client_live_def)
  obtain t1 t2 i where
    t1: "zenbedded_transport_init (kc_transport kc) (ce_zenoh env) (kc_domain_id kc) (kc_node_name kc)
               (kc_zenoh_mode kc) (Some (kc_zenoh_ip_port kc)) t = (0, t1)"
    and p: "zenbedded_transport_declare_publisher (kc_transport kc) (ce_zenoh env) (kc_pub_topic kc)
            (optional_type kc (kc_state_type kc)) t1 = Some (Some i, t2)"
    and q: "zenbedded_transport_declare_subscriber (kc_transport kc) (ce_zenoh env) (kc_sub_topic kc)
            (optional_type kc (kc_cmd_type kc)) (Some On_Transport_Cmd_Cb) (Some ()) t2 = Some (None, t')"
    and r: "r = - EIO"
    using b c0(1)
  proof (cases rule: init_base_cases)
    case (up t1 t2 i j)
    then show ?thesis using start_thread_initialized [OF up(6)] assms(4) by simp
  qed (use c0(2) assms(5) that in auto)
  have i1: "transport_inv (kc_transport kc) t1" using transport_init_inv [OF tr] t1 by (metis snd_conv)
  note i2 = declare_publisher_session [OF i1 p]
  note i3 = declare_subscriber_session [OF conjunct1 [OF i2] q]
  have "used_pubs t1 = used_pubs t"
  proof (cases "tr_initialized t")
    case True
    then show ?thesis using t1 by (simp add: zenbedded_transport_init_def)
  next
    case False
    then show ?thesis using transport_init_unused [OF tr False t1] transport_inv_uninit [OF tr False] by simp
  qed
  moreover have "finite (used_pubs t1)" by (simp add: used_pubs_def)
  ultimately have "card (used_pubs t') = Suc (card (used_pubs t))" using i2 i3 by simp
  then show ?thesis using r i2 i3 assms(4) by (simp add: client_destroy_def)
qed

text \<open>A joint state layout that is too large for the state buffer is only partly handled. If the
  header and counts still fit, \<open>init\<close> returns \<open>-ENOMEM\<close> without touching the transport; if they do
  not, the codec has already written past the end of the buffer before the size is checked.\<close>

theorem client_init_oversized_layout:
  assumes "0 < unat (jsp_num_joints sp)" and "unat (jsp_num_joints sp) \<le> length (jsp_joint_names sp)"
    and "js_size sp < 2 ^ 32" and "kc_max_state kc < js_size sp"
    and "jc_fits cp (kc_max_cmd kc)" and "length scratch = kc_max_cmd kc" and "\<not> cl_initialized cl"
  shows "if kc_max_state kc < js_written (js_frame sp) (js_names sp)
    then client_init JointStateCodec JointCommandCodec kc env f sp cp scratch cl t = None
    else \<exists>cl'. client_init JointStateCodec JointCommandCodec kc env f sp cp scratch cl t = Some (- ENOMEM, cl', t) \<and>
      \<not> cl_initialized cl'"
proof -
  let ?k = "kc_max_state kc" and ?b = "replicate (kc_max_state kc) (0 :: byte)"
  have init: "sc_init JointStateCodec sp ?b =
      (if js_written (js_frame sp) (js_names sp) \<le> ?k
       then Some (js_ctx sp, overlay (cdr_joint_state None (js_frame sp) (js_names sp) None None None) ?b) else None)"
    using zcdr_init_joint_state_eq [OF assms(1,2), of "jsp_frame_id sp" ?b] assms(3)
    by (simp add: JointStateCodec_def js_frame_def js_names_def js_size_def js_ctx_def)
  obtain s where cmd: "cc_init JointCommandCodec cp scratch = Some (jc_ctx cp, s)"
    using joint_command.init_ctx [OF assms(5,6)] by blast
  have sz: "unat (sc_payload_size JointStateCodec (js_ctx sp)) = js_size sp"
    using assms(3) by (simp add: JointStateCodec_def js_ctx_def js_layout_payload js_size_def)
  show ?thesis
  proof (cases "?k < js_written (js_frame sp) (js_names sp)")
    case True
    then show ?thesis using init assms(7) by (simp add: client_init_def reset_buffers_def db_reset_def Let_def)
  next
    case False
    then show ?thesis
      using init cmd sz assms(4,7) by (simp add: client_init_def reset_buffers_def db_reset_def Let_def init_base_def)
  qed
qed

text \<open>If zenoh accepts every call, a client whose layouts fit its buffers initialises, at any
  non-zero frequency, and its control thread runs.\<close>

theorem client_init_succeeds:
  assumes "js_fits sp (kc_max_state kc)" and "jc_fits cp (kc_max_cmd kc)" and "length scratch = kc_max_cmd kc"
    and "client_reachable JointStateCodec JointCommandCodec kc env (cl, t)" and "\<not> cl_initialized cl" and "\<not> tr_initialized t"
    and "\<And>log c. z_ok (ce_zenoh env) log c" and "f \<noteq> 0"
  shows "\<exists>cl' t'. client_init JointStateCodec JointCommandCodec kc env f sp cp scratch cl t = Some (0, cl', t') \<and>
    cl_initialized cl' \<and> cl_thread_alive cl' \<and> cl_running cl' \<and> cl_control_freq cl' = f"
proof -
  have "client_live kc (cl, t)" using assms(4) by (rule client_reachable_live)
  then have "transport_inv (kc_transport kc) t" "\<not> cl_started cl" "\<not> cl_thread_alive cl"
    using assms(5) by (auto simp: client_live_def)
  then show ?thesis using joint_client.client_init_accepts [OF assms(1-3) _ assms(6-8,5)] by blast
qed

section \<open>Timing of the control thread\<close>

text \<open>The control thread's period is \<open>1000 div freq\<close> milliseconds but at least 1, and every cycle
  sleeps between one millisecond and one period: the rest of the period if the cycle took less, one
  millisecond otherwise. This holds across the wrap-around of the 32-bit uptime counter.\<close>

theorem control_cycle_sleep:
  assumes "period_ms freq = Some period"
  shows "unat period = max (1000 div unat freq) 1 \<and>
    sleep_ms period prev (prev + elapsed) = (if period \<le> elapsed then 1 else period - elapsed) \<and>
    1 \<le> sleep_ms period prev now \<and> sleep_ms period prev now \<le> period"
proof -
  have p: "period = max (1000 div freq) 1" "freq \<noteq> 0" using assms by (auto simp: period_ms_def split: if_splits)
  have one: "1 \<le> period" by (simp add: p(1))
  have "unat period = max (unat (1000 div freq :: u32)) (unat (1 :: u32))"
    unfolding p(1) by (auto simp: max_def word_le_nat_alt)
  then have u: "unat period = max (1000 div unat freq) 1" by (simp add: unat_div)
  have "1 \<le> period - d \<and> period - d \<le> period" if "d < period" for d
  proof -
    have "unat (period - d) = unat period - unat d" using that by (simp add: unat_sub_if_size word_less_nat_alt)
    then show ?thesis using that by (simp add: word_le_nat_alt word_less_nat_alt)
  qed
  then show ?thesis using one u by (simp add: sleep_ms_def Let_def not_le)
qed

section \<open>Witnesses\<close>

definition demo_kc :: "transport_config \<Rightarrow> client_config" where
  "demo_kc tc = \<lparr> kc_transport = tc, kc_domain_id = 0, kc_node_name = ''zenbedded_node'', kc_zenoh_mode = ''client'',
     kc_zenoh_ip_port = ''127.0.0.1:7447'', kc_pub_topic = ''zenbedded/state'', kc_sub_topic = ''zenbedded/cmd'',
     kc_state_type = ''sensor_msgs::msg::dds_::JointState_'', kc_cmd_type = ''control_msgs::msg::dds_::JointCommand_'',
     kc_max_state = 256, kc_max_cmd = 256 \<rparr>"

definition tier2_cfg :: transport_config where
  "tier2_cfg = \<lparr> cfg_tier = Tier2, cfg_reliable = False, cfg_client = True \<rparr>"

definition demo_env :: client_env where "demo_env = \<lparr> ce_zenoh = quiet_zenoh, ce_join = True \<rparr>"

definition demo_sp :: js_params where
  "demo_sp = \<lparr> jsp_frame_id = Some ''b'', jsp_joint_names = [''j''], jsp_num_joints = 1 \<rparr>"

definition demo_cp :: jc_params where
  "demo_cp = \<lparr> jcp_frame_id = Some ''b'', jcp_joint_names = [''j''], jcp_num_joints = 1, jcp_interface_name = Some ''v'' \<rparr>"

definition demo_state :: "u64 \<Rightarrow> js_value" where
  "demo_state x = \<lparr> jsv_stamp_sec = 1, jsv_stamp_nanosec = 2, jsv_positions = Some [x], jsv_velocities = Some [x],
     jsv_efforts = Some [0] \<rparr>"

definition demo_cmd :: jc_value where
  "demo_cmd = \<lparr> jcv_stamp_sec = 3, jcv_stamp_nanosec = 4, jcv_values = Some [7] \<rparr>"

definition demo_out :: jc_value where
  "demo_out = \<lparr> jcv_stamp_sec = 0, jcv_stamp_nanosec = 0, jcv_values = Some [0] \<rparr>"

definition demo_wire :: "byte list" where
  "demo_wire = overlay (cdr_joint_command (Some (3, 4)) ''b'' [''j''] ''v'' (Some [7])) (replicate 52 0)"

definition demo_client :: "(zcdr_joint_state_ctx, zcdr_joint_command_ctx) client" where
  "demo_client = client_new (demo_kc tier1_cfg) (js_ctx demo_sp) (jc_ctx demo_cp)"

lemma demo_names: "js_frame demo_sp = ''b''" "js_names demo_sp = [''j'']" "jc_frame demo_cp = ''b''"
    "jc_names demo_cp = [''j'']" "jc_interface demo_cp = ''v''"
  by code_simp+

lemma demo_sizes: "js_size demo_sp = 76" "jc_size demo_cp = 52" "js_written (js_frame demo_sp) (js_names demo_sp) = 64"
  by code_simp+

lemma demo_fits: "76 \<le> k \<Longrightarrow> k < 2 ^ 32 \<Longrightarrow> js_fits demo_sp k" "52 \<le> k \<Longrightarrow> k < 2 ^ 32 \<Longrightarrow> jc_fits demo_cp k"
  by (simp_all add: js_fits_def jc_fits_def demo_sizes) (simp_all add: demo_sp_def demo_cp_def)

lemma demo_kc_sel [simp]: "kc_max_state (demo_kc tc) = 256" "kc_max_cmd (demo_kc tc) = 256" "kc_transport (demo_kc tc) = tc"
  by (simp_all add: demo_kc_def)

lemma demo_values: "js_complete demo_sp (demo_state x)" "jc_room demo_cp demo_out"
  by (simp_all add: js_complete_def demo_sp_def demo_state_def jc_room_def room_for_def demo_cp_def demo_out_def)

lemma demo_encodes: "jc_encodes demo_cp demo_cmd demo_wire" "length demo_wire = 52"
proof -
  have "length (cdr_joint_command (Some (3, 4)) ''b'' [''j''] ''v'' (Some [7])) = 52" by code_simp
  then have "carries demo_wire (cdr_joint_command (Some (3, 4)) ''b'' [''j''] ''v'' (Some [7]))"
    unfolding demo_wire_def by (intro carries_overlay) simp
  then show "jc_encodes demo_cp demo_cmd demo_wire"
    by (simp add: jc_encodes_def demo_names demo_cmd_def) (simp add: demo_cp_def)
qed (simp add: demo_wire_def)

lemma quiet_ok [simp]: "z_ok quiet_zenoh log c" "ce_zenoh demo_env = quiet_zenoh"
    "clock quiet_zenoh log = (7, 5)"
  by (simp_all add: quiet_zenoh_def demo_env_def)

lemma demo_client_fresh: "\<not> cl_initialized demo_client" "\<not> cl_started demo_client" "\<not> cl_thread_alive demo_client"
    "cl_pub demo_client = None"
  by (simp_all add: demo_client_def client_new_def reset_buffers_def)

lemma static_uninit [simp]: "\<not> tr_initialized transport_static"
  by (simp add: transport_static_def)

lemma demo_init:
  obtains cl1 t1 where
    "client_init JointStateCodec JointCommandCodec (demo_kc tier1_cfg) demo_env 50 demo_sp demo_cp (replicate 256 0)
       demo_client transport_static = Some (0, cl1, t1)"
    "cl_initialized cl1"
  using joint_client.client_init_accepts [of demo_sp "demo_kc tier1_cfg" demo_cp "replicate 256 0" transport_static demo_env 50 demo_client]
    demo_fits [of 256] demo_client_fresh by auto

lemma demo_publish_defined:
  assumes "client_init JointStateCodec JointCommandCodec (demo_kc tier1_cfg) demo_env 50 demo_sp demo_cp (replicate 256 0)
       demo_client transport_static = Some (0, cl1, t1)" and "cl_initialized cl1"
  shows "\<exists>r t2. zenbedded_transport_publish tier1_cfg quiet_zenoh (cl_pub cl1) payload t1 = Some (r, t2)"
proof -
  obtain i where i: "cl_pub cl1 = Some i" "i < length (tr_pubs t1)" "pub_in_use (tr_pubs t1 ! i)"
      "sequence_number (pub_attachment (tr_pubs t1 ! i)) = 0"
    using joint_client.client_init_numbered [OF _ _ _ _ assms] demo_fits [of 256] demo_client_fresh
    by (auto simp: tier1_cfg_def)
  then show ?thesis
    by (simp add: zenbedded_transport_publish_def tier1_cfg_def stamp_attachment_def checked_i64_def zcall_conv)
qed

theorem joint_client_publishes_last_written_witness:
  "\<exists>cl1 t1 cl2 t2 r t3 i payload a ok.
     client_init JointStateCodec JointCommandCodec (demo_kc tier1_cfg) demo_env 50 demo_sp demo_cp (replicate 256 0)
       demo_client transport_static = Some (0, cl1, t1) \<and>
     perform_all JointStateCodec (demo_kc tier1_cfg) demo_env [Op_Write (demo_state 5), Op_Receive [1], Op_Write (demo_state 6)]
       (cl1, t1) = Some (cl2, t2) \<and>
     zenoh_publish_state (demo_kc tier1_cfg) demo_env cl2 t2 = Some (r, t3) \<and>
     tr_log t3 = tr_log t2 @ [(Z_Publisher_Put i payload a, ok)] \<and>
     read_joint_state payload = Some \<lparr> msg_stamp = (1, 2), msg_frame_id = ''b'', msg_name = [''j''],
       msg_position = [6], msg_velocity = [6], msg_effort = [0] \<rparr>"
proof -
  let ?ops = "[Op_Write (demo_state 5), Op_Receive [1], Op_Write (demo_state 6)]"
  let ?kc = "demo_kc tier1_cfg"
  obtain cl1 t1 where i: "client_init JointStateCodec JointCommandCodec ?kc demo_env 50 demo_sp demo_cp (replicate 256 0)
       demo_client transport_static = Some (0, cl1, t1)" "cl_initialized cl1" by (rule demo_init)
  have f: "js_fits demo_sp (kc_max_state ?kc)" "jc_fits demo_cp (kc_max_cmd ?kc)" "length (replicate 256 (0 :: byte)) = kc_max_cmd ?kc"
    using demo_fits by simp_all
  have w: "\<forall>v \<in> set (written ?ops). js_complete demo_sp v" "written ?ops \<noteq> []" by (simp_all add: demo_values)
  have u: "joint_client.up ?kc demo_sp demo_cp [] (cl1, t1)"
    by (rule joint_client.up_init [OF f demo_client_fresh(1) _ i]) simp
  obtain cl2 where c: "perform_all JointStateCodec ?kc demo_env ?ops (cl1, t1) = Some (cl2, t1)"
    using joint_client.perform_all_defined [OF u w(1)] by auto
  have u2: "joint_client.up ?kc demo_sp demo_cp ?ops (cl2, t1)"
    using joint_client.up_perform_all [OF u w(1) c] by simp
  have "cl_pub cl2 = cl_pub cl1"
    using c by (auto simp: bind_eq_Some_conv write_state_def Let_def on_transport_cmd_cb_def
        dest!: client_receive_cases split: if_splits)
  then obtain r t3 where p: "zenoh_publish_state ?kc demo_env cl2 t1 = Some (r, t3)"
    using joint_client.publish_up [OF u2 w(2)] demo_publish_defined [OF i, of "js_wire demo_sp (demo_state 6)"] by auto
  have reach: "transport_reachable (kc_transport ?kc) (ce_zenoh demo_env) transport_static" by (rule reach_static)
  from joint_client_publishes_last_written [OF reach demo_client_fresh(1) f i c w p] obtain j payload a ok where
    q: "tr_log t3 = tr_log t1 @ [(Z_Publisher_Put j payload a, ok)]"
       "read_joint_state payload = Some \<lparr> msg_stamp = (1, 2), msg_frame_id = ''b'', msg_name = [''j''],
         msg_position = [6], msg_velocity = [6], msg_effort = [0] \<rparr>"
    by (auto simp: demo_names demo_state_def)
  show ?thesis using i(1) c p q by blast
qed

theorem joint_client_reads_last_command_witness:
  "\<exists>cl1 t1 cl2 t2.
     client_init JointStateCodec JointCommandCodec (demo_kc tier1_cfg) demo_env 50 demo_sp demo_cp (replicate 256 0)
       demo_client transport_static = Some (0, cl1, t1) \<and>
     perform_all JointStateCodec (demo_kc tier1_cfg) demo_env [Op_Receive demo_wire, Op_Receive [1]] (cl1, t1) = Some (cl2, t2) \<and>
     read_command JointCommandCodec (demo_kc tier1_cfg) demo_out cl2 = Some (True, demo_cmd) \<and> cl_cmd_accepted cl2 = 1"
proof -
  let ?ops = "[Op_Receive demo_wire, Op_Receive [1]]" and ?kc = "demo_kc tier1_cfg"
  obtain cl1 t1 where i: "client_init JointStateCodec JointCommandCodec ?kc demo_env 50 demo_sp demo_cp (replicate 256 0)
       demo_client transport_static = Some (0, cl1, t1)" "cl_initialized cl1" by (rule demo_init)
  have f: "js_fits demo_sp (kc_max_state ?kc)" "jc_fits demo_cp (kc_max_cmd ?kc)" "length (replicate 256 (0 :: byte)) = kc_max_cmd ?kc"
    using demo_fits by simp_all
  have w: "\<forall>v \<in> set (written ?ops). js_complete demo_sp v" by simp
  have u: "joint_client.up ?kc demo_sp demo_cp [] (cl1, t1)"
    by (rule joint_client.up_init [OF f demo_client_fresh(1) _ i]) simp
  obtain cl2 where c: "perform_all JointStateCodec ?kc demo_env ?ops (cl1, t1) = Some (cl2, t1)"
    using joint_client.perform_all_defined [OF u w] by auto
  have a: "[demo_wire] = accepted (cfg_tier (kc_transport ?kc)) (jc_size demo_cp) ?ops"
    by (simp add: demo_encodes demo_sizes deliverable_def tier1_cfg_def)
  have s: "jc_store demo_cmd demo_out = demo_cmd"
    by (simp add: jc_store_def demo_cmd_def demo_out_def store_doubles_def)
  have reach: "transport_reachable (kc_transport ?kc) (ce_zenoh demo_env) transport_static" by (rule reach_static)
  from joint_client_reads_last_command [OF reach demo_client_fresh(1) f i c w demo_values(2) a] demo_encodes(1)
  show ?thesis using i(1) c s by auto
qed

definition demo_raw_client :: "(unit, unit) client" where
  "demo_raw_client = client_new (demo_kc tier2_cfg) () ()"

lemma demo_raw_fresh: "\<not> cl_initialized demo_raw_client" "\<not> cl_started demo_raw_client" "\<not> cl_thread_alive demo_raw_client"
  by (simp_all add: demo_raw_client_def client_new_def reset_buffers_def)

lemma demo_raw_init:
  assumes "unat n \<le> 256" and "unat m \<le> 256"
  obtains cl1 t1 where "client_init (RawCodec_state n) (RawCodec_command m) (demo_kc tier2_cfg) demo_env 500 () () (replicate 256 0)
       demo_raw_client transport_static = Some (0, cl1, t1)" "cl_initialized cl1"
    "raw_client.up n m (demo_kc tier2_cfg) () () [] (cl1, t1)"
proof -
  have f: "raw_fits n () (kc_max_state (demo_kc tier2_cfg))" "raw_fits m () (kc_max_cmd (demo_kc tier2_cfg))"
    "length (replicate 256 (0 :: byte)) = kc_max_cmd (demo_kc tier2_cfg)" using assms by (simp_all add: raw_fits_def)
  obtain cl1 t1 where i: "client_init (RawCodec_state n) (RawCodec_command m) (demo_kc tier2_cfg) demo_env 500 () () (replicate 256 0)
       demo_raw_client transport_static = Some (0, cl1, t1)" "cl_initialized cl1"
    using raw_client.client_init_accepts [OF f, of transport_static demo_env 500 demo_raw_client] demo_raw_fresh by auto
  have "raw_client.up n m (demo_kc tier2_cfg) () () [] (cl1, t1)"
    by (rule raw_client.up_init [OF f demo_raw_fresh(1) _ i]) simp
  then show thesis using i that by blast
qed

theorem raw_client_moves_objects_witness:
  "\<exists>cl1 t1 cl2 t2.
     client_init (RawCodec_state 2) (RawCodec_command 3) (demo_kc tier2_cfg) demo_env 500 () () (replicate 256 0)
       demo_raw_client transport_static = Some (0, cl1, t1) \<and>
     perform_all (RawCodec_state 2) (demo_kc tier2_cfg) demo_env [Op_Write [1, 2], Op_Receive [7, 8, 9], Op_Receive [7]] (cl1, t1) =
       Some (cl2, t2) \<and>
     zenoh_publish_state (demo_kc tier2_cfg) demo_env cl2 t2 =
       zenbedded_transport_publish tier2_cfg quiet_zenoh (cl_pub cl2) [1, 2] t2 \<and>
     read_command (RawCodec_command 3) (demo_kc tier2_cfg) [0, 0, 0] cl2 = Some (True, [7, 8, 9])"
proof -
  let ?ops = "[Op_Write [1, 2], Op_Receive [7, 8, 9], Op_Receive [7]] :: byte list client_op list" and ?kc = "demo_kc tier2_cfg"
  obtain cl1 t1 where i: "client_init (RawCodec_state 2) (RawCodec_command 3) ?kc demo_env 500 () () (replicate 256 0)
       demo_raw_client transport_static = Some (0, cl1, t1)" "cl_initialized cl1"
    and u: "raw_client.up 2 3 ?kc () () [] (cl1, t1)" by (rule demo_raw_init [of 2 3]) simp_all
  have w: "\<forall>v \<in> set (written ?ops). length v = unat (2 :: size_t)" "written ?ops \<noteq> []" by simp_all
  then obtain cl2 where c: "perform_all (RawCodec_state 2) ?kc demo_env ?ops (cl1, t1) = Some (cl2, t1)"
    using raw_client.perform_all_defined [OF u, of ?ops] by (auto simp: raw_object_def)
  have a: "[[7, 8, 9]] = accepted (cfg_tier (kc_transport ?kc)) (unat (3 :: size_t)) ?ops"
    by (simp add: deliverable_def tier2_cfg_def)
  have reach: "transport_reachable (kc_transport ?kc) (ce_zenoh demo_env) transport_static" by (rule reach_static)
  have "zenoh_publish_state ?kc demo_env cl2 t1 =
      zenbedded_transport_publish (kc_transport ?kc) (ce_zenoh demo_env) (cl_pub cl2) (last (written ?ops)) t1 \<and>
    read_command (RawCodec_command 3) ?kc [0, 0, 0] cl2 = Some (True, last [[7, 8, 9]])"
    by (rule raw_client_moves_objects [OF reach demo_raw_fresh(1) _ _ _ _ i c w _ a]) simp_all
  then have "zenoh_publish_state ?kc demo_env cl2 t1 = zenbedded_transport_publish tier2_cfg quiet_zenoh (cl_pub cl2) [1, 2] t1"
    and "read_command (RawCodec_command 3) ?kc [0, 0, 0] cl2 = Some (True, [7, 8, 9])" by simp_all
  then show ?thesis using i(1) c by blast
qed

theorem tier2_large_commands_lost_witness:
  "\<exists>cl1 t1 cl2 t2.
     client_init (RawCodec_state 2) (RawCodec_command 65) (demo_kc tier2_cfg) demo_env 500 () () (replicate 256 0)
       demo_raw_client transport_static = Some (0, cl1, t1) \<and>
     perform_all (RawCodec_state 2) (demo_kc tier2_cfg) demo_env [Op_Receive (replicate 65 1)] (cl1, t1) = Some (cl2, t2) \<and>
     cl_cmd_accepted cl2 = 0"
proof -
  let ?ops = "[Op_Receive (replicate 65 1)] :: byte list client_op list" and ?kc = "demo_kc tier2_cfg"
  obtain cl1 t1 where i: "client_init (RawCodec_state 2) (RawCodec_command 65) ?kc demo_env 500 () () (replicate 256 0)
       demo_raw_client transport_static = Some (0, cl1, t1)" "cl_initialized cl1"
    and u: "raw_client.up 2 65 ?kc () () [] (cl1, t1)" by (rule demo_raw_init [of 2 65]) simp_all
  obtain cl2 where c: "perform_all (RawCodec_state 2) ?kc demo_env ?ops (cl1, t1) = Some (cl2, t1)"
    using raw_client.perform_all_defined [OF u, of ?ops] by auto
  have reach: "transport_reachable (kc_transport ?kc) (ce_zenoh demo_env) transport_static" by (rule reach_static)
  have "cl_cmd_accepted cl2 = 0"
    by (rule tier2_large_commands_lost [OF reach demo_raw_fresh(1) _ _ _ _ _ i c]) (simp_all add: tier2_cfg_def)
  then show ?thesis using i(1) c by blast
qed

lemma demo_reached:
  obtains cl1 t1 where "client_reachable JointStateCodec JointCommandCodec (demo_kc tier1_cfg) demo_env (cl1, t1)"
    "cl_initialized cl1" "cl_thread_alive cl1" "cl_control_freq cl1 = 50"
proof -
  obtain cl1 t1 where i: "client_init JointStateCodec JointCommandCodec (demo_kc tier1_cfg) demo_env 50 demo_sp demo_cp (replicate 256 0)
       demo_client transport_static = Some (0, cl1, t1)" "cl_initialized cl1" "cl_thread_alive cl1" "cl_control_freq cl1 = 50"
    using joint_client.client_init_accepts [of demo_sp "demo_kc tier1_cfg" demo_cp "replicate 256 0" transport_static demo_env 50 demo_client]
      demo_fits [of 256] demo_client_fresh by auto
  have "client_reachable JointStateCodec JointCommandCodec (demo_kc tier1_cfg) demo_env (cl1, t1)"
    by (rule cr_step [OF cr_new cs_init [OF i(1) [unfolded demo_client_def]]])
  then show thesis using i(2-4) by (rule that)
qed

theorem client_life_cycle_witness:
  "\<exists>cl t. client_reachable JointStateCodec JointCommandCodec (demo_kc tier1_cfg) demo_env (cl, t) \<and>
     cl_initialized cl \<and> cl_started cl \<and> tr_initialized t \<and> start_thread demo_env 10 cl \<noteq> None"
proof -
  obtain cl t where r: "client_reachable JointStateCodec JointCommandCodec (demo_kc tier1_cfg) demo_env (cl, t)"
    "cl_initialized cl" "cl_thread_alive cl" by (rule demo_reached)
  then show ?thesis using client_life_cycle [OF r(1), of 10] by blast
qed

theorem client_destroy_releases_witness:
  "\<exists>cl t cl' t'. client_reachable JointStateCodec JointCommandCodec (demo_kc tier1_cfg) demo_env (cl, t) \<and> cl_thread_alive cl \<and>
     client_destroy (demo_kc tier1_cfg) demo_env cl t = (cl', t') \<and> \<not> cl_thread_alive cl' \<and> session_of t' = Some z_closed"
proof -
  obtain cl t where r: "client_reachable JointStateCodec JointCommandCodec (demo_kc tier1_cfg) demo_env (cl, t)"
    "cl_initialized cl" "cl_thread_alive cl" by (rule demo_reached)
  obtain cl' t' where d: "client_destroy (demo_kc tier1_cfg) demo_env cl t = (cl', t')" by fastforce
  show ?thesis using client_destroy_releases [OF r(1,2) d] r d by blast
qed

text \<open>A zenoh that refuses subscribers.\<close>

definition no_subscribers :: client_env where
  "no_subscribers = \<lparr> ce_zenoh = quiet_zenoh\<lparr> z_ok := (\<lambda>log c. case c of Z_Declare_Subscriber i k \<Rightarrow> False | _ \<Rightarrow> True) \<rparr>,
     ce_join = True \<rparr>"

lemma no_subscribers_ok:
  "z_ok (ce_zenoh no_subscribers) log c = (case c of Z_Declare_Subscriber i k \<Rightarrow> False | _ \<Rightarrow> True)"
  by (simp add: no_subscribers_def)

theorem failed_init_leaks_publisher_witness:
  "\<exists>cl' t'. client_init (RawCodec_state 2) (RawCodec_command 3) (demo_kc tier2_cfg) no_subscribers 500 () () (replicate 256 0)
       demo_raw_client transport_static = Some (- EIO, cl', t') \<and>
     card (used_pubs t') = 1 \<and> client_destroy (demo_kc tier2_cfg) no_subscribers cl' t' = (cl', t')"
proof -
  let ?kc = "demo_kc tier2_cfg" and ?z = "ce_zenoh no_subscribers"
  have f: "raw_fits 2 () (kc_max_state ?kc)" "raw_fits 3 () (kc_max_cmd ?kc)"
    "length (replicate 256 (0 :: byte)) = kc_max_cmd ?kc" by (simp_all add: raw_fits_def)
  obtain s0 s1 where e: "client_init (RawCodec_state 2) (RawCodec_command 3) ?kc no_subscribers 500 () () (replicate 256 0)
       demo_raw_client transport_static =
      init_base ?kc no_subscribers 500 2 3 ((reset_buffers ?kc demo_raw_client)
        \<lparr> cl_state_buffer := (db_reset (kc_max_state ?kc))\<lparr> slots := [s0, s1] \<rparr>, cl_state_ctx := (), cl_cmd_ctx := () \<rparr>)
        transport_static"
    using raw_client.client_init_codecs [OF f demo_raw_fresh(1), of no_subscribers 500 transport_static]
    by (auto simp: RawCodec_state_def RawCodec_command_def)
  obtain t1 where t1: "zenbedded_transport_init tier2_cfg ?z d n m l (transport_static :: ctransport) = (0, t1 d n m l)"
      "tr_initialized (t1 d n m l)" "tr_pubs (t1 d n m l) = tr_pubs (transport_static :: ctransport)"
      "tr_subs (t1 d n m l) = tr_subs (transport_static :: ctransport)" for d n m l
  proof -
    have "\<exists>t1. zenbedded_transport_init tier2_cfg ?z d n m l (transport_static :: ctransport) = (0, t1) \<and>
      tr_initialized t1 \<and> tr_pubs t1 = tr_pubs (transport_static :: ctransport) \<and>
      tr_subs t1 = tr_subs (transport_static :: ctransport)" for d n m l
      by (auto simp: zenbedded_transport_init_def Let_def zcall_conv no_subscribers_ok configure_locator_def
        tier2_cfg_def split: option.splits)
    then show thesis using that by metis
  qed
  have p: "alloc_slot pub_in_use (tr_pubs (transport_static :: ctransport)) = Some 0"
    "alloc_slot sub_in_use (tr_subs (transport_static :: ctransport)) = Some 0"
    by (simp_all add: transport_static_def MAX_PUBLISHERS_def MAX_SUBSCRIBERS_def numeral_eq_Suc)
  have "\<exists>cl' t'. init_base ?kc no_subscribers 500 2 3 ((reset_buffers ?kc demo_raw_client)
        \<lparr> cl_state_buffer := (db_reset (kc_max_state ?kc))\<lparr> slots := [s0, s1] \<rparr>, cl_state_ctx := (), cl_cmd_ctx := () \<rparr>)
        transport_static = Some (- EIO, cl', t') \<and> \<not> cl_initialized cl' \<and> cl_pub cl' \<noteq> None"
    using demo_raw_fresh t1 p
    by (simp add: init_base_def Let_def zenbedded_transport_declare_publisher_def zenbedded_transport_declare_subscriber_def
        topic_keyexpr_def tier2_cfg_def zcall_conv no_subscribers_ok reset_buffers_def)
  then obtain cl' t' where i: "client_init (RawCodec_state 2) (RawCodec_command 3) ?kc no_subscribers 500 () () (replicate 256 0)
       demo_raw_client transport_static = Some (- EIO, cl', t')" "\<not> cl_initialized cl'" "cl_pub cl' \<noteq> None"
    unfolding e by blast
  have r: "client_reachable (RawCodec_state 2) (RawCodec_command 3) ?kc no_subscribers (demo_raw_client, transport_static)"
    unfolding demo_raw_client_def by (rule cr_new)
  have "cl_pub demo_raw_client = None" by (simp add: demo_raw_client_def client_new_def reset_buffers_def)
  moreover have "used_pubs (transport_static :: ctransport) = {}"
    by (simp add: used_pubs_def used_slots_def transport_static_def)
  ultimately show ?thesis using failed_init_leaks_publisher [OF r demo_raw_fresh(1) i] i(1) by auto
qed

theorem client_init_oversized_layout_witness:
  "client_init JointStateCodec JointCommandCodec ((demo_kc tier1_cfg)\<lparr> kc_max_state := 32 \<rparr>) demo_env 50 demo_sp demo_cp
     (replicate 256 0) demo_client transport_static = None \<and>
   (\<exists>cl'. client_init JointStateCodec JointCommandCodec ((demo_kc tier1_cfg)\<lparr> kc_max_state := 70 \<rparr>) demo_env 50 demo_sp demo_cp
     (replicate 256 0) demo_client transport_static = Some (- ENOMEM, cl', transport_static))"
proof -
  have s: "0 < unat (jsp_num_joints demo_sp)" "unat (jsp_num_joints demo_sp) \<le> length (jsp_joint_names demo_sp)"
    "js_size demo_sp < 2 ^ 32" by (simp_all add: demo_sizes) (simp_all add: demo_sp_def)
  show ?thesis
    using client_init_oversized_layout [OF s, of "(demo_kc tier1_cfg)\<lparr> kc_max_state := 32 \<rparr>" demo_cp "replicate 256 0" demo_client
        demo_env 50 transport_static]
      client_init_oversized_layout [OF s, of "(demo_kc tier1_cfg)\<lparr> kc_max_state := 70 \<rparr>" demo_cp "replicate 256 0" demo_client
        demo_env 50 transport_static]
      demo_fits(2) [of 256] demo_client_fresh by (auto simp: demo_sizes)
qed

theorem client_init_succeeds_witness:
  "\<exists>cl' t'. client_init JointStateCodec JointCommandCodec (demo_kc tier1_cfg) demo_env 50 demo_sp demo_cp (replicate 256 0)
     demo_client transport_static = Some (0, cl', t') \<and> cl_thread_alive cl'"
proof -
  have "client_reachable JointStateCodec JointCommandCodec (demo_kc tier1_cfg) demo_env (demo_client, transport_static)"
    unfolding demo_client_def by (rule cr_new)
  from client_init_succeeds [OF _ _ _ this, of demo_sp demo_cp "replicate 256 0" 50] show ?thesis
    using demo_fits [of 256] demo_client_fresh by auto
qed

theorem control_cycle_sleep_witness:
  "sleep_ms 20 0xFFFFFFFF (0xFFFFFFFF + 5) = 15 \<and> period_ms 50 = Some 20"
  using control_cycle_sleep [of 50 20 "0xFFFFFFFF" 5] by (simp add: period_ms_def)

end
