(* ===== verification/Ieee.thy ===== *)
theory Ieee
  imports Prelude
begin

text \<open>
  The \<open>float\<close> and \<open>double\<close> conversions that the host side uses, on the bit patterns of IEEE 754
  binary32 and binary64, with rounding to nearest, ties to even. A finite magnitude is a pair of a
  significand and an exponent of two. Converting a NaN keeps the sign and the top of the payload and
  makes it quiet. A conversion to an integer type truncates; out of the range of the type, and for
  an infinity or a NaN, it is undefined in C++ and \<open>None\<close> here.
\<close>

type_synonym f32 = "32 word"
type_synonym f64 = "64 word"

section \<open>Magnitudes\<close>

fun bitlen :: "nat \<Rightarrow> nat" where
  "bitlen n = (if n = 0 then 0 else Suc (bitlen (n div 2)))"

declare bitlen.simps [simp del]

text \<open>\<open>m / 2 ^ k\<close> rounded to an integer, ties to even.\<close>

definition round_half_even :: "nat \<Rightarrow> nat \<Rightarrow> nat" where
  "round_half_even m k =
     (let d = m div 2 ^ k; r = m mod 2 ^ k
      in if 2 ^ k < 2 * r \<or> 2 * r = 2 ^ k \<and> odd d then d + 1 else d)"

text \<open>A format has \<open>mb\<close> fraction bits and the exponent \<open>emin\<close> of its smallest subnormal. The magnitude
  bits of \<open>m * 2 powi e\<close>, before the check for overflow, and back.\<close>

definition fmt_exp :: "nat \<Rightarrow> int \<Rightarrow> nat \<Rightarrow> int \<Rightarrow> int" where
  "fmt_exp mb emin m e = max emin (int (bitlen m) + e - int mb - 1)"

definition fmt_round :: "nat \<Rightarrow> int \<Rightarrow> nat \<Rightarrow> int \<Rightarrow> nat" where
  "fmt_round mb emin m e =
     (if m = 0 then 0
      else
        let q = fmt_exp mb emin m e;
            m' = (if q \<le> e then m * 2 ^ nat (e - q) else round_half_even m (nat (q - e)))
        in nat (q - emin) * 2 ^ mb + m')"

definition fmt_decode :: "nat \<Rightarrow> int \<Rightarrow> nat \<Rightarrow> nat \<times> int" where
  "fmt_decode mb emin n =
     (let f = n mod 2 ^ mb; x = n div 2 ^ mb
      in if x = 0 then (f, emin) else (f + 2 ^ mb, emin + int x - 1))"

lemma bitlen_0 [simp]: "bitlen 0 = 0"
  by (simp add: bitlen.simps)

lemma bitlen_bounds: "0 < n \<Longrightarrow> 2 ^ (bitlen n - 1) \<le> n \<and> n < 2 ^ bitlen n \<and> 0 < bitlen n"
proof (induction n rule: bitlen.induct)
  case (1 n)
  show ?case
  proof (cases "n div 2 = 0")
    case True
    then have "n = 1" using 1(2) by linarith
    then show ?thesis by (simp add: bitlen.simps)
  next
    case False
    then have ih: "2 ^ (bitlen (n div 2) - 1) \<le> n div 2" "n div 2 < 2 ^ bitlen (n div 2)" "0 < bitlen (n div 2)"
      using 1 by auto
    have e: "bitlen n = Suc (bitlen (n div 2))" using 1(2) by (subst bitlen.simps) simp
    have "(2 :: nat) ^ bitlen (n div 2) = 2 * 2 ^ (bitlen (n div 2) - 1)"
      using ih(3) by (metis power_minus_mult mult.commute)
    then show ?thesis unfolding e using ih by (simp; linarith)
  qed
qed

lemma bitlen_unique:
  assumes "0 < n" and "2 ^ k \<le> n" and "n < 2 ^ Suc k"
  shows "bitlen n = Suc k"
proof -
  have b: "2 ^ (bitlen n - 1) \<le> n" "n < 2 ^ bitlen n" "0 < bitlen n" using bitlen_bounds [OF assms(1)] by simp_all
  have "2 ^ k < (2 :: nat) ^ bitlen n" using assms(2) b(2) by linarith
  then have "k < bitlen n" by (rule power_less_imp_less_exp [rotated]) simp
  moreover have "2 ^ (bitlen n - 1) < (2 :: nat) ^ Suc k" using assms(3) b(1) by linarith
  then have "bitlen n - 1 < Suc k" by (rule power_less_imp_less_exp [rotated]) simp
  ultimately show ?thesis by simp
qed

lemma bitlen_le: "n < 2 ^ k \<Longrightarrow> bitlen n \<le> k"
proof (cases "n = 0")
  case False
  assume a: "n < 2 ^ k"
  have "2 ^ (bitlen n - 1) \<le> n" "0 < bitlen n" using bitlen_bounds [of n] False by simp_all
  with a have "2 ^ (bitlen n - 1) < (2 :: nat) ^ k" by linarith
  then show ?thesis using \<open>0 < bitlen n\<close> by (simp add: power_strict_increasing_iff)
qed simp

lemma bitlen_shift: "0 < n \<Longrightarrow> bitlen (n * 2 ^ k) = bitlen n + k"
proof (induction k)
  case (Suc k)
  have "bitlen (n * 2 ^ Suc k) = Suc (bitlen (n * 2 ^ k))"
    using Suc.prems by (subst bitlen.simps) (simp add: mult.assoc)
  then show ?case using Suc by simp
qed simp

section \<open>Exactness\<close>

lemma round_half_even_exact: "round_half_even (m * 2 ^ k) k = m"
  by (simp add: round_half_even_def Let_def)

lemma round_half_even_scale: "round_half_even (m * 2 ^ k) (j + k) = round_half_even m j"
proof -
  have d: "m * 2 ^ k div 2 ^ (j + k) = m div 2 ^ j" by (simp add: power_add)
  have r: "m * 2 ^ k mod 2 ^ (j + k) = (m mod 2 ^ j) * 2 ^ k" by (simp add: power_add mult_mod_left)
  have c1: "2 ^ (j + k) < 2 * ((m mod 2 ^ j) * 2 ^ k) \<longleftrightarrow> 2 ^ j < 2 * (m mod 2 ^ j)"
    using mult_less_cancel2 [of "2 ^ j" "2 ^ k" "2 * (m mod 2 ^ j)"] by (simp add: power_add mult.assoc)
  have c2: "2 * ((m mod 2 ^ j) * 2 ^ k) = 2 ^ (j + k) \<longleftrightarrow> 2 * (m mod 2 ^ j) = 2 ^ j"
    using mult_cancel2 [of "2 * (m mod 2 ^ j)" "2 ^ k" "2 ^ j"] by (simp add: power_add mult.assoc)
  show ?thesis unfolding round_half_even_def Let_def d r c1 c2 ..
qed

text \<open>Only the number matters, not how it is written.\<close>

lemma fmt_round_scale: "fmt_round mb emin (m * 2 ^ k) (e - int k) = fmt_round mb emin m e"
proof (cases "m = 0")
  case False
  let ?q = "fmt_exp mb emin m e"
  have q: "fmt_exp mb emin (m * 2 ^ k) (e - int k) = ?q"
    using False by (simp add: fmt_exp_def bitlen_shift)
  consider "?q \<le> e - int k" | "e - int k < ?q" "?q \<le> e" | "e < ?q" by linarith
  then have "(if ?q \<le> e - int k then m * 2 ^ k * 2 ^ nat (e - int k - ?q)
        else round_half_even (m * 2 ^ k) (nat (?q - (e - int k)))) =
      (if ?q \<le> e then m * 2 ^ nat (e - ?q) else round_half_even m (nat (?q - e)))"
  proof cases
    case 1
    then have "nat (e - ?q) = k + nat (e - int k - ?q)" by simp
    then show ?thesis using 1 by (simp add: power_add mult.assoc)
  next
    case 2
    define j where "j = nat (?q - (e - int k))"
    have "k = nat (e - ?q) + j" using 2 by (simp add: j_def)
    then have "m * 2 ^ k = (m * 2 ^ nat (e - ?q)) * 2 ^ j" by (metis power_add mult.assoc)
    then have "round_half_even (m * 2 ^ k) j = m * 2 ^ nat (e - ?q)" by (simp only: round_half_even_exact)
    then show ?thesis using 2 by (simp flip: j_def)
  next
    case 3
    then have "nat (?q - (e - int k)) = nat (?q - e) + k" by simp
    then show ?thesis using 3 round_half_even_scale by simp
  qed
  then show ?thesis using False by (simp add: fmt_round_def q Let_def)
qed (simp add: fmt_round_def)

text \<open>A number with few enough bits is represented exactly.\<close>

lemma fmt_round_decode:
  assumes m: "0 < m" and b: "bitlen m \<le> Suc mb" and e: "emin \<le> e"
  shows "fmt_exp mb emin m e \<le> e \<and>
    fmt_decode mb emin (fmt_round mb emin m e) = (m * 2 ^ nat (e - fmt_exp mb emin m e), fmt_exp mb emin m e)"
proof -
  define q where "q = fmt_exp mb emin m e"
  define m' where "m' = m * 2 ^ nat (e - q)"
  have q: "q \<le> e" "emin \<le> q" using b e by (simp_all add: q_def fmt_exp_def)
  have l: "bitlen m' = bitlen m + nat (e - q)" "0 < m'" using m by (simp_all add: m'_def bitlen_shift)
  have "int (bitlen m) + e - int mb - 1 \<le> q" by (simp add: q_def fmt_exp_def)
  then have "bitlen m' \<le> Suc mb" using l(1) q(1) by simp
  then have up: "m' < 2 ^ Suc mb"
    using bitlen_bounds [OF l(2)] by (meson less_le_trans one_le_numeral power_increasing)
  have lo: "2 ^ mb \<le> m'" if "q \<noteq> emin"
  proof -
    have "q = int (bitlen m) + e - int mb - 1" using that by (simp add: q_def fmt_exp_def max_def split: if_splits)
    then have "bitlen m' = Suc mb" using l(1) q(1) by simp
    then show ?thesis using bitlen_bounds [OF l(2)] by simp
  qed
  have r: "fmt_round mb emin m e = nat (q - emin) * 2 ^ mb + m'"
    using m q(1) by (simp add: fmt_round_def Let_def q_def m'_def)
  have "fmt_decode mb emin (nat (q - emin) * 2 ^ mb + m') = (m', q)"
  proof (cases "m' < 2 ^ mb")
    case True
    then show ?thesis using lo by (auto simp: fmt_decode_def Let_def)
  next
    case False
    then have "m' div 2 ^ mb = 1" "m' mod 2 ^ mb = m' - 2 ^ mb"
      using up by (simp_all add: div_nat_eqI le_mod_geq)
    then show ?thesis using False q(2) by (simp add: fmt_decode_def Let_def)
  qed
  then show ?thesis using q(1) by (simp add: r m'_def flip: q_def)
qed

text \<open>The magnitudes of a format are fixed points.\<close>

lemma fmt_decode_round:
  assumes "fmt_decode mb emin n = (m, e)" and "0 < m"
  shows "fmt_round mb emin m e = n"
proof (cases "n div 2 ^ mb = 0")
  case True
  then have n: "n < 2 ^ mb" by (simp add: div_eq_0_iff)
  then have me: "m = n" "e = emin" using assms(1) by (simp_all add: fmt_decode_def Let_def)
  have "fmt_exp mb emin m e = emin" using bitlen_le [OF n] me by (simp add: fmt_exp_def)
  then show ?thesis using me assms(2) by (simp add: fmt_round_def)
next
  case False
  then have me: "m = n mod 2 ^ mb + 2 ^ mb" "e = emin + int (n div 2 ^ mb) - 1"
    using assms(1) by (simp_all add: fmt_decode_def Let_def)
  have "bitlen m = Suc mb" by (rule bitlen_unique) (simp_all add: me)
  then have q: "fmt_exp mb emin m e = e" using False me(2) by (simp add: fmt_exp_def)
  have x: "nat (e - emin) = n div 2 ^ mb - 1" using me(2) False by (simp add: nat_diff_distrib)
  have "n div 2 ^ mb - 1 + 1 = n div 2 ^ mb" using False by simp
  then have "(n div 2 ^ mb - 1) * 2 ^ mb + 2 ^ mb = n div 2 ^ mb * 2 ^ mb" by (metis add_mult_distrib mult_1)
  then have "(n div 2 ^ mb - 1) * 2 ^ mb + (n mod 2 ^ mb + 2 ^ mb) = n"
    using div_mult_mod_eq [of n "2 ^ mb"] by linarith
  then have "nat (e - emin) * 2 ^ mb + m = n" using me(1) x by simp
  then show ?thesis using assms(2) q by (simp add: fmt_round_def)
qed

section \<open>Bit patterns\<close>

definition F32_INF :: nat where "F32_INF = 0x7F800000"
definition F64_INF :: nat where "F64_INF = 0x7FF0000000000000"

definition f32_sign :: "f32 \<Rightarrow> bool" where "f32_sign w = (2 ^ 31 \<le> unat w)"
definition f64_sign :: "f64 \<Rightarrow> bool" where "f64_sign w = (2 ^ 63 \<le> unat w)"
definition f32_mag :: "f32 \<Rightarrow> nat" where "f32_mag w = unat w mod 2 ^ 31"
definition f64_mag :: "f64 \<Rightarrow> nat" where "f64_mag w = unat w mod 2 ^ 63"

definition f32_make :: "bool \<Rightarrow> nat \<Rightarrow> f32" where
  "f32_make s n = word_of_nat ((if s then 2 ^ 31 else 0) + n)"

definition f64_make :: "bool \<Rightarrow> nat \<Rightarrow> f64" where
  "f64_make s n = word_of_nat ((if s then 2 ^ 63 else 0) + n)"

definition f32_isnan :: "f32 \<Rightarrow> bool" where "f32_isnan w = (F32_INF < f32_mag w)"
definition f64_isnan :: "f64 \<Rightarrow> bool" where "f64_isnan w = (F64_INF < f64_mag w)"

definition f32_round :: "bool \<Rightarrow> nat \<Rightarrow> int \<Rightarrow> f32" where
  "f32_round s m e = f32_make s (min F32_INF (fmt_round 23 (-149) m e))"

definition f64_round :: "bool \<Rightarrow> nat \<Rightarrow> int \<Rightarrow> f64" where
  "f64_round s m e = f64_make s (min F64_INF (fmt_round 52 (-1074) m e))"

text \<open>The fraction of a NaN, made quiet by setting its top bit \<open>q\<close>.\<close>

definition quiet :: "nat \<Rightarrow> nat \<Rightarrow> nat" where
  "quiet q frac = (if frac < q then frac + q else frac)"

definition f32_to_f64 :: "f32 \<Rightarrow> f64" where
  "f32_to_f64 w =
     (let n = f32_mag w; s = f32_sign w
      in if F32_INF < n then f64_make s (F64_INF + quiet (2 ^ 51) ((n - F32_INF) * 2 ^ 29))
         else if n = F32_INF then f64_make s F64_INF
         else case fmt_decode 23 (-149) n of (m, e) \<Rightarrow> f64_round s m e)"

definition f64_to_f32 :: "f64 \<Rightarrow> f32" where
  "f64_to_f32 w =
     (let n = f64_mag w; s = f64_sign w
      in if F64_INF < n then f32_make s (F32_INF + quiet (2 ^ 22) ((n - F64_INF) div 2 ^ 29))
         else if n = F64_INF then f32_make s F32_INF
         else case fmt_decode 52 (-1074) n of (m, e) \<Rightarrow> f32_round s m e)"

text \<open>Integer types of the range \<open>lo .. hi\<close> to and from \<open>double\<close>.\<close>

definition f64_of_int :: "int \<Rightarrow> f64" where
  "f64_of_int i = f64_round (i < 0) (nat \<bar>i\<bar>) 0"

definition f64_to_int :: "int \<Rightarrow> int \<Rightarrow> f64 \<Rightarrow> int option" where
  "f64_to_int lo hi w =
     (if F64_INF \<le> f64_mag w then None
      else
        case fmt_decode 52 (-1074) (f64_mag w) of (m, e) \<Rightarrow>
          let t = (if 0 \<le> e then m * 2 ^ nat e else m div 2 ^ nat (- e));
              v = (if f64_sign w then - int t else int t)
          in if lo \<le> v \<and> v \<le> hi then Some v else None)"

subsection \<open>Conversions that lose nothing\<close>

lemma unat_f64_make: "n < 2 ^ 63 \<Longrightarrow> unat (f64_make s n) = (if s then 2 ^ 63 else 0) + n"
  unfolding f64_make_def by (rule of_nat_inverse [OF refl]) simp

lemma unat_f32_make: "n < 2 ^ 31 \<Longrightarrow> unat (f32_make s n) = (if s then 2 ^ 31 else 0) + n"
  unfolding f32_make_def by (rule of_nat_inverse [OF refl]) simp

lemma f64_make_sel [simp]: "n < 2 ^ 63 \<Longrightarrow> f64_mag (f64_make s n) = n" "n < 2 ^ 63 \<Longrightarrow> f64_sign (f64_make s n) = s"
  by (simp_all add: f64_mag_def f64_sign_def unat_f64_make)

lemma f32_make_sel [simp]: "n < 2 ^ 31 \<Longrightarrow> f32_mag (f32_make s n) = n" "n < 2 ^ 31 \<Longrightarrow> f32_sign (f32_make s n) = s"
  by (simp_all add: f32_mag_def f32_sign_def unat_f32_make)

lemma f32_make_id [simp]: "f32_make (f32_sign w) (f32_mag w) = w"
proof -
  have "unat w < 2 ^ LENGTH(32)" by (rule unsigned_less)
  then have "(if f32_sign w then 2 ^ 31 else 0) + f32_mag w = unat w"
    by (auto simp: f32_sign_def f32_mag_def not_le) (simp add: le_mod_geq)
  then show ?thesis by (simp add: f32_make_def)
qed

lemma fmt_decode_bounds:
  assumes "fmt_decode mb emin n = (m, e)"
  shows "m < 2 ^ Suc mb \<and> emin \<le> e \<and> e \<le> emin + int (n div 2 ^ mb) \<and> (m = 0 \<longleftrightarrow> n = 0)"
proof -
  have "n mod 2 ^ mb < 2 ^ mb" by simp
  then have "n mod 2 ^ mb < 2 ^ mb" "n mod 2 ^ mb < 2 * 2 ^ mb" by linarith+
  moreover have "n mod 2 ^ mb = 0 \<and> n div 2 ^ mb = 0 \<longleftrightarrow> n = 0" by (metis div_mult_mod_eq mult_0 add.right_neutral div_0 mod_0)
  ultimately show ?thesis using assms by (auto simp: fmt_decode_def Let_def split: if_splits)
qed

text \<open>A magnitude of 24 bits and a single precision exponent, or of 53 bits and exponent 0, is a
  double exactly.\<close>

lemma f64_round_exact:
  assumes m: "0 < m" "bitlen m \<le> 53" and e: "-1074 \<le> e" "e + int (bitlen m) \<le> 1000"
  shows "f64_sign (f64_round s m e) = s \<and> f64_mag (f64_round s m e) < F64_INF \<and>
    (\<exists>k. fmt_decode 52 (-1074) (f64_mag (f64_round s m e)) = (m * 2 ^ k, e - int k))"
proof -
  let ?n = "fmt_round 52 (-1074) m e" and ?q = "fmt_exp 52 (-1074) m e"
  have d: "?q \<le> e" "fmt_decode 52 (-1074) ?n = (m * 2 ^ nat (e - ?q), ?q)"
    using fmt_round_decode [of m 52 "-1074" e] m e by simp_all
  have "m * 2 ^ nat (e - ?q) < 2 ^ Suc 52" using fmt_decode_bounds [OF d(2)] by simp
  moreover have "nat (?q + 1074) \<le> 2022" using e by (simp add: fmt_exp_def)
  then have "nat (?q + 1074) * 2 ^ 52 \<le> 2022 * 2 ^ 52" by (rule mult_le_mono1)
  ultimately have "?n < 2022 * 2 ^ 52 + 2 ^ Suc 52"
    using m d(1) by (simp add: fmt_round_def Let_def)
  then have n: "?n < F64_INF" by (simp add: F64_INF_def)
  then have n63: "?n < 2 ^ 63" by (simp add: F64_INF_def)
  have r: "f64_round s m e = f64_make s ?n" using n by (simp add: f64_round_def)
  have "e - int (nat (e - ?q)) = ?q" using d(1) by simp
  then have "fmt_decode 52 (-1074) (f64_mag (f64_round s m e)) = (m * 2 ^ nat (e - ?q), e - int (nat (e - ?q)))"
    using d(2) n63 by (simp add: r)
  then show ?thesis using n n63 by (auto simp: r)
qed

lemma f64_round_zero [simp]: "f64_round s 0 e = f64_make s 0"
  by (simp add: f64_round_def fmt_round_def)

lemma f64_to_f32_to_f64:
  assumes "\<not> f32_isnan x"
  shows "f64_to_f32 (f32_to_f64 x) = x"
proof (cases "f32_mag x = F32_INF")
  case True
  then have "f64_to_f32 (f32_to_f64 x) = f32_make (f32_sign x) (f32_mag x)"
    by (simp add: f32_to_f64_def f64_to_f32_def F64_INF_def Let_def)
  then show ?thesis by simp
next
  case False
  then have lt: "f32_mag x < F32_INF" using assms by (simp add: f32_isnan_def)
  obtain m e where d: "fmt_decode 23 (-149) (f32_mag x) = (m, e)" by fastforce
  have w: "f32_to_f64 x = f64_round (f32_sign x) m e" using lt d by (simp add: f32_to_f64_def Let_def)
  have b: "m < 2 ^ Suc 23" "-149 \<le> e" "e \<le> -149 + int (f32_mag x div 2 ^ 23)" "m = 0 \<longleftrightarrow> f32_mag x = 0"
    using fmt_decode_bounds [OF d] by simp_all
  have "f32_mag x div 2 ^ 23 < 255"
    using lt by (simp add: F32_INF_def less_mult_imp_div_less)
  then have eu: "e \<le> 106" using b(3) by linarith
  show ?thesis
  proof (cases "m = 0")
    case True
    then have "f64_to_f32 (f32_to_f64 x) = f32_make (f32_sign x) 0"
      by (simp add: w f64_to_f32_def F64_INF_def Let_def fmt_decode_def f32_round_def fmt_round_def F32_INF_def)
    then show ?thesis using True b(4) f32_make_id [of x] by simp
  next
    case False
    have bl: "bitlen m \<le> 24" using bitlen_le [of m 24] b(1) by simp
    obtain k where k: "f64_sign (f64_round (f32_sign x) m e) = f32_sign x" "f64_mag (f64_round (f32_sign x) m e) < F64_INF"
        "fmt_decode 52 (-1074) (f64_mag (f64_round (f32_sign x) m e)) = (m * 2 ^ k, e - int k)"
      using f64_round_exact [of m e "f32_sign x"] False bl b(2) eu by auto
    have "fmt_round 23 (-149) (m * 2 ^ k) (e - int k) = f32_mag x"
      unfolding fmt_round_scale using False by (intro fmt_decode_round [OF d]) simp
    then have "f64_to_f32 (f32_to_f64 x) = f32_make (f32_sign x) (f32_mag x)"
      using k lt by (simp add: w f64_to_f32_def Let_def f32_round_def)
    then show ?thesis by simp
  qed
qed

lemma f64_to_int_of_int:
  assumes "\<bar>i\<bar> < 2 ^ 53" and "lo \<le> i" and "i \<le> hi"
  shows "f64_to_int lo hi (f64_of_int i) = Some i"
proof (cases "i = 0")
  case True
  then show ?thesis using assms
    by (simp add: f64_of_int_def f64_to_int_def fmt_decode_def F64_INF_def)
next
  case False
  let ?m = "nat \<bar>i\<bar>"
  have "?m < 2 ^ 53" using assms(1) by (simp add: nat_less_iff)
  then have bl: "bitlen ?m \<le> 53" by (rule bitlen_le)
  obtain k where k: "f64_sign (f64_of_int i) = (i < 0)" "f64_mag (f64_of_int i) < F64_INF"
      "fmt_decode 52 (-1074) (f64_mag (f64_of_int i)) = (?m * 2 ^ k, - int k)"
    using f64_round_exact [of ?m 0 "i < 0"] False bl by (auto simp: f64_of_int_def)
  have "(if 0 \<le> - int k then ?m * 2 ^ k * 2 ^ nat (- int k) else ?m * 2 ^ k div 2 ^ nat (- (- int k))) = ?m"
    by (cases "k = 0") simp_all
  then show ?thesis using k assms False by (simp add: f64_to_int_def Let_def not_le)
qed

end
