(* ===== verification/Ieee_Arith.thy ===== *)
theory Ieee_Arith
  imports Ieee
begin

text \<open>
  Arithmetic and comparison of \<open>double\<close>: addition, subtraction, multiplication and division round the
  exact result to nearest, ties to even, once. The sign and the payload of a NaN result differ between
  processors; here it is one quiet NaN. The constant \<open>M_PI\<close> is the double nearest to pi.
\<close>

section \<open>Operations\<close>

definition quiet_NaN :: f64 where "quiet_NaN = f64_make False (F64_INF + 2 ^ 51)"

lemma quiet_NaN_isnan [simp]: "f64_isnan quiet_NaN"
  by (simp add: quiet_NaN_def f64_isnan_def F64_INF_def)

definition M_PI :: f64 where "M_PI = 0x400921FB54442D18"

definition f64_isfinite :: "f64 \<Rightarrow> bool" where "f64_isfinite w = (f64_mag w < F64_INF)"

definition f64_decode :: "f64 \<Rightarrow> nat \<times> int" where "f64_decode w = fmt_decode 52 (-1074) (f64_mag w)"

definition f64_neg :: "f64 \<Rightarrow> f64" where "f64_neg w = f64_make (\<not> f64_sign w) (f64_mag w)"

definition f64_abs :: "f64 \<Rightarrow> f64" where "f64_abs w = f64_make False (f64_mag w)"

definition f64_mul :: "f64 \<Rightarrow> f64 \<Rightarrow> f64" where
  "f64_mul a b =
     (let s = (f64_sign a \<noteq> f64_sign b)
      in if f64_isnan a \<or> f64_isnan b then quiet_NaN
         else if f64_mag a = F64_INF \<or> f64_mag b = F64_INF then
           (if f64_mag a = 0 \<or> f64_mag b = 0 then quiet_NaN else f64_make s F64_INF)
         else case (f64_decode a, f64_decode b) of ((m, e), (n, f)) \<Rightarrow> f64_round s (m * n) (e + f))"

text \<open>The quotient has more than 55 significant bits; its last bit says whether there is a remainder, which
  is all that rounding depends on.\<close>

definition f64_div :: "f64 \<Rightarrow> f64 \<Rightarrow> f64" where
  "f64_div a b =
     (let s = (f64_sign a \<noteq> f64_sign b)
      in if f64_isnan a \<or> f64_isnan b then quiet_NaN
         else if f64_mag a = F64_INF then (if f64_mag b = F64_INF then quiet_NaN else f64_make s F64_INF)
         else if f64_mag b = F64_INF then f64_make s 0
         else if f64_mag b = 0 then (if f64_mag a = 0 then quiet_NaN else f64_make s F64_INF)
         else case (f64_decode a, f64_decode b) of
                ((m, e), (n, f)) \<Rightarrow>
                  f64_round s (2 * (m * 2 ^ 120 div n) + (if m * 2 ^ 120 mod n = 0 then 0 else 1)) (e - f - 121))"

definition f64_add :: "f64 \<Rightarrow> f64 \<Rightarrow> f64" where
  "f64_add a b =
     (if f64_isnan a \<or> f64_isnan b then quiet_NaN
      else if f64_mag a = F64_INF then
        (if f64_mag b = F64_INF \<and> f64_sign a \<noteq> f64_sign b then quiet_NaN else a)
      else if f64_mag b = F64_INF then b
      else case (f64_decode a, f64_decode b) of
             ((m, e), (n, f)) \<Rightarrow>
               let k = min e f;
                   x = (if f64_sign a then -1 else 1) * (int m * 2 ^ nat (e - k)) +
                       (if f64_sign b then -1 else 1) * (int n * 2 ^ nat (f - k))
               in if x = 0 then f64_make (f64_sign a \<and> f64_sign b) 0 else f64_round (x < 0) (nat \<bar>x\<bar>) k)"

definition f64_sub :: "f64 \<Rightarrow> f64 \<Rightarrow> f64" where "f64_sub a b = f64_add a (f64_neg b)"

text \<open>The order of the doubles that are no NaNs is that of these numbers; both zeros have the same.\<close>

definition f64_key :: "f64 \<Rightarrow> int" where
  "f64_key w = (if f64_sign w then - int (f64_mag w) else int (f64_mag w))"

definition f64_lt :: "f64 \<Rightarrow> f64 \<Rightarrow> bool" where
  "f64_lt a b \<longleftrightarrow> \<not> f64_isnan a \<and> \<not> f64_isnan b \<and> f64_key a < f64_key b"

definition f64_eq :: "f64 \<Rightarrow> f64 \<Rightarrow> bool" where
  "f64_eq a b \<longleftrightarrow> \<not> f64_isnan a \<and> \<not> f64_isnan b \<and> f64_key a = f64_key b"

text \<open>\<open>std::clamp\<close>.\<close>

definition f64_clamp :: "f64 \<Rightarrow> f64 \<Rightarrow> f64 \<Rightarrow> f64" where
  "f64_clamp v lo hi = (if f64_lt v lo then lo else if f64_lt hi v then hi else v)"

section \<open>Order and truncation\<close>

text \<open>A magnitude as a multiple of the smallest one.\<close>

definition scaled :: "nat \<Rightarrow> nat \<Rightarrow> nat" where
  "scaled mb n = (let f = n mod 2 ^ mb; x = n div 2 ^ mb in if x = 0 then f else (f + 2 ^ mb) * 2 ^ (x - 1))"

lemma scaled_mono: "n \<le> k \<Longrightarrow> scaled mb n \<le> scaled mb k"
proof (rule ccontr)
  assume le: "n \<le> k" and "\<not> scaled mb n \<le> scaled mb k"
  then have gt: "scaled mb k < scaled mb n" by simp
  define B where "B = (2 :: nat) ^ mb"
  have B: "0 < B" by (simp add: B_def)
  have m: "n mod B < B" "k mod B < B" using B by simp_all
  have d: "n div B \<le> k div B" using le by (rule div_le_mono)
  consider "n div B = k div B" | "n div B < k div B" using d by linarith
  then show False
  proof cases
    case 1
    then have "n mod B \<le> k mod B" using le by (metis add_le_cancel_left div_mult_mod_eq)
    then have "scaled mb n \<le> scaled mb k" using 1 by (simp add: scaled_def Let_def flip: B_def)
    then show False using gt by simp
  next
    case 2
    have up: "scaled mb n \<le> B * 2 ^ (n div B)"
    proof (cases "n div B = 0")
      case True
      then show ?thesis using m by (simp add: scaled_def Let_def flip: B_def)
    next
      case False
      then have "(2 :: nat) ^ (n div B) = 2 * 2 ^ (n div B - 1)" by (simp add: power_eq_if)
      moreover have "(n mod B + B) * 2 ^ (n div B - 1) \<le> (2 * B) * 2 ^ (n div B - 1)"
        using m by (intro mult_le_mono1) simp
      ultimately show ?thesis using False by (simp add: scaled_def Let_def mult_ac flip: B_def)
    qed
    have "n div B \<le> k div B - 1" using 2 by linarith
    then have "B * 2 ^ (n div B) \<le> B * 2 ^ (k div B - 1)" by (simp add: power_increasing)
    also have "\<dots> \<le> (k mod B + B) * 2 ^ (k div B - 1)" by simp
    also have "\<dots> = scaled mb k" using 2 by (simp add: scaled_def Let_def flip: B_def)
    finally show False using up gt by simp
  qed
qed

lemma fmt_decode_scaled:
  assumes "fmt_decode mb emin n = (m, e)"
  shows "scaled mb n = m * 2 ^ nat (e - emin) \<and> emin \<le> e"
  using assms by (auto simp: fmt_decode_def scaled_def Let_def nat_diff_distrib split: if_splits)

definition trunc_mag :: "nat \<Rightarrow> nat" where
  "trunc_mag n = (case fmt_decode 52 (-1074) n of (m, e) \<Rightarrow> if 0 \<le> e then m * 2 ^ nat e else m div 2 ^ nat (- e))"

lemma trunc_mag_scaled: "trunc_mag n = scaled 52 n div 2 ^ 1074"
proof -
  obtain m e where d: "fmt_decode 52 (-1074) n = (m, e)" by fastforce
  have s: "scaled 52 n = m * 2 ^ nat (e + 1074)" "-1074 \<le> e" using fmt_decode_scaled [OF d] by simp_all
  define K :: nat where "K = 1074"
  have K: "nat (e + 1074) = (if 0 \<le> e then nat e + K else K - nat (- e))" "0 > e \<Longrightarrow> nat (- e) \<le> K"
    using s(2) by (auto simp: K_def)
  have "m * 2 ^ nat (e + 1074) div 2 ^ K = (if 0 \<le> e then m * 2 ^ nat e else m div 2 ^ nat (- e))"
  proof (cases "0 \<le> e")
    case True
    then show ?thesis unfolding K(1) by (simp add: power_add)
  next
    case False
    then have "(2 :: nat) ^ K = 2 ^ (K - nat (- e)) * 2 ^ nat (- e)" using K(2) by (simp flip: power_add)
    then have "m * 2 ^ (K - nat (- e)) div 2 ^ K = m div 2 ^ nat (- e)"
      by (simp add: div_mult_mult1 mult.commute [of m])
    then show ?thesis unfolding K(1) using False by simp
  qed
  then show ?thesis by (simp add: trunc_mag_def d s(1) K_def)
qed

lemma trunc_mag_mono: "n \<le> k \<Longrightarrow> trunc_mag n \<le> trunc_mag k"
  unfolding trunc_mag_scaled by (intro div_le_mono scaled_mono)

lemma f64_to_int_trunc:
  "f64_mag w < F64_INF \<Longrightarrow> f64_to_int lo hi w =
     (let v = (if f64_sign w then - int (trunc_mag (f64_mag w)) else int (trunc_mag (f64_mag w)))
      in if lo \<le> v \<and> v \<le> hi then Some v else None)"
  by (simp add: f64_to_int_def trunc_mag_def Let_def split: prod.splits)

lemma f64_of_int_pos:
  assumes "0 < i" and "i < 2 ^ 53"
  shows "f64_mag (f64_of_int i) < F64_INF \<and> \<not> f64_sign (f64_of_int i) \<and> int (trunc_mag (f64_mag (f64_of_int i))) = i"
proof -
  have "nat i < 2 ^ 53" using assms by (simp add: nat_less_iff)
  then have "bitlen (nat i) \<le> 53" by (rule bitlen_le)
  then have f: "f64_mag (f64_of_int i) < F64_INF" "\<not> f64_sign (f64_of_int i)"
    using f64_round_exact [of "nat i" 0 False] assms by (auto simp: f64_of_int_def)
  have "f64_to_int 0 i (f64_of_int i) = Some i" using assms by (intro f64_to_int_of_int) auto
  then show ?thesis using f by (simp add: f64_to_int_trunc Let_def split: if_splits)
qed

text \<open>A double that compares as between two integers truncates to an integer between them.\<close>

lemma f64_to_int_between:
  assumes fin: "f64_isfinite x" and lo: "\<not> f64_lt x (f64_of_int lo)" and hi: "\<not> f64_lt (f64_of_int hi) x"
    and b: "0 < lo" "lo < 2 ^ 53" "0 < hi" "hi < 2 ^ 53"
  shows "\<exists>i. f64_to_int 0 (2 ^ 64 - 1) x = Some i \<and> lo \<le> i \<and> i \<le> hi"
proof -
  note l = f64_of_int_pos [OF b(1,2)] and h = f64_of_int_pos [OF b(3,4)]
  have m: "f64_mag x < F64_INF" using fin by (simp add: f64_isfinite_def)
  have "trunc_mag 0 = 0" by (simp add: trunc_mag_def fmt_decode_def)
  have "f64_mag (f64_of_int lo) \<noteq> 0"
  proof
    assume "f64_mag (f64_of_int lo) = 0"
    then have "int (trunc_mag 0) = lo" using l by simp
    then show False using b(1) \<open>trunc_mag 0 = 0\<close> by simp
  qed
  then have k: "f64_key (f64_of_int lo) \<le> f64_key x" "f64_key x \<le> f64_key (f64_of_int hi)" "0 < f64_key (f64_of_int lo)"
    using lo hi l h m by (auto simp: f64_lt_def f64_isnan_def f64_key_def)
  then have s: "\<not> f64_sign x" and mm: "f64_mag (f64_of_int lo) \<le> f64_mag x" "f64_mag x \<le> f64_mag (f64_of_int hi)"
    using l h by (auto simp: f64_key_def split: if_splits)
  have t: "lo \<le> int (trunc_mag (f64_mag x))" "int (trunc_mag (f64_mag x)) \<le> hi"
    using trunc_mag_mono [OF mm(1)] trunc_mag_mono [OF mm(2)] l h by linarith+
  then show ?thesis using s b m by (simp add: f64_to_int_trunc Let_def)
qed

section \<open>Clamping\<close>

lemma f64_key_neg: "f64_mag w < 2 ^ 63 \<Longrightarrow> f64_key (f64_neg w) = - f64_key w"
  by (simp add: f64_key_def f64_neg_def)

lemma f64_mag_less: "f64_mag w < 2 ^ 63"
  by (simp add: f64_mag_def)

lemma f64_isnan_neg [simp]: "f64_isnan (f64_neg w) = f64_isnan w"
  using f64_mag_less [of w] by (simp add: f64_isnan_def f64_neg_def)

text \<open>Between a number and its negation; a NaN stays.\<close>

lemma f64_clamp_symmetric:
  assumes "\<not> f64_isnan m" and "0 \<le> f64_key m"
  shows "(\<not> f64_isnan v \<longrightarrow> \<not> f64_isnan (f64_clamp v (f64_neg m) m) \<and> \<bar>f64_key (f64_clamp v (f64_neg m) m)\<bar> \<le> f64_key m) \<and>
    (f64_isnan v \<longrightarrow> f64_clamp v (f64_neg m) m = v)"
  using assms f64_key_neg [OF f64_mag_less, of m] by (auto simp: f64_clamp_def f64_lt_def)

end
