(* ===== verification/Pendulum_Firmware.thy ===== *)
theory Pendulum_Firmware
  imports Client_Props Ieee_Arith
begin

text \<open>
  The firmware of the inverted pendulum
  (\<open>demos/inverted_pendulum/inverted_pendulum_tier1/src/main.cpp\<close> and
  \<open>inverted_pendulum_tier2/src/main.cpp\<close>, which share all but the messages, as \<open>Pendulum_Tier2\<close> shows): start-up, the loop that
  publishes the two angles and follows the commanded velocity, and the stepper's rate limits. The drivers,
  the network stack and the clock are outside of the repository: their answers are records of inputs, and
  the calls to the stepper are a log. Undefined behaviour and a loop that never ends are \<open>None\<close>. Commands
  and the control thread come between two cycles. The angle arithmetic is that of \<open>Ieee_Arith\<close>.
\<close>

section \<open>The stepper\<close>

definition kMinMicrostepIntervalNs :: u64 where "kMinMicrostepIntervalNs = 20000"
definition kMaxMicrostepIntervalNs :: u64 where "kMaxMicrostepIntervalNs = 1000000000"
definition motor_steps_per_rev :: u32 where "motor_steps_per_rev = 200"

definition micro_steps_per_rev :: "u32 \<Rightarrow> i32" where
  "micro_steps_per_rev micro_step_res = motor_steps_per_rev * micro_step_res"

definition f64_of_i32 :: "i32 \<Rightarrow> f64" where "f64_of_i32 w = f64_of_int (sint w)"
definition f64_of_u64 :: "u64 \<Rightarrow> f64" where "f64_of_u64 w = f64_of_int (uint w)"

definition two_pi :: f64 where "two_pi = f64_mul (f64_of_int 2) M_PI"

definition microsteps_to_angle :: "u32 \<Rightarrow> i32 \<Rightarrow> f64" where
  "microsteps_to_angle res microsteps =
     f64_div (f64_mul two_pi (f64_of_i32 microsteps)) (f64_of_i32 (micro_steps_per_rev res))"

datatype motor_call = Motor_Stop | Motor_Set_Interval u64 | Motor_Run bool  \<comment> \<open>\<open>True\<close>: the positive direction\<close>

text \<open>What the driver returns, from the calls so far.\<close>

type_synonym motor_driver = "motor_call list \<Rightarrow> motor_call \<Rightarrow> int"

definition stop_stepper :: "motor_call list \<Rightarrow> motor_call list" where
  "stop_stepper calls = calls @ [Motor_Stop]"

definition interval_ns :: "u32 \<Rightarrow> f64 \<Rightarrow> f64" where
  "interval_ns res rads_per_sec =
     f64_div (f64_of_int 1000000000)
       (f64_div (f64_mul (f64_abs rads_per_sec) (f64_of_i32 (micro_steps_per_rev res))) two_pi)"

definition set_stepper_angular_vel :: "u32 \<Rightarrow> motor_driver \<Rightarrow> f64 \<Rightarrow> motor_call list \<Rightarrow> motor_call list option" where
  "set_stepper_angular_vel res drv rads_per_sec calls =
     (if \<not> f64_isfinite rads_per_sec \<or> f64_eq rads_per_sec 0 then Some (stop_stepper calls)
      else
        let interval = interval_ns res rads_per_sec
        in if \<not> f64_isfinite interval \<or> f64_lt interval (f64_of_u64 kMinMicrostepIntervalNs) \<or>
              f64_lt (f64_of_u64 kMaxMicrostepIntervalNs) interval
           then Some (stop_stepper calls)
           else do {
             n \<leftarrow> f64_to_int 0 (2 ^ 64 - 1) interval;
             let set_call = Motor_Set_Interval (word_of_int n);
             if drv calls set_call \<noteq> 0 then Some (calls @ [set_call])
             else Some (calls @ [set_call, Motor_Run (f64_lt 0 rads_per_sec)]) })"

section \<open>The sensors\<close>

text \<open>What the drivers answer in one cycle: the position of the stepper if the call succeeds, the two calls of
  the encoder, and the clock.\<close>

record rig_io =
  io_position :: "i32 option"
  io_fetch :: int
  io_channel :: int
  io_degrees :: f64
  io_clock_sec :: i64
  io_clock_nsec :: i64
  io_stack :: "f64 list"  \<comment> \<open>the uninitialised array for the command\<close>

definition get_encoder_angle_deg :: "rig_io \<Rightarrow> f64 option" where
  "get_encoder_angle_deg io =
     (if io_fetch io \<noteq> 0 then None
      else if io_channel io \<noteq> 0 then None
      else Some (f64_div (f64_mul (io_degrees io) M_PI) (f64_of_int 180)))"

section \<open>The control loop\<close>

definition kControlPeriodMs :: u32 where "kControlPeriodMs = 10"
definition kCommandTimeoutMs :: u32 where "kCommandTimeoutMs = 200"
definition kCommandTimeoutCycles :: u32 where "kCommandTimeoutCycles = kCommandTimeoutMs div kControlPeriodMs"

text \<open>The local variables of \<open>main\<close>, and the calls to the stepper.\<close>

record rig =
  rg_stepper_angle :: f64
  rg_encoder_angle :: f64
  rg_stepper_offset :: f64
  rg_encoder_offset :: f64
  rg_velocity :: f64
  rg_last_count :: u32
  rg_cycles :: u32
  rg_motor :: "motor_call list"

definition read_sensors :: "u32 \<Rightarrow> rig_io \<Rightarrow> rig \<Rightarrow> rig" where
  "read_sensors res io rg =
     (let rg = (case io_position io of
                  None \<Rightarrow> rg
                | Some p \<Rightarrow> rg\<lparr> rg_stepper_angle := f64_sub (microsteps_to_angle res p) (rg_stepper_offset rg) \<rparr>)
      in case get_encoder_angle_deg io of
           None \<Rightarrow> rg
         | Some a \<Rightarrow> rg\<lparr> rg_encoder_angle := f64_sub a (rg_encoder_offset rg) \<rparr>)"

text \<open>\<open>command\<close> is what \<open>read_command\<close> gives: nothing, or the commanded velocity.\<close>

definition command_watchdog :: "u32 \<Rightarrow> f64 option option \<Rightarrow> rig \<Rightarrow> rig option" where
  "command_watchdog command_count command rg =
     (if command_count \<noteq> rg_last_count rg then
        do { c \<leftarrow> command;
             let rg = rg\<lparr> rg_last_count := command_count, rg_cycles := 0 \<rparr>;
             Some (case c of None \<Rightarrow> rg | Some v \<Rightarrow> rg\<lparr> rg_velocity := v \<rparr>) }
      else if rg_cycles rg < kCommandTimeoutCycles then Some (rg\<lparr> rg_cycles := rg_cycles rg + 1 \<rparr>)
      else if \<not> f64_eq (rg_velocity rg) 0 then Some (rg\<lparr> rg_velocity := 0 \<rparr>)
      else Some rg)"

definition drive_motor :: "u32 \<Rightarrow> motor_driver \<Rightarrow> rig \<Rightarrow> rig option" where
  "drive_motor res drv rg =
     map_option (\<lambda>calls. rg\<lparr> rg_motor := calls \<rparr>) (set_stepper_angular_vel res drv (rg_velocity rg) (rg_motor rg))"

text \<open>One cycle of the loop; the tiers differ in the value they write and in how they read a command.\<close>

definition rig_cycle ::
    "('sc, 'sp, 'sv) state_codec_ops \<Rightarrow> (rig_io \<Rightarrow> rig \<Rightarrow> 'sv) \<Rightarrow> (rig_io \<Rightarrow> ('sc, 'cc) client \<Rightarrow> f64 option option)
       \<Rightarrow> u32 \<Rightarrow> motor_driver \<Rightarrow> rig_io \<Rightarrow> rig \<times> ('sc, 'cc) client \<Rightarrow> (rig \<times> ('sc, 'cc) client) option" where
  "rig_cycle SC state_val command res drv io = (\<lambda>(rg, cl). do {
     let rg = read_sensors res io rg;
     cl \<leftarrow> write_state SC (state_val io rg) cl;
     rg \<leftarrow> command_watchdog (cl_cmd_accepted cl) (command io cl) rg;
     rg \<leftarrow> drive_motor res drv rg;
     Some (rg, cl) })"

subsection \<open>Tier 1\<close>

type_synonym joint_client = "(zcdr_joint_state_ctx, zcdr_joint_command_ctx) client"

definition tier1_state :: "rig_io \<Rightarrow> rig \<Rightarrow> js_value" where
  "tier1_state io rg =
     \<lparr> jsv_stamp_sec = ucast (io_clock_sec io), jsv_stamp_nanosec = ucast (io_clock_nsec io),
       jsv_positions = Some [rg_stepper_angle rg, rg_encoder_angle rg], jsv_velocities = None, jsv_efforts = None \<rparr>"

definition tier1_command :: "client_config \<Rightarrow> rig_io \<Rightarrow> joint_client \<Rightarrow> f64 option option" where
  "tier1_command kc io cl =
     do { (ok, v) \<leftarrow> read_command JointCommandCodec kc
            \<lparr> jcv_stamp_sec = 0, jcv_stamp_nanosec = 0, jcv_values = Some (io_stack io) \<rparr> cl;
          if \<not> ok then Some None
          else case jcv_values v of Some (x # xs) \<Rightarrow> Some (Some x) | _ \<Rightarrow> None }"

definition tier1_cycle ::
    "u32 \<Rightarrow> motor_driver \<Rightarrow> client_config \<Rightarrow> rig_io \<Rightarrow> rig \<times> joint_client \<Rightarrow> (rig \<times> joint_client) option" where
  "tier1_cycle res drv kc = rig_cycle JointStateCodec tier1_state (tier1_command kc) res drv"

subsection \<open>Tier 2\<close>

text \<open>The two structs of the generated header have only \<open>double\<close> members: two for the state, one for the
  command.\<close>

type_synonym raw_client = "(unit, unit) client"

definition tier2_state :: "rig \<Rightarrow> byte list" where
  "tier2_state rg = le64 (rg_stepper_angle rg) @ le64 (rg_encoder_angle rg)"

definition tier2_command :: "client_config \<Rightarrow> rig_io \<Rightarrow> raw_client \<Rightarrow> f64 option option" where
  "tier2_command kc io cl =
     do { (ok, v) \<leftarrow> read_command (RawCodec_command 8) kc (le64s (take 1 (io_stack io))) cl;
          if \<not> ok then Some None
          else do { bs \<leftarrow> mem_read v 0 8; Some (Some (word_of_le bs)) } }"

definition tier2_cycle ::
    "u32 \<Rightarrow> motor_driver \<Rightarrow> client_config \<Rightarrow> rig_io \<Rightarrow> rig \<times> raw_client \<Rightarrow> (rig \<times> raw_client) option" where
  "tier2_cycle res drv kc = rig_cycle (RawCodec_state 16) (\<lambda>io. tier2_state) (tier2_command kc) res drv"

text \<open>A run: in each round first the operations of the control thread and of the network, then a cycle.\<close>

fun run_rounds ::
    "('sc, 'sp, 'sv) state_codec_ops \<Rightarrow> client_config \<Rightarrow> client_env
       \<Rightarrow> ('io \<Rightarrow> 'a \<times> ('sc, 'cc) client \<Rightarrow> ('a \<times> ('sc, 'cc) client) option)
       \<Rightarrow> ('sv client_op list \<times> 'io) list \<Rightarrow> 'a \<times> ('sc, 'cc) client \<times> ctransport
       \<Rightarrow> ('a \<times> ('sc, 'cc) client \<times> ctransport) option" where
  "run_rounds SC kc env cycle [] s = Some s"
| "run_rounds SC kc env cycle ((ops, io) # rest) (app, cl, t) =
     do { (cl, t) \<leftarrow> perform_all SC kc env ops (cl, t);
          (app, cl) \<leftarrow> cycle io (app, cl);
          run_rounds SC kc env cycle rest (app, cl, t) }"

definition tier1_run ::
    "u32 \<Rightarrow> motor_driver \<Rightarrow> client_config \<Rightarrow> client_env \<Rightarrow> (js_value client_op list \<times> rig_io) list
       \<Rightarrow> rig \<times> joint_client \<times> ctransport \<Rightarrow> (rig \<times> joint_client \<times> ctransport) option" where
  "tier1_run res drv kc env = run_rounds JointStateCodec kc env (tier1_cycle res drv kc)"

definition tier2_run ::
    "u32 \<Rightarrow> motor_driver \<Rightarrow> client_config \<Rightarrow> client_env \<Rightarrow> (byte list client_op list \<times> rig_io) list
       \<Rightarrow> rig \<times> raw_client \<times> ctransport \<Rightarrow> (rig \<times> raw_client \<times> ctransport) option" where
  "tier2_run res drv kc env = run_rounds (RawCodec_state 16) kc env (tier2_cycle res drv kc)"

section \<open>Start-up\<close>

definition kWifiConnectTimeout :: u32 where "kWifiConnectTimeout = 15000"
definition kIpv4AcquireTimeout :: u32 where "kIpv4AcquireTimeout = 30000"

text \<open>A waiting loop: poll \<open>k\<close> answers \<open>ok k\<close>, and the uptime read after it is \<open>now k\<close>; the subtraction wraps.
  The result is whether it succeeded, and the number of polls before the last.\<close>

partial_function (option) wait_loop ::
    "(nat \<Rightarrow> bool) \<Rightarrow> (nat \<Rightarrow> u32) \<Rightarrow> u32 \<Rightarrow> u32 \<Rightarrow> nat \<Rightarrow> (bool \<times> nat) option" where
  "wait_loop ok now timer timeout k =
     (if ok k then Some (True, k)
      else if timeout < now k - timer then Some (False, k)
      else wait_loop ok now timer timeout (Suc k))"

text \<open>The answers during start-up.\<close>

record start_io =
  si_stepper_ready :: bool
  si_encoder_ready :: bool
  si_wifi :: "nat \<Rightarrow> bool"
  si_wifi_now :: "nat \<Rightarrow> u32"
  si_wifi_timer :: u32
  si_addr :: "nat \<Rightarrow> bool"
  si_addr_now :: "nat \<Rightarrow> u32"
  si_addr_timer :: u32
  si_sntp :: int
  si_sntp_seconds :: u64
  si_sntp_fraction :: u32
  si_settime :: int
  si_enable :: int
  si_position :: "int \<times> i32"
  si_sensors :: rig_io

text \<open>The result, and the seconds and nanoseconds that the clock is set to, if it is.\<close>

definition sync_time_from_ntp :: "start_io \<Rightarrow> bool \<times> (i64 \<times> i64) option" where
  "sync_time_from_ntp si =
     (if si_sntp si < 0 then (False, None)
      else
        let tv_nsec = drop_bit 32 (ucast (si_sntp_fraction si) * 1000000000 :: u64)
        in if si_settime si = 0 then (True, Some (si_sntp_seconds si, tv_nsec)) else (False, None))"

definition network_up :: "start_io \<Rightarrow> bool option" where
  "network_up si =
     do { (ok, k) \<leftarrow> wait_loop (si_wifi si) (si_wifi_now si) (si_wifi_timer si) kWifiConnectTimeout 0;
          if \<not> ok then Some False
          else do { (ok, k) \<leftarrow> wait_loop (si_addr si) (si_addr_now si) (si_addr_timer si) kIpv4AcquireTimeout 0;
                    Some ok } }"

text \<open>\<open>main\<close> returns a code, or enters its loop.\<close>

datatype start_result = Exit int | Loop rig

text \<open>The offsets of the two angles; \<open>count\<close> is the number of accepted commands.\<close>

definition calibrate :: "u32 \<Rightarrow> start_io \<Rightarrow> u32 \<Rightarrow> start_result" where
  "calibrate res si count =
     (case si_position si of (ret, p) \<Rightarrow>
        if ret \<noteq> 0 then Exit ret
        else case get_encoder_angle_deg (si_sensors si) of
               None \<Rightarrow> Exit (- EIO)
             | Some a \<Rightarrow>
                 Loop \<lparr> rg_stepper_angle = 0, rg_encoder_angle = 0, rg_stepper_offset = microsteps_to_angle res p,
                        rg_encoder_offset = a, rg_velocity = 0, rg_last_count = count, rg_cycles = 0, rg_motor = [] \<rparr>)"

definition tier1_sp :: js_params where
  "tier1_sp = \<lparr> jsp_frame_id = Some ''base_link'', jsp_joint_names = [''stepper_motor'', ''magnetic_encoder''],
     jsp_num_joints = 2 \<rparr>"

definition tier1_cp :: jc_params where
  "tier1_cp = \<lparr> jcp_frame_id = Some ''base_link'', jcp_joint_names = [''stepper_motor'', ''magnetic_encoder''],
     jcp_num_joints = 2, jcp_interface_name = Some ''velocity'' \<rparr>"

text \<open>The last components of the result: whether the stepper's driver was enabled, and the time that the clock was
  set to. A failure of the time synchronisation is only logged.\<close>

definition tier1_start ::
    "u32 \<Rightarrow> client_config \<Rightarrow> client_env \<Rightarrow> start_io \<Rightarrow> byte list \<Rightarrow> joint_client \<times> ctransport
       \<Rightarrow> (start_result \<times> (joint_client \<times> ctransport) \<times> bool \<times> (i64 \<times> i64) option) option" where
  "tier1_start res kc env si scratch s =
     (if \<not> si_stepper_ready si then Some (Exit 0, s, False, None)
      else if \<not> si_encoder_ready si then Some (Exit 0, s, False, None)
      else do {
        up \<leftarrow> network_up si;
        if \<not> up then Some (Exit (-1), s, False, None)
        else do {
          let (synced, time) = sync_time_from_ntp si;
          (ret, s) \<leftarrow> client_init JointStateCodec JointCommandCodec kc env 50 tier1_sp tier1_cp scratch (fst s) (snd s);
          if ret \<noteq> 0 then Some (Exit ret, s, False, time)
          else if si_enable si \<noteq> 0 then Some (Exit (si_enable si), s, False, time)
          else Some (calibrate res si (cl_cmd_accepted (fst s)), s, True, time) } })"

definition tier2_start ::
    "u32 \<Rightarrow> client_config \<Rightarrow> client_env \<Rightarrow> start_io \<Rightarrow> byte list \<Rightarrow> raw_client \<times> ctransport
       \<Rightarrow> (start_result \<times> (raw_client \<times> ctransport) \<times> bool) option" where
  "tier2_start res kc env si scratch s =
     (if \<not> si_stepper_ready si then Some (Exit 0, s, False)
      else if \<not> si_encoder_ready si then Some (Exit 0, s, False)
      else do {
        up \<leftarrow> network_up si;
        if \<not> up then Some (Exit (-1), s, False)
        else do {
          (ret, s) \<leftarrow> client_init (RawCodec_state 16) (RawCodec_command 8) kc env 50 () () scratch (fst s) (snd s);
          if ret \<noteq> 0 then Some (Exit ret, s, False)
          else if si_enable si \<noteq> 0 then Some (Exit (si_enable si), s, False)
          else Some (calibrate res si (cl_cmd_accepted (fst s)), s, True) } })"

end
