(* ===== verification/Pendulum_Props.thy ===== *)
theory Pendulum_Props
  imports Pendulum_Firmware
begin

text \<open>
  The properties of the pendulum's firmware: the rate of the stepper, the watchdog on commands, the way from
  a received command to the motor, and start-up.
\<close>

section \<open>The rate of the stepper\<close>

lemma interval_bounds_conv:
  "f64_of_u64 kMinMicrostepIntervalNs = f64_of_int 20000" "f64_of_u64 kMaxMicrostepIntervalNs = f64_of_int 1000000000"
  by (simp_all add: f64_of_u64_def kMinMicrostepIntervalNs_def kMaxMicrostepIntervalNs_def)

lemma set_stepper_cases:
  "set_stepper_angular_vel res drv v calls = Some (calls @ [Motor_Stop]) \<or>
   (\<exists>n :: u64. 20000 \<le> n \<and> n \<le> 1000000000 \<and> f64_isfinite v \<and> \<not> f64_eq v 0 \<and>
      set_stepper_angular_vel res drv v calls =
        Some (calls @ Motor_Set_Interval n # (if drv calls (Motor_Set_Interval n) = 0 then [Motor_Run (f64_lt 0 v)] else [])))"
proof (cases "\<not> f64_isfinite v \<or> f64_eq v 0 \<or> \<not> f64_isfinite (interval_ns res v) \<or>
    f64_lt (interval_ns res v) (f64_of_int 20000) \<or> f64_lt (f64_of_int 1000000000) (interval_ns res v)")
  case True
  then show ?thesis by (auto simp: set_stepper_angular_vel_def Let_def stop_stepper_def interval_bounds_conv)
next
  case False
  obtain i where i: "f64_to_int 0 (2 ^ 64 - 1) (interval_ns res v) = Some i" "20000 \<le> i" "i \<le> 1000000000"
    using f64_to_int_between [of "interval_ns res v" 20000 1000000000] False by auto
  have u: "uint (word_of_int i :: u64) = i" using i(2,3) by (simp add: unsigned_of_int take_bit_int_eq_self)
  have "20000 \<le> (word_of_int i :: u64)" "(word_of_int i :: u64) \<le> 1000000000"
    using i(2,3) by (simp_all add: word_le_def u)
  then show ?thesis using False i(1)
    by (auto simp: set_stepper_angular_vel_def Let_def interval_bounds_conv intro!: exI [of _ "word_of_int i"])
qed

lemma zero_eq [simp]: "f64_eq 0 0"
  by (simp add: f64_eq_def f64_isnan_def f64_mag_def F64_INF_def)

lemma drive_motor_frame:
  "\<exists>new. drive_motor res drv rg = Some (rg\<lparr> rg_motor := rg_motor rg @ new \<rparr>) \<and> (f64_eq (rg_velocity rg) 0 \<longrightarrow> new = [Motor_Stop])"
proof (cases "f64_eq (rg_velocity rg) 0")
  case True
  then have "set_stepper_angular_vel res drv (rg_velocity rg) (rg_motor rg) = Some (rg_motor rg @ [Motor_Stop])"
    by (simp add: set_stepper_angular_vel_def stop_stepper_def)
  then show ?thesis by (auto simp: drive_motor_def)
next
  case False
  then show ?thesis using set_stepper_cases [of res drv "rg_velocity rg" "rg_motor rg"] by (auto simp: drive_motor_def)
qed

section \<open>Cycles without a command\<close>

lemma read_sensors_frame [simp]:
  "rg_velocity (read_sensors res io rg) = rg_velocity rg" "rg_last_count (read_sensors res io rg) = rg_last_count rg"
  "rg_cycles (read_sensors res io rg) = rg_cycles rg" "rg_motor (read_sensors res io rg) = rg_motor rg"
  by (simp_all add: read_sensors_def Let_def split: option.splits)

lemma timeout_cycles: "unat kCommandTimeoutCycles = 20"
  by (simp add: kCommandTimeoutCycles_def kCommandTimeoutMs_def kControlPeriodMs_def unat_div)

text \<open>The state after \<open>n\<close> cycles without a command.\<close>

definition starved :: "rig \<Rightarrow> nat \<Rightarrow> rig \<Rightarrow> bool" where
  "starved rg0 n rg \<longleftrightarrow> rg_last_count rg = rg_last_count rg0 \<and>
     unat (rg_cycles rg) = min 20 (unat (rg_cycles rg0) + n) \<and>
     rg_velocity rg = (if unat (rg_cycles rg0) + n \<le> 20 \<or> f64_eq (rg_velocity rg0) 0 then rg_velocity rg0 else 0) \<and>
     (0 < n \<and> f64_eq (rg_velocity rg) 0 \<longrightarrow> last (rg_motor rg) = Motor_Stop)"

lemma watchdog_starved:
  assumes s: "starved rg0 n rg" and c: "unat (rg_cycles rg0) \<le> 20"
    and w: "command_watchdog (rg_last_count rg) cmd (read_sensors res io rg) = Some rg1"
    and d: "drive_motor res drv rg1 = Some rg2"
  shows "starved rg0 (Suc n) rg2"
proof -
  obtain new where new: "rg2 = rg1\<lparr> rg_motor := rg_motor rg1 @ new \<rparr>" "f64_eq (rg_velocity rg1) 0 \<longrightarrow> new = [Motor_Stop]"
    using drive_motor_frame [of res drv rg1] d by auto
  have k: "rg_cycles rg < kCommandTimeoutCycles \<longleftrightarrow> unat (rg_cycles rg) < 20"
    by (simp add: word_less_nat_alt timeout_cycles)
  have suc: "unat (rg_cycles rg + 1) = unat (rg_cycles rg) + 1" if "unat (rg_cycles rg) < 20"
    using that by (intro unat_plus_if_size [THEN trans]) (simp add: word_size)
  show ?thesis
  proof (cases "unat (rg_cycles rg) < 20")
    case True
    then have "rg1 = (read_sensors res io rg)\<lparr> rg_cycles := rg_cycles rg + 1 \<rparr>"
      using w k by (simp add: command_watchdog_def)
    then show ?thesis using s new suc [OF True] True by (auto simp: starved_def)
  next
    case False
    then have "rg1 = (if f64_eq (rg_velocity rg) 0 then read_sensors res io rg
        else (read_sensors res io rg)\<lparr> rg_velocity := 0 \<rparr>)"
      using w k by (auto simp: command_watchdog_def)
    then show ?thesis using s c new False by (auto simp: starved_def split: if_splits)
  qed
qed

lemma write_state_frame:
  "write_state SC v cl = Some cl' \<Longrightarrow> cl_cmd_accepted cl' = cl_cmd_accepted cl \<and>
     cl_cmd_payload_size cl' = cl_cmd_payload_size cl"
  by (auto simp: write_state_def Let_def bind_eq_Some_conv split: if_splits)

lemma internal_sub_handler_payload:
  assumes "internal_sub_handler cfg sub payload = Some (Some (cb, bs, u))"
  shows "bs = payload"
proof -
  obtain buf where "mem_write (replicate (rx_buf_size (cfg_tier cfg)) 0) 0 payload = Some buf"
    "mem_read buf 0 (length payload) = Some bs"
    using assms by (auto simp: internal_sub_handler_def Let_def bind_eq_Some_conv split: option.splits if_splits)
  then show ?thesis using mem_read_write_same by fastforce
qed

lemma client_receive_same:
  assumes "client_receive kc bs cl t = Some c"
  shows "c = cl \<or> on_transport_cmd_cb bs cl = Some c"
proof (cases "cl_sub cl")
  case None
  then show ?thesis using assms by (simp add: client_receive_def)
next
  case (Some j)
  let ?h = "internal_sub_handler (kc_transport kc) (Some (tr_subs t ! j)) bs"
  show ?thesis
  proof (cases ?h)
    case None
    then show ?thesis using assms Some by (simp add: client_receive_def)
  next
    case h: (Some call)
    show ?thesis
    proof (cases call)
      case None
      then show ?thesis using assms Some h by (simp add: client_receive_def)
    next
      case y: (Some y)
      obtain cb b u where y': "y = (cb, b, u)" by (cases y)
      have b: "b = bs" by (rule internal_sub_handler_payload) (use h y y' in simp)
      show ?thesis
        using assms Some h y y' b by (cases cb; cases u) (simp_all add: client_receive_def)
    qed
  qed
qed

text \<open>Payloads of another size than the command's, and anything that is not received, leave the count.\<close>

definition no_command :: "nat \<Rightarrow> 'sv client_op \<Rightarrow> bool" where
  "no_command n x \<longleftrightarrow> (case x of Op_Receive bs \<Rightarrow> length bs \<noteq> n | _ \<Rightarrow> True)"

lemma perform_no_command:
  assumes "perform SC kc env x (cl, t) = Some (cl', t')" and "no_command (unat (cl_cmd_payload_size cl)) x"
  shows "cl_cmd_accepted cl' = cl_cmd_accepted cl \<and> cl_cmd_payload_size cl' = cl_cmd_payload_size cl"
proof (cases x)
  case (Op_Write v)
  then show ?thesis using assms(1) write_state_frame [of SC v cl cl'] by (auto simp: bind_eq_Some_conv)
next
  case Op_Publish
  then show ?thesis using assms(1) by (auto simp: bind_eq_Some_conv)
next
  case (Op_Receive bs)
  then have r: "client_receive kc bs cl t = Some cl'" using assms(1) by (auto simp: bind_eq_Some_conv)
  have n: "on_transport_cmd_cb bs cl = Some cl" using assms(2) Op_Receive by (simp add: no_command_def on_transport_cmd_cb_def)
  then show ?thesis using client_receive_same [OF r] by auto
qed

lemma perform_all_no_command:
  assumes "perform_all SC kc env xs (cl, t) = Some (cl', t')" and "list_all (no_command (unat (cl_cmd_payload_size cl))) xs"
  shows "cl_cmd_accepted cl' = cl_cmd_accepted cl \<and> cl_cmd_payload_size cl' = cl_cmd_payload_size cl"
  using assms
proof (induction xs arbitrary: cl t)
  case (Cons x xs)
  obtain cl1 t1 where p: "perform SC kc env x (cl, t) = Some (cl1, t1)" "perform_all SC kc env xs (cl1, t1) = Some (cl', t')"
    using Cons.prems(1) by (auto simp: bind_eq_Some_conv)
  then show ?case using perform_no_command [OF p(1)] Cons.IH [OF p(2)] Cons.prems(2) by simp
qed simp

lemma rig_cycle_pair:
  "rig_cycle SC sv cmd res drv io (rg, cl) = do {
     cl \<leftarrow> write_state SC (sv io (read_sensors res io rg)) cl;
     rg \<leftarrow> command_watchdog (cl_cmd_accepted cl) (cmd io cl) (read_sensors res io rg);
     rg \<leftarrow> drive_motor res drv rg;
     Some (rg, cl) }"
  by (simp add: rig_cycle_def Let_def)

lemma run_rounds_starved:
  assumes "run_rounds SC kc env (rig_cycle SC sv cmd res drv) xs (rg, cl, t) = Some (rg', cl', t')"
    and "\<forall>(ops, io) \<in> set xs. list_all (no_command (unat (cl_cmd_payload_size cl))) ops"
    and "rg_last_count rg = cl_cmd_accepted cl" and "starved rg0 n rg" and "unat (rg_cycles rg0) \<le> 20"
  shows "starved rg0 (n + length xs) rg'"
  using assms
proof (induction xs arbitrary: rg cl t n)
  case (Cons x xs)
  obtain ops io where x: "x = (ops, io)" by fastforce
  from Cons.prems(1) obtain cl1 t1 cl2 rg1 rg2 where
    p: "perform_all SC kc env ops (cl, t) = Some (cl1, t1)"
    and w: "write_state SC (sv io (read_sensors res io rg)) cl1 = Some cl2"
    and d: "command_watchdog (cl_cmd_accepted cl2) (cmd io cl2) (read_sensors res io rg) = Some rg1"
      "drive_motor res drv rg1 = Some rg2"
    and r: "run_rounds SC kc env (rig_cycle SC sv cmd res drv) xs (rg2, cl2, t1) = Some (rg', cl', t')"
    by (auto simp: x rig_cycle_pair bind_eq_Some_conv)
  have c1: "cl_cmd_accepted cl1 = cl_cmd_accepted cl \<and> cl_cmd_payload_size cl1 = cl_cmd_payload_size cl"
    using perform_all_no_command [OF p] Cons.prems(2) x by auto
  have c2: "cl_cmd_accepted cl2 = cl_cmd_accepted cl1 \<and> cl_cmd_payload_size cl2 = cl_cmd_payload_size cl1"
    using write_state_frame [OF w] .
  have "cl_cmd_accepted cl2 = rg_last_count rg" using c1 c2 Cons.prems(3) by simp
  then have s: "starved rg0 (Suc n) rg2" using watchdog_starved [OF Cons.prems(4,5) _ d(2)] d(1) by simp
  then have "rg_last_count rg2 = cl_cmd_accepted cl2" using c1 c2 Cons.prems(3,4) by (simp add: starved_def)
  from Cons.IH [OF r _ this s Cons.prems(5)] show ?case using Cons.prems(2) c1 c2 by simp
qed simp

section \<open>The way of a command\<close>

lemma raw_fits_2: "16 \<le> kc_max_state kc \<Longrightarrow> raw_fits 16 () (kc_max_state kc)" "8 \<le> kc_max_cmd kc \<Longrightarrow> raw_fits 8 () (kc_max_cmd kc)"
  by (simp_all add: raw_fits_def)

lemma length_tier2_state [simp]: "length (tier2_state rg) = 16"
  by (simp add: tier2_state_def)

abbreviation tier2_up where "tier2_up kc ops s \<equiv> raw_client.up 16 8 kc () () ops s"

lemma tier2_cmd_size [simp]: "unat (cc_payload_size (RawCodec_command 8) ()) = 8"
  by (simp add: RawCodec_command_def)

lemma tier2_up_accepted:
  "tier2_up kc ops (cl, t) \<Longrightarrow> cl_cmd_accepted cl = of_nat (length (accepted (cfg_tier (kc_transport kc)) 8 ops))"
  unfolding raw_client.up_def raw_client.cmd_ok_def by simp

lemma command_watchdog_defined:
  assumes "count \<noteq> rg_last_count rg \<longrightarrow> command = Some c"
  shows "\<exists>rg'. command_watchdog count command rg = Some rg' \<and> rg_last_count rg' = count \<and>
    (count \<noteq> rg_last_count rg \<longrightarrow> rg_cycles rg' = 0 \<and> rg_velocity rg' = (case c of None \<Rightarrow> rg_velocity rg | Some v \<Rightarrow> v))"
  using assms by (cases c) (auto simp: command_watchdog_def Let_def)

lemma tier2_command_up:
  assumes u: "tier2_up kc ops (cl, t)" and k: "kc_max_cmd kc < 2 ^ 32" and st: "io_stack io \<noteq> []"
    and a: "accepted (cfg_tier (kc_transport kc)) 8 ops \<noteq> []"
  shows "tier2_command kc io cl = Some (Some (word_of_le (last (accepted (cfg_tier (kc_transport kc)) 8 ops))))"
proof -
  let ?v = "last (accepted (cfg_tier (kc_transport kc)) 8 ops)"
  obtain x xs where x: "io_stack io = x # xs" using st by (cases "io_stack io") auto
  have room: "raw_object 8 () (le64s (take 1 (io_stack io)))" by (simp add: raw_object_def x)
  have l: "length ?v = 8" using a by (intro accepted_length [OF last_in_set])
  then have "raw_encodes 8 () ?v ?v" by (simp add: raw_encodes_def)
  then have "read_command (RawCodec_command 8) kc (le64s (take 1 (io_stack io))) cl = Some (True, ?v)"
    using raw_client.read_command_up [OF u k room, of ?v] a by simp
  then show ?thesis using l by (simp add: tier2_command_def mem_read_def)
qed

text \<open>A cycle is one write to the client.\<close>

lemma tier2_cycle_up:
  assumes u: "tier2_up kc ops (cl, t)" and k: "kc_max_cmd kc < 2 ^ 32" and st: "io_stack io \<noteq> []"
    and acc: "cl_cmd_accepted cl \<noteq> rg_last_count rg \<longrightarrow> accepted (cfg_tier (kc_transport kc)) 8 ops \<noteq> []"
  shows "\<exists>rg' cl'. tier2_cycle res drv kc io (rg, cl) = Some (rg', cl') \<and> rg_last_count rg' = cl_cmd_accepted cl' \<and>
    tier2_up kc (ops @ [Op_Write (tier2_state (read_sensors res io rg))]) (cl', t) \<and>
    (cl_cmd_accepted cl \<noteq> rg_last_count rg \<longrightarrow>
       rg_velocity rg' = word_of_le (last (accepted (cfg_tier (kc_transport kc)) 8 ops)) \<and> rg_cycles rg' = 0)"
proof -
  let ?w = "Op_Write (tier2_state (read_sensors res io rg))" and ?v = "last (accepted (cfg_tier (kc_transport kc)) 8 ops)"
  obtain cl' where w: "write_state (RawCodec_state 16) (tier2_state (read_sensors res io rg)) cl = Some cl'"
    using raw_client.perform_defined [OF u, of ?w] by (auto simp: raw_object_def bind_eq_Some_conv)
  have u': "tier2_up kc (ops @ [?w]) (cl', t)"
    by (rule raw_client.up_perform [OF u]) (use w in \<open>auto simp: raw_object_def\<close>)
  have c: "cl_cmd_accepted cl' = cl_cmd_accepted cl" using write_state_frame [OF w] by simp
  have cmd: "tier2_command kc io cl' = Some (Some (word_of_le ?v))" if "accepted (cfg_tier (kc_transport kc)) 8 ops \<noteq> []"
    using tier2_command_up [OF u' k st] that by simp
  have "cl_cmd_accepted cl' \<noteq> rg_last_count (read_sensors res io rg) \<longrightarrow> tier2_command kc io cl' = Some (Some (word_of_le ?v))"
    using cmd acc c by simp
  from command_watchdog_defined [OF this] obtain rg1 where
    rg1: "command_watchdog (cl_cmd_accepted cl') (tier2_command kc io cl') (read_sensors res io rg) = Some rg1"
      "rg_last_count rg1 = cl_cmd_accepted cl'"
      "cl_cmd_accepted cl \<noteq> rg_last_count rg \<longrightarrow> rg_velocity rg1 = word_of_le ?v \<and> rg_cycles rg1 = 0"
    using c by auto
  obtain new where "drive_motor res drv rg1 = Some (rg1\<lparr> rg_motor := rg_motor rg1 @ new \<rparr>)"
    using drive_motor_frame by blast
  then show ?thesis using w rg1 u' by (simp add: tier2_cycle_def rig_cycle_pair)
qed

text \<open>Rounds in which the network delivers, and nobody else writes or publishes.\<close>

definition delivery_round :: "byte list client_op list \<times> rig_io \<Rightarrow> bool" where
  "delivery_round x \<longleftrightarrow> list_all (\<lambda>op. case op of Op_Receive bs \<Rightarrow> True | _ \<Rightarrow> False) (fst x) \<and> io_stack (snd x) \<noteq> []"

lemma delivery_round_ops:
  "delivery_round (ops, io) \<Longrightarrow> written ops = [] \<and> Op_Publish \<notin> set ops \<and> io_stack io \<noteq> []"
proof -
  have "list_all (\<lambda>op. case op of Op_Receive bs \<Rightarrow> True | _ \<Rightarrow> False) ops \<Longrightarrow> written ops = [] \<and> Op_Publish \<notin> set ops"
  proof (induction ops)
    case (Cons x ops)
    then show ?case by (cases x) auto
  qed simp
  then show "delivery_round (ops, io) \<Longrightarrow> written ops = [] \<and> Op_Publish \<notin> set ops \<and> io_stack io \<noteq> []"
    by (simp add: delivery_round_def)
qed

lemma tier2_round_up:
  assumes u: "tier2_up kc ops0 (cl, t)" and k: "kc_max_cmd kc < 2 ^ 32" and d: "delivery_round (ops, io)"
    and n: "rg_last_count rg = cl_cmd_accepted cl"
  shows "\<exists>rg' cl' ops'. tier2_run res drv kc env [(ops, io)] (rg, cl, t) = Some (rg', cl', t) \<and>
    rg_last_count rg' = cl_cmd_accepted cl' \<and> tier2_up kc ops' (cl', t) \<and>
    accepted (cfg_tier (kc_transport kc)) 8 ops' =
      accepted (cfg_tier (kc_transport kc)) 8 ops0 @ accepted (cfg_tier (kc_transport kc)) 8 ops \<and>
    (accepted (cfg_tier (kc_transport kc)) 8 ops \<noteq> [] \<and> length (accepted (cfg_tier (kc_transport kc)) 8 ops) < 2 ^ 32 \<longrightarrow>
       rg_velocity rg' = word_of_le (last (accepted (cfg_tier (kc_transport kc)) 8 ops)) \<and> rg_cycles rg' = 0)"
proof -
  let ?acc = "accepted (cfg_tier (kc_transport kc)) 8"
  note o = delivery_round_ops [OF d]
  obtain cl1 where p: "perform_all (RawCodec_state 16) kc env ops (cl, t) = Some (cl1, t)"
    using raw_client.perform_all_defined [OF u, of ops env] o by auto
  have u1: "tier2_up kc (ops0 @ ops) (cl1, t)" using raw_client.up_perform_all [OF u _ p] o by simp
  have cnt: "cl_cmd_accepted cl1 = cl_cmd_accepted cl + of_nat (length (?acc ops))"
    using tier2_up_accepted [OF u] tier2_up_accepted [OF u1] by simp
  have "cl_cmd_accepted cl1 \<noteq> rg_last_count rg \<longrightarrow> ?acc (ops0 @ ops) \<noteq> []" using cnt n by auto
  from tier2_cycle_up [OF u1 k _ this, of io res drv] o obtain rg' cl' where
    c: "tier2_cycle res drv kc io (rg, cl1) = Some (rg', cl')" "rg_last_count rg' = cl_cmd_accepted cl'"
      "tier2_up kc ((ops0 @ ops) @ [Op_Write (tier2_state (read_sensors res io rg))]) (cl', t)"
      "cl_cmd_accepted cl1 \<noteq> rg_last_count rg \<longrightarrow>
         rg_velocity rg' = word_of_le (last (?acc (ops0 @ ops))) \<and> rg_cycles rg' = 0" by auto
  have new: "cl_cmd_accepted cl1 \<noteq> rg_last_count rg" if "?acc ops \<noteq> []" "length (?acc ops) < 2 ^ 32"
  proof -
    have "unat (of_nat (length (?acc ops)) :: u32) = length (?acc ops)"
      using that by (intro of_nat_inverse [OF refl]) simp
    then have "(of_nat (length (?acc ops)) :: u32) \<noteq> 0" using that by (metis length_0_conv unsigned_0)
    then show ?thesis using cnt n by simp
  qed
  show ?thesis
    by (rule exI [of _ rg'], rule exI [of _ cl'],
        rule exI [of _ "(ops0 @ ops) @ [Op_Write (tier2_state (read_sensors res io rg))]"])
      (use p c new in \<open>auto simp: tier2_run_def\<close>)
qed

lemma tier2_run_up:
  assumes "tier2_up kc ops0 (cl, t)" and "kc_max_cmd kc < 2 ^ 32" and "list_all delivery_round xs"
    and "rg_last_count rg = cl_cmd_accepted cl"
  shows "\<exists>rg' cl' ops'. tier2_run res drv kc env xs (rg, cl, t) = Some (rg', cl', t) \<and>
    rg_last_count rg' = cl_cmd_accepted cl' \<and> tier2_up kc ops' (cl', t)"
  using assms
proof (induction xs arbitrary: rg cl ops0)
  case Nil
  then show ?case by (auto simp: tier2_run_def)
next
  case (Cons x xs)
  obtain ops io where x: "x = (ops, io)" by fastforce
  have d: "delivery_round (ops, io)" "list_all delivery_round xs" using Cons.prems(3) x by simp_all
  obtain rg1 cl1 ops1 where r: "tier2_run res drv kc env [(ops, io)] (rg, cl, t) = Some (rg1, cl1, t)"
      "rg_last_count rg1 = cl_cmd_accepted cl1" "tier2_up kc ops1 (cl1, t)"
    using tier2_round_up [OF Cons.prems(1,2) d(1) Cons.prems(4), of res drv env] by blast
  have "tier2_run res drv kc env (x # xs) (rg, cl, t) = tier2_run res drv kc env xs (rg1, cl1, t)"
    using r(1) by (auto simp: tier2_run_def x bind_eq_Some_conv)
  then show ?case using Cons.IH [OF r(3) Cons.prems(2) d(2) r(2)] by simp
qed

lemma run_rounds_append:
  "run_rounds SC kc env cycle (xs @ ys) s = Option.bind (run_rounds SC kc env cycle xs s) (run_rounds SC kc env cycle ys)"
  by (induction SC kc env cycle xs s rule: run_rounds.induct) (auto split: Option.bind_splits)

lemma client_init_zero:
  assumes "client_init SC CC kc env f sp cp scratch cl t = Some (0, cl', t')"
  shows "cl_initialized cl'"
proof (cases "cl_initialized cl")
  case True
  then show ?thesis using assms by (auto simp: client_init_def)
next
  case False
  then obtain c sz1 sz2 where "init_base kc env f sz1 sz2 c t = Some (0, cl', t')" "\<not> cl_initialized c"
    using assms by (auto simp: client_init_def Let_def bind_eq_Some_conv reset_buffers_def)
  then show ?thesis
    by (auto simp: init_base_def Let_def bind_eq_Some_conv start_thread_def ENOMEM_def EIO_def EINVAL_def ENODEV_def
        split: if_splits prod.splits)
qed

section \<open>Waiting\<close>

lemma wait_loop_returns:
  assumes step: "\<And>k. T k + 200 \<le> T (Suc k) \<and> T (Suc k) \<le> T k + 2 ^ 31" and t0: "start \<le> T 0"
    and to: "unat timeout < 2 ^ 31" and k: "T k - start \<le> unat timeout + 2 ^ 31"
    and before: "\<forall>j < k. \<not> ok j \<and> T j - start \<le> unat timeout"
  shows "\<exists>b n. wait_loop ok (\<lambda>k. of_nat (T k)) (of_nat start) timeout k = Some (b, n) \<and> (b \<longleftrightarrow> ok n) \<and>
    (\<forall>j < n. \<not> ok j \<and> T j - start \<le> unat timeout) \<and> (b \<or> unat timeout < T n - start)"
  using k before
proof (induction "unat timeout + 1 - (T k - start)" arbitrary: k rule: less_induct)
  case less
  have mono: "start \<le> T k" for k
  proof (induction k)
    case (Suc k)
    then show ?case using step [of k] by linarith
  qed (use t0 in simp)
  have "(of_nat (T k) - of_nat start :: u32) = of_nat (T k - start)" using mono by (simp add: of_nat_diff)
  moreover have "unat (of_nat (T k - start) :: u32) = T k - start"
    using less.prems(1) to by (intro of_nat_inverse [OF refl]) simp
  ultimately have cmp: "timeout < of_nat (T k) - of_nat start \<longleftrightarrow> unat timeout < T k - start"
    by (simp add: word_less_nat_alt)
  show ?case
  proof (cases "ok k \<or> unat timeout < T k - start")
    case True
    then show ?thesis using cmp less.prems(2) by (subst wait_loop.simps) auto
  next
    case False
    then have "wait_loop ok (\<lambda>k. of_nat (T k)) (of_nat start) timeout k =
        wait_loop ok (\<lambda>k. of_nat (T k)) (of_nat start) timeout (Suc k)"
      using cmp by (subst wait_loop.simps) simp
    moreover have "unat timeout + 1 - (T (Suc k) - start) < unat timeout + 1 - (T k - start)"
      "T (Suc k) - start \<le> unat timeout + 2 ^ 31"
      using False step [of k] mono [of k] by auto
    moreover have "\<forall>j < Suc k. \<not> ok j \<and> T j - start \<le> unat timeout"
      using False less.prems(2) by (auto simp: less_Suc_eq)
    ultimately show ?thesis using less.hyps [of "Suc k"] by simp
  qed
qed

section \<open>The clock\<close>

lemma ntp_time_in_range:
  assumes "sync_time_from_ntp si = (synced, Some (sec, nsec))"
  shows "sec = si_sntp_seconds si \<and> 0 \<le> sint nsec \<and> sint nsec < 1000000000"
proof -
  let ?f = "ucast (si_sntp_fraction si) :: u64"
  have f: "uint ?f < 2 ^ 32" using uint_lt2p [of "si_sntp_fraction si"] by (simp add: unsigned_ucast_eq take_bit_int_eq_self)
  then have m: "uint (?f * 1000000000) = uint ?f * 1000000000"
    by (simp add: uint_word_ariths take_bit_int_eq_self)
  have n: "nsec = drop_bit 32 (?f * 1000000000)" "sec = si_sntp_seconds si"
    using assms by (auto simp: sync_time_from_ntp_def Let_def split: if_splits)
  have u: "uint nsec = uint ?f * 1000000000 div 2 ^ 32" unfolding n(1) unsigned_drop_bit_eq m [symmetric]
    by (simp add: drop_bit_eq_div take_bit_eq_mod mod_pos_pos_trivial
      uint_lt2p [of "?f * 1000000000 :: u64", simplified] del: uint_lt2p)
  also have "\<dots> < 1000000000" 
  proof -
    have "a * 1000000000 div 2 ^ 32 < 1000000000" if "a < 2 ^ 32" for a :: int using that by simp
    then show ?thesis using f .
  qed
  finally have l: "uint nsec < 1000000000" .
  have "- (2 ^ 63) \<le> uint nsec" by (rule order_trans [OF _ uint_ge_0]) simp
  then have "sint nsec = uint nsec" using l unfolding sint_uint by (intro signed_take_bit_int_eq_self) simp_all
  then show ?thesis using l n(2) by simp
qed

section \<open>Start-up\<close>

lemma calibrate_count: "calibrate res si n = Loop rg \<Longrightarrow> rg_last_count rg = n"
  by (auto simp: calibrate_def split: prod.splits if_splits option.splits)

lemma tier1_start_loop:
  assumes "tier1_start res kc env si scratch (cl, t) = Some (Loop rg, (cl', t'), en, time)"
  shows "client_init JointStateCodec JointCommandCodec kc env 50 tier1_sp tier1_cp scratch cl t = Some (0, cl', t')"
    and "calibrate res si (cl_cmd_accepted cl') = Loop rg"
  using assms by (auto simp: tier1_start_def bind_eq_Some_conv split: if_splits prod.splits)

lemma tier2_start_loop:
  assumes "tier2_start res kc env si scratch (cl, t) = Some (Loop rg, (cl', t'), en)"
  shows "client_init (RawCodec_state 16) (RawCodec_command 8) kc env 50 () () scratch cl t = Some (0, cl', t')"
    and "calibrate res si (cl_cmd_accepted cl') = Loop rg"
  using assms by (auto simp: tier2_start_def bind_eq_Some_conv split: if_splits)

section \<open>Properties\<close>

text \<open>C27: The stepper is only ever told to run at a rate its driver can follow: whatever velocity is commanded,
  a NaN and an infinity included, the call is defined, and either stops the motor, or sets an interval
  from 20000 to 1000000000 nanoseconds and then, if the driver took it, runs in the direction of the
  sign.\<close>

theorem stepper_rate_bounded:
  "set_stepper_angular_vel res drv v calls = Some (calls @ [Motor_Stop]) \<or>
   (\<exists>n :: u64. 20000 \<le> n \<and> n \<le> 1000000000 \<and> f64_isfinite v \<and> \<not> f64_eq v 0 \<and>
      set_stepper_angular_vel res drv v calls =
        Some (calls @ Motor_Set_Interval n # (if drv calls (Motor_Set_Interval n) = 0 then [Motor_Run (f64_lt 0 v)] else [])))"
  by (rule set_stepper_cases)

text \<open>C13: A stale command stops the motor. Over any cycles in which no payload of the command's size arrives,
  the velocity stays for as long as the counter has not passed 20 cycles, and from the 21st cycle on it is
  zero and the last call to the stepper is a stop; the cycles may also publish and receive other
  payloads.\<close>

theorem stale_command_stops:
  assumes "tier2_run res drv kc env xs (rg, cl, t) = Some (rg', cl', t')"
    and "\<forall>(ops, io) \<in> set xs. list_all (no_command (unat (cl_cmd_payload_size cl))) ops"
    and "rg_last_count rg = cl_cmd_accepted cl" and "unat (rg_cycles rg) \<le> 20"
  shows "if unat (rg_cycles rg) + length xs \<le> 20 then rg_velocity rg' = rg_velocity rg
    else f64_eq (rg_velocity rg') 0 \<and> last (rg_motor rg') = Motor_Stop"
proof (cases "xs = []")
  case True
  then show ?thesis using assms(1,4) by (simp add: tier2_run_def)
next
  case False
  have "starved rg 0 rg" using assms(4) by (simp add: starved_def)
  from run_rounds_starved [OF assms(1) [unfolded tier2_run_def tier2_cycle_def] assms(2,3) this assms(4)]
  show ?thesis using False by (auto simp: starved_def split: if_splits)
qed

text \<open>The same for Tier 1.\<close>

lemma tier1_stale_command_stops:
  assumes "tier1_run res drv kc env xs (rg, cl, t) = Some (rg', cl', t')"
    and "\<forall>(ops, io) \<in> set xs. list_all (no_command (unat (cl_cmd_payload_size cl))) ops"
    and "rg_last_count rg = cl_cmd_accepted cl" and "unat (rg_cycles rg) \<le> 20" and "20 < unat (rg_cycles rg) + length xs"
  shows "f64_eq (rg_velocity rg') 0 \<and> last (rg_motor rg') = Motor_Stop"
proof -
  have "starved rg 0 rg" using assms(4) by (simp add: starved_def)
  from run_rounds_starved [OF assms(1) [unfolded tier1_run_def tier1_cycle_def] assms(2,3) this assms(4)]
  show ?thesis using assms(4,5) by (cases xs) (auto simp: starved_def split: if_splits)
qed

text \<open>C14: From power-on to the motor: once start-up entered the loop, the cycles never reach undefined
  behaviour, whatever the network delivers, and after a cycle before which commands were accepted the
  velocity is the number in the last of them, and the counter of stale cycles is zero. The rounds have the deliveries;
  that the publications in between change nothing of this is \<open>run_rounds_quiet\<close> in \<open>Client_Rounds\<close>.\<close>

theorem motor_follows_last_command:
  assumes "transport_reachable (kc_transport kc) (ce_zenoh env) t" and "\<not> cl_initialized cl"
    and "16 \<le> kc_max_state kc" and "8 \<le> kc_max_cmd kc" and "kc_max_cmd kc < 2 ^ 32" and "length scratch = kc_max_cmd kc"
    and "tier2_start res kc env si scratch (cl, t) = Some (Loop rg, (cl1, t1), en)"
    and "list_all delivery_round (xs @ [(ops, io)])"
    and "cmds = accepted (cfg_tier (kc_transport kc)) 8 ops" and "cmds \<noteq> []" and "length cmds < 2 ^ 32"
  shows "\<exists>rg' cl'. tier2_run res drv kc env (xs @ [(ops, io)]) (rg, cl1, t1) = Some (rg', cl', t1) \<and>
    rg_velocity rg' = word_of_le (last cmds) \<and> rg_cycles rg' = 0"
proof -
  have f: "raw_fits 16 () (kc_max_state kc)" "raw_fits 8 () (kc_max_cmd kc)" using assms(3,4) by (simp_all add: raw_fits_2)
  note i = tier2_start_loop(1) [OF assms(7)]
  have n: "rg_last_count rg = cl_cmd_accepted cl1" by (rule calibrate_count [OF tier2_start_loop(2) [OF assms(7)]])
  have u: "tier2_up kc [] (cl1, t1)"
    by (rule raw_client.up_init [OF f assms(6,2) transport_reachable_inv [OF assms(1)] i client_init_zero [OF i]])
  have d: "list_all delivery_round xs" "delivery_round (ops, io)" using assms(8) by simp_all
  obtain rg1 cl2 ops1 where r1: "tier2_run res drv kc env xs (rg, cl1, t1) = Some (rg1, cl2, t1)"
      "rg_last_count rg1 = cl_cmd_accepted cl2" "tier2_up kc ops1 (cl2, t1)"
    using tier2_run_up [OF u assms(5) d(1) n] by blast
  obtain rg2 cl3 where r2: "tier2_run res drv kc env [(ops, io)] (rg1, cl2, t1) = Some (rg2, cl3, t1)"
      "rg_velocity rg2 = word_of_le (last cmds) \<and> rg_cycles rg2 = 0"
    using tier2_round_up [OF r1(3) assms(5) d(2) r1(2), of res drv env] assms(9-11) by auto
  have "tier2_run res drv kc env (xs @ [(ops, io)]) (rg, cl1, t1) = tier2_run res drv kc env [(ops, io)] (rg1, cl2, t1)"
    using r1(1) by (simp add: tier2_run_def run_rounds_append del: run_rounds.simps)
  then show ?thesis by (simp add: r2)
qed

text \<open>C36: Waiting for the network ends: if the uptime advances by at least 200 milliseconds from poll to poll
  and never by more than half of its range, the loop returns, at most 200 milliseconds' worth of polls
  after the timeout, across the wrap of the 32-bit counter; it reports success exactly if the last poll
  succeeded, and a failure only after the timeout.\<close>

theorem waiting_terminates:
  assumes "\<forall>k. T k + 200 \<le> T (Suc k) \<and> T (Suc k) \<le> T k + 2 ^ 31" and "start \<le> T 0" and "T 0 - start \<le> 2 ^ 31"
    and "unat timeout < 2 ^ 31"
  shows "\<exists>b n. wait_loop ok (\<lambda>k. of_nat (T k)) (of_nat start) timeout 0 = Some (b, n) \<and> (b \<longleftrightarrow> ok n) \<and>
    200 * n \<le> unat timeout + 200 \<and> (\<forall>j < n. \<not> ok j) \<and> (b \<or> unat timeout < T n - start)"
proof -
  obtain b n where w: "wait_loop ok (\<lambda>k. of_nat (T k)) (of_nat start) timeout 0 = Some (b, n)" "b \<longleftrightarrow> ok n"
      "\<forall>j < n. \<not> ok j \<and> T j - start \<le> unat timeout" "b \<or> unat timeout < T n - start"
    using wait_loop_returns [of T start timeout 0 ok] assms by auto
  have "start + 200 * j \<le> T j" for j
  proof (induction j)
    case (Suc j)
    then show ?case using spec [OF assms(1), of j, THEN conjunct1] by simp
  qed (use assms(2) in simp)
  then have "200 * n \<le> unat timeout + 200" using w(3)
  proof (cases n)
    case (Suc m)
    moreover have "start + 200 * m \<le> T m" by fact
    moreover have "T m - start \<le> unat timeout" using w(3) Suc by simp
    ultimately show ?thesis by linarith
  qed simp
  then show ?thesis using w by blast
qed

text \<open>C37: Start-up enters the loop only if the devices are ready, the network came up, the client initialised,
  the stepper was enabled and both sensors answered, and then with the motor untouched and no velocity.
  Otherwise \<open>main\<close> returns: with 0 for a missing device, and after the stepper was enabled with an
  error, the client still running and the stepper still enabled. If the clock was set, then after the network
  came up, to the received second, and to a nanosecond within it.\<close>

theorem tier1_start_outcomes:
  assumes "tier1_start res kc env si scratch s = Some (result, s', enabled, time)"
  shows "(case result of
      Loop rg \<Rightarrow> enabled \<and> si_stepper_ready si \<and> si_encoder_ready si \<and> network_up si = Some True \<and>
        cl_initialized (fst s') \<and> si_enable si = 0 \<and> fst (si_position si) = 0 \<and>
        get_encoder_angle_deg (si_sensors si) = Some (rg_encoder_offset rg) \<and>
        rg_velocity rg = 0 \<and> rg_motor rg = [] \<and> rg_last_count rg = cl_cmd_accepted (fst s')
    | Exit code \<Rightarrow>
        (if enabled then code \<noteq> 0 \<and> cl_initialized (fst s') else code = 0 \<longleftrightarrow> \<not> (si_stepper_ready si \<and> si_encoder_ready si))) \<and>
    (case time of None \<Rightarrow> True | Some (sec, nsec) \<Rightarrow>
       network_up si = Some True \<and> sec = si_sntp_seconds si \<and> 0 \<le> sint nsec \<and> sint nsec < 1000000000)"
proof (cases "si_stepper_ready si \<and> si_encoder_ready si")
  case False
  then have "result = Exit 0" "\<not> enabled" "time = None"
    using assms by (cases "si_stepper_ready si"; simp add: tier1_start_def)+
  then show ?thesis using False by auto
next
  case ready: True
  then obtain up where up: "network_up si = Some up"
    using assms by (auto simp: tier1_start_def bind_eq_Some_conv)
  show ?thesis
  proof (cases up)
    case False
    then show ?thesis using assms ready up by (auto simp: tier1_start_def)
  next
    case True
    obtain synced time' where sync: "sync_time_from_ntp si = (synced, time')" by fastforce
    obtain ret s1 where i: "client_init JointStateCodec JointCommandCodec kc env 50 tier1_sp tier1_cp scratch (fst s) (snd s) = Some (ret, s1)"
      and r: "(if ret \<noteq> 0 then Some (Exit ret, s1, False, time')
          else if si_enable si \<noteq> 0 then Some (Exit (si_enable si), s1, False, time')
          else Some (calibrate res si (cl_cmd_accepted (fst s1)), s1, True, time')) = Some (result, s', enabled, time)"
      using assms ready up True sync by (auto simp: tier1_start_def bind_eq_Some_conv)
    have init: "ret = 0 \<longrightarrow> cl_initialized (fst s1)" using client_init_zero i by (cases s1) auto
    have "time = time'" using r by (auto split: if_splits)
    then have "case time of None \<Rightarrow> True | Some (sec, nsec) \<Rightarrow> sec = si_sntp_seconds si \<and> 0 \<le> sint nsec \<and> sint nsec < 1000000000"
      using ntp_time_in_range sync by (auto split: option.splits)
    moreover have "case result of
        Loop rg \<Rightarrow> enabled \<and> si_stepper_ready si \<and> si_encoder_ready si \<and> network_up si = Some True \<and>
          cl_initialized (fst s') \<and> si_enable si = 0 \<and> fst (si_position si) = 0 \<and>
          get_encoder_angle_deg (si_sensors si) = Some (rg_encoder_offset rg) \<and>
          rg_velocity rg = 0 \<and> rg_motor rg = [] \<and> rg_last_count rg = cl_cmd_accepted (fst s')
      | Exit code \<Rightarrow>
          (if enabled then code \<noteq> 0 \<and> cl_initialized (fst s') else code = 0 \<longleftrightarrow> \<not> (si_stepper_ready si \<and> si_encoder_ready si))"
      using r ready up True init
      by (auto simp: calibrate_def EIO_def split: if_splits option.splits prod.splits start_result.splits)
    ultimately show ?thesis using up True by (auto split: option.splits)
  qed
qed

section \<open>Witnesses\<close>

definition quiet_io :: rig_io where
  "quiet_io = \<lparr> io_position = Some 5, io_fetch = 0, io_channel = 0, io_degrees = 0, io_clock_sec = 0, io_clock_nsec = 0,
     io_stack = [0] \<rparr>"

definition demo_rig :: rig where
  "demo_rig = \<lparr> rg_stepper_angle = 0, rg_encoder_angle = 0, rg_stepper_offset = 0, rg_encoder_offset = 0,
     rg_velocity = 1, rg_last_count = 0, rg_cycles = 0, rg_motor = [] \<rparr>"

definition demo_start :: start_io where
  "demo_start = \<lparr> si_stepper_ready = True, si_encoder_ready = True, si_wifi = (\<lambda>k. True), si_wifi_now = (\<lambda>k. 0),
     si_wifi_timer = 0, si_addr = (\<lambda>k. True), si_addr_now = (\<lambda>k. 0), si_addr_timer = 0, si_sntp = 0,
     si_sntp_seconds = 0, si_sntp_fraction = 0, si_settime = 0, si_enable = 0, si_position = (0, 5),
     si_sensors = quiet_io \<rparr>"

lemma demo_client_up:
  obtains cl1 t1 where
    "client_init (RawCodec_state 16) (RawCodec_command 8) (demo_kc tier2_cfg) demo_env 50 () () (replicate 256 0)
       demo_raw_client transport_static = Some (0, cl1, t1)"
    "tier2_up (demo_kc tier2_cfg) [] (cl1, t1)"
proof -
  have f: "raw_fits 16 () (kc_max_state (demo_kc tier2_cfg))" "raw_fits 8 () (kc_max_cmd (demo_kc tier2_cfg))"
    "length (replicate 256 (0 :: byte)) = kc_max_cmd (demo_kc tier2_cfg)" by (simp_all add: raw_fits_def)
  obtain cl1 t1 where i: "client_init (RawCodec_state 16) (RawCodec_command 8) (demo_kc tier2_cfg) demo_env 50 () ()
       (replicate 256 0) demo_raw_client transport_static = Some (0, cl1, t1)" "cl_initialized cl1"
    using raw_client.client_init_accepts [OF f, of transport_static demo_env 50 demo_raw_client] demo_raw_fresh by auto
  have "tier2_up (demo_kc tier2_cfg) [] (cl1, t1)"
    by (rule raw_client.up_init [OF f demo_raw_fresh(1) _ i]) simp
  then show thesis using i(1) by (rule that [rotated])
qed

lemma demo_network_up: "network_up demo_start = Some True"
  by (simp add: network_up_def demo_start_def wait_loop.simps [of "\<lambda>k. True"])

theorem stale_command_stops_witness:
  "\<exists>cl t rg' cl' t'.
     tier2_run 16 (\<lambda>calls c. 0) (demo_kc tier2_cfg) demo_env (replicate 21 ([Op_Receive [7]], quiet_io)) (demo_rig, cl, t) =
       Some (rg', cl', t') \<and> rg_velocity demo_rig = 1 \<and> f64_eq (rg_velocity rg') 0 \<and> last (rg_motor rg') = Motor_Stop"
proof -
  let ?xs = "replicate 21 ([Op_Receive [7]], quiet_io) :: (byte list client_op list \<times> rig_io) list"
  obtain cl t where u: "tier2_up (demo_kc tier2_cfg) [] (cl, t)" by (rule demo_client_up)
  have n: "rg_last_count demo_rig = cl_cmd_accepted cl" using tier2_up_accepted [OF u] by (simp add: demo_rig_def)
  have sz: "unat (cl_cmd_payload_size cl) = 8"
    using u unfolding raw_client.up_def raw_client.up_static_def by (simp add: RawCodec_command_def)
  have "list_all delivery_round ?xs" by (simp add: delivery_round_def quiet_io_def list_all_length)
  then obtain rg' cl' where r: "tier2_run 16 (\<lambda>calls c. 0) (demo_kc tier2_cfg) demo_env ?xs (demo_rig, cl, t) = Some (rg', cl', t)"
    using tier2_run_up [OF u _ _ n, of ?xs] by fastforce
  have "if unat (rg_cycles demo_rig) + length ?xs \<le> 20 then rg_velocity rg' = rg_velocity demo_rig
    else f64_eq (rg_velocity rg') 0 \<and> last (rg_motor rg') = Motor_Stop"
    by (rule stale_command_stops [OF r _ n]) (auto simp: no_command_def sz demo_rig_def)
  then have "f64_eq (rg_velocity rg') 0 \<and> last (rg_motor rg') = Motor_Stop" by (simp add: demo_rig_def)
  moreover have "rg_velocity demo_rig = 1" by (simp add: demo_rig_def)
  ultimately show ?thesis using r by blast
qed

text \<open>The command is the number 3.\<close>

theorem motor_follows_last_command_witness:
  "\<exists>rg cl1 t1 rg' cl'.
     tier2_start 16 (demo_kc tier2_cfg) demo_env demo_start (replicate 256 0) (demo_raw_client, transport_static) =
       Some (Loop rg, (cl1, t1), True) \<and>
     tier2_run 16 (\<lambda>calls c. 0) (demo_kc tier2_cfg) demo_env
       [([], quiet_io), ([Op_Receive [1], Op_Receive [0, 0, 0, 0, 0, 0, 8, 64]], quiet_io)] (rg, cl1, t1) = Some (rg', cl', t1) \<and>
     rg_velocity rg' = 0x4008000000000000"
proof -
  let ?kc = "demo_kc tier2_cfg" and ?xs = "[([], quiet_io)] :: (byte list client_op list \<times> rig_io) list"
  let ?ops = "[Op_Receive [1], Op_Receive [0, 0, 0, 0, 0, 0, 8, 64]] :: byte list client_op list"
  obtain cl1 t1 where i: "client_init (RawCodec_state 16) (RawCodec_command 8) ?kc demo_env 50 () () (replicate 256 0)
       demo_raw_client transport_static = Some (0, cl1, t1)" by (rule demo_client_up)
  obtain rg where c: "calibrate 16 demo_start (cl_cmd_accepted cl1) = Loop rg"
    by (auto simp: calibrate_def demo_start_def get_encoder_angle_deg_def quiet_io_def)
  have s: "tier2_start 16 ?kc demo_env demo_start (replicate 256 0) (demo_raw_client, transport_static) =
      Some (Loop rg, (cl1, t1), True)"
    using i c by (simp add: tier2_start_def demo_network_up) (simp add: demo_start_def)
  have d: "list_all delivery_round (?xs @ [(?ops, quiet_io)])" by (simp add: delivery_round_def quiet_io_def)
  have a: "[[0, 0, 0, 0, 0, 0, 8, 64]] = accepted (cfg_tier (kc_transport ?kc)) 8 ?ops"
    by (simp add: deliverable_def tier2_cfg_def)
  have reach: "transport_reachable (kc_transport ?kc) (ce_zenoh demo_env) transport_static" by (rule reach_static)
  have "\<exists>rg' cl'. tier2_run 16 (\<lambda>calls c. 0) ?kc demo_env (?xs @ [(?ops, quiet_io)]) (rg, cl1, t1) = Some (rg', cl', t1) \<and>
      rg_velocity rg' = word_of_le (last [[0, 0, 0, 0, 0, 0, 8, 64]]) \<and> rg_cycles rg' = 0"
    by (rule motor_follows_last_command [OF reach demo_raw_fresh(1) _ _ _ _ s d a]) simp_all
  then obtain rg' cl' where r: "tier2_run 16 (\<lambda>calls c. 0) ?kc demo_env (?xs @ [(?ops, quiet_io)]) (rg, cl1, t1) = Some (rg', cl', t1)"
      "rg_velocity rg' = word_of_le [0, 0, 0, 0, 0, 0, 8, 64]" by (metis last.simps)
  have "(word_of_le [0, 0, 0, 0, 0, 0, 8, 64] :: f64) = 0x4008000000000000"
    by (simp add: word_of_le_def)
  with s r show ?thesis unfolding append.simps by metis
qed

theorem waiting_terminates_witness:
  "\<exists>n. wait_loop (\<lambda>k. False) (\<lambda>k. of_nat (200 * k)) (of_nat 0) 1000 0 = Some (False, n) \<and> 200 * n \<le> 1200"
  using waiting_terminates [of "\<lambda>k. 200 * k" 0 1000 "\<lambda>k. False"] by auto

theorem tier1_start_outcomes_witness:
  "tier1_start 16 (demo_kc tier1_cfg) demo_env (demo_start\<lparr> si_encoder_ready := False \<rparr>) (replicate 256 0) (demo_client, transport_static) =
     Some (Exit 0, (demo_client, transport_static), False, None) \<and>
   \<not> (si_stepper_ready (demo_start\<lparr> si_encoder_ready := False \<rparr>) \<and> si_encoder_ready (demo_start\<lparr> si_encoder_ready := False \<rparr>))"
proof -
  have e: "tier1_start 16 (demo_kc tier1_cfg) demo_env (demo_start\<lparr> si_encoder_ready := False \<rparr>) (replicate 256 0)
      (demo_client, transport_static) = Some (Exit 0, (demo_client, transport_static), False, None)"
    by (simp add: tier1_start_def demo_start_def)
  from tier1_start_outcomes [OF e] e show ?thesis by simp
qed

end
