(* ===== verification/Client_Rounds.thy ===== *)
theory Client_Rounds
  imports Pendulum_Props
begin

text \<open>
  Applications that poll the client: in each round the network delivers some payloads, then the application reads
  the command buffer and writes a state. The lemmas hold for any two codecs; the interpretations of
  \<open>client_codecs\<close> give them for the joint state client and for the raw client.
\<close>

section \<open>Deliveries\<close>

definition deliveries :: "'sv client_op list \<Rightarrow> bool" where
  "deliveries ops \<longleftrightarrow> list_all (\<lambda>op. case op of Op_Receive bs \<Rightarrow> True | _ \<Rightarrow> False) ops"

lemma deliveries_ops: "deliveries ops \<Longrightarrow> written ops = [] \<and> Op_Publish \<notin> set ops"
proof (induction ops)
  case (Cons x ops)
  then show ?case by (cases x) (auto simp: deliveries_def)
qed simp

lemma latest_length: "length (latest n (accepted tr n ops)) = n"
  using accepted_length [OF last_in_set, of tr n ops] by (auto simp: latest_def)

text \<open>What the command buffer holds in each round, after the payloads \<open>bss\<close>.\<close>

fun heard_bytes :: "tier \<Rightarrow> nat \<Rightarrow> byte list list \<Rightarrow> ('sv client_op list \<times> 'io) list \<Rightarrow> byte list list" where
  "heard_bytes tr n bss [] = []"
| "heard_bytes tr n bss ((ops, io) # rest) =
     latest n (bss @ accepted tr n ops) # heard_bytes tr n (bss @ accepted tr n ops) rest"

lemma length_heard_bytes [simp]: "length (heard_bytes tr n bss xs) = length xs"
  by (induction tr n bss xs rule: heard_bytes.induct) simp_all

section \<open>Publications\<close>

text \<open>The rounds below have the deliveries only. The control thread also publishes between two cycles; the application does
  not notice: without the publications a run ends with the same application and client.\<close>

definition quiet :: "'sv client_op list \<Rightarrow> 'sv client_op list" where
  "quiet = filter (\<lambda>op. case op of Op_Publish \<Rightarrow> False | _ \<Rightarrow> True)"

lemma perform_publish_quiet:
  assumes "perform SC kc env Op_Publish (cl, t) = Some (cl', t')"
  shows "cl' = cl \<and> tr_subs t' = tr_subs t"
  using assms by (auto simp: zenoh_publish_state_def bind_eq_Some_conv dest: publish_subs split: if_splits)

lemma client_receive_subs: "tr_subs t = tr_subs u \<Longrightarrow> client_receive kc bs cl t = client_receive kc bs cl u"
  by (cases "cl_sub cl") (simp_all add: client_receive_def)

lemma perform_all_quiet:
  "perform_all SC kc env ops (cl, t) = Some (cl', t') \<Longrightarrow> tr_subs t = tr_subs u \<Longrightarrow>
   perform_all SC kc env (quiet ops) (cl, u) = Some (cl', u) \<and> tr_subs t' = tr_subs u"
proof (induction ops arbitrary: cl t)
  case (Cons x ops)
  obtain cl1 t1 where p: "perform SC kc env x (cl, t) = Some (cl1, t1)" "perform_all SC kc env ops (cl1, t1) = Some (cl', t')"
    using Cons.prems(1) by (auto simp: bind_eq_Some_conv)
  show ?case
  proof (cases x)
    case Op_Publish
    then show ?thesis using Cons.IH [OF p(2)] perform_publish_quiet [of SC kc env cl t cl1 t1] p(1) Cons.prems(2) by (simp add: quiet_def)
  next
    case (Op_Write v)
    then show ?thesis using Cons.IH [OF p(2)] p(1) Cons.prems(2) by (auto simp: quiet_def bind_eq_Some_conv)
  next
    case (Op_Receive bs)
    then show ?thesis using Cons.IH [OF p(2)] p(1) Cons.prems(2) client_receive_subs [OF Cons.prems(2), of kc bs cl]
      by (auto simp: quiet_def bind_eq_Some_conv)
  qed
qed (simp add: quiet_def)

lemma run_rounds_quiet:
  "run_rounds SC kc env cycle xs (app, cl, t) = Some (app', cl', t') \<Longrightarrow> tr_subs t = tr_subs u \<Longrightarrow>
   run_rounds SC kc env cycle (map (\<lambda>(ops, io). (quiet ops, io)) xs) (app, cl, u) = Some (app', cl', u)"
proof (induction xs arbitrary: app cl t)
  case (Cons x xs)
  obtain ops io where x: "x = (ops, io)" by fastforce
  obtain cl1 t1 app2 cl2 where p: "perform_all SC kc env ops (cl, t) = Some (cl1, t1)" "cycle io (app, cl1) = Some (app2, cl2)"
      "run_rounds SC kc env cycle xs (app2, cl2, t1) = Some (app', cl', t')"
    using Cons.prems(1) by (auto simp: x bind_eq_Some_conv)
  note q = perform_all_quiet [OF p(1) Cons.prems(2)]
  show ?case using Cons.IH [OF p(3) conjunct2 [OF q]] q p(2) by (simp add: x)
qed simp

section \<open>Rounds\<close>

context client_codecs
begin

abbreviation cmd_size :: "'cp \<Rightarrow> nat" where "cmd_size cp \<equiv> unat (cc_payload_size CC (cctx cp))"

lemma up_deliver:
  assumes u: "up kc sp cp ops0 (cl, t)" and d: "deliveries ops"
  shows "\<exists>cl1. perform_all SC kc env ops (cl, t) = Some (cl1, t) \<and> up kc sp cp (ops0 @ ops) (cl1, t)"
proof -
  note o = deliveries_ops [OF d]
  obtain cl1 where p: "perform_all SC kc env ops (cl, t) = Some (cl1, t)"
    using perform_all_defined [OF u, of ops env] o by auto
  then show ?thesis using up_perform_all [OF u _ p] o by simp
qed

lemma up_write:
  assumes u: "up kc sp cp ops (cl, t)" and v: "complete sp v"
  shows "\<exists>cl'. write_state SC v cl = Some cl' \<and> up kc sp cp (ops @ [Op_Write v]) (cl', t)"
proof -
  obtain cl' where w: "write_state SC v cl = Some cl'"
    using perform_defined [OF u, of "Op_Write v"] v by (auto simp: bind_eq_Some_conv)
  then show ?thesis using up_perform [OF u, of "Op_Write v"] v by auto
qed

text \<open>The application computes \<open>step io c app\<close> from the command bytes \<open>c\<close> and writes the state \<open>out\<close> of it.\<close>

lemma up_run_rounds:
  assumes "up kc sp cp ops0 (cl, t)" and "list_all (\<lambda>x. deliveries (fst x)) xs"
    and cycle: "\<And>io app cl ops. good app \<Longrightarrow> up kc sp cp ops (cl, t) \<Longrightarrow>
      \<exists>cl' app'. app' = step io (latest (cmd_size cp) (accepted (cfg_tier (kc_transport kc)) (cmd_size cp) ops)) app \<and>
        cycle io (app, cl) = Some (app', cl') \<and> good app' \<and> up kc sp cp (ops @ [Op_Write (out app')]) (cl', t)"
    and "good app"
  shows "\<exists>cl' ops' app'. run_rounds SC kc env cycle xs (app, cl, t) = Some (app', cl', t) \<and>
    app' = fold (\<lambda>(c, io). step io c)
      (zip (heard_bytes (cfg_tier (kc_transport kc)) (cmd_size cp) (accepted (cfg_tier (kc_transport kc)) (cmd_size cp) ops0) xs)
        (map snd xs)) app \<and>
    good app' \<and> up kc sp cp ops' (cl', t) \<and> (xs \<noteq> [] \<longrightarrow> written ops' \<noteq> [] \<and> last (written ops') = out app')"
  using assms(1,2,4)
proof (induction xs arbitrary: app cl ops0)
  case Nil
  then show ?case by auto
next
  case (Cons x xs)
  let ?acc = "accepted (cfg_tier (kc_transport kc)) (cmd_size cp)"
  obtain ops io where x: "x = (ops, io)" by fastforce
  obtain cl1 where p: "perform_all SC kc env ops (cl, t) = Some (cl1, t)" "up kc sp cp (ops0 @ ops) (cl1, t)"
    using up_deliver [OF Cons.prems(1), of ops env] Cons.prems(2) x by auto
  obtain cl2 app2 where c: "cycle io (app, cl1) = Some (app2, cl2)" "good app2"
      "app2 = step io (latest (cmd_size cp) (?acc (ops0 @ ops))) app"
      "up kc sp cp ((ops0 @ ops) @ [Op_Write (out app2)]) (cl2, t)"
    using cycle [OF Cons.prems(3) p(2)] by blast
  have d: "list_all (\<lambda>x. deliveries (fst x)) xs" using Cons.prems(2) by simp
  show ?case
  proof (cases "xs = []")
    case True
    then show ?thesis using p(1) c by (auto simp: x)
  next
    case False
    then show ?thesis using Cons.IH [OF c(4) d c(2)] p(1) c(1,3) by (simp add: x)
  qed
qed

end

end
