(* ===== verification/Control_Thread.thy ===== *)
theory Control_Thread
  imports Client_Rounds
begin

text \<open>
  The control thread of the client (\<open>control_thread_fn\<close> in \<open>zenbedded_rcl/src/zenbedded_client.cpp\<close>): its loop, the
  order in which it publishes what the application writes, its pace, and how it is stopped. What other threads do
  comes between two cycles; what they do to a buffer during a read is the subject of \<open>Double_Buffer\<close>.
\<close>

section \<open>The loop\<close>

text \<open>Of one turn of the loop: the operations of other threads before it, whether \<open>stop_thread\<close> has cleared the flag by
  then, and the uptime after the publication and after the sleep.\<close>

record 'sv thread_turn =
  tt_before :: "'sv client_op list"
  tt_stop :: bool
  tt_published :: u32
  tt_woke :: u32

text \<open>The result has the times slept. The list ends when the thread is still running, or with its return.\<close>

fun control_thread_loop ::
    "('sc, 'sp, 'sv) state_codec_ops \<Rightarrow> client_config \<Rightarrow> client_env \<Rightarrow> u32 \<Rightarrow> 'sv thread_turn list
       \<Rightarrow> u32 \<times> ('sc, 'cc) client \<times> ctransport \<Rightarrow> (u32 list \<times> ('sc, 'cc) client \<times> ctransport) option" where
  "control_thread_loop SC kc env period [] (prev_time, cl, t) = Some ([], cl, t)"
| "control_thread_loop SC kc env period (c # cs) (prev_time, cl, t) =
     do { (cl, t) \<leftarrow> perform_all SC kc env (tt_before c) (cl, t);
          let cl = (if tt_stop c then cl\<lparr> cl_running := False \<rparr> else cl);
          if \<not> cl_running cl then Some ([], cl\<lparr> cl_running := False \<rparr>, t)
          else do {
            (ret, t) \<leftarrow> zenoh_publish_state kc env cl t;
            let s = sleep_ms period prev_time (tt_published c);
            (ss, cl, t) \<leftarrow> control_thread_loop SC kc env period cs (tt_woke c, cl, t);
            Some (s # ss, cl, t) } }"

definition control_thread_fn ::
    "('sc, 'sp, 'sv) state_codec_ops \<Rightarrow> client_config \<Rightarrow> client_env \<Rightarrow> u32 \<Rightarrow> 'sv thread_turn list
       \<Rightarrow> ('sc, 'cc) client \<times> ctransport \<Rightarrow> (u32 list \<times> ('sc, 'cc) client \<times> ctransport) option" where
  "control_thread_fn SC kc env now turns s =
     do { period \<leftarrow> period_ms (cl_control_freq (fst s)); control_thread_loop SC kc env period turns (now, s) }"

section \<open>The flag\<close>

lemma perform_running:
  assumes "perform SC kc env x (cl, t) = Some (cl', t')"
  shows "cl_running cl' = cl_running cl \<and> cl_control_freq cl' = cl_control_freq cl \<and> cl_pub cl' = cl_pub cl"
proof (cases x)
  case (Op_Receive bs)
  then have "client_receive kc bs cl t = Some cl'" using assms by (auto simp: bind_eq_Some_conv)
  from client_receive_cases [OF this] show ?thesis
    by (auto simp: on_transport_cmd_cb_def bind_eq_Some_conv split: if_splits)
qed (use assms in \<open>auto simp: write_state_def Let_def bind_eq_Some_conv split: if_splits\<close>)

lemma perform_all_running:
  "perform_all SC kc env xs (cl, t) = Some (cl', t') \<Longrightarrow>
   cl_running cl' = cl_running cl \<and> cl_control_freq cl' = cl_control_freq cl \<and> cl_pub cl' = cl_pub cl"
proof (induction xs arbitrary: cl t)
  case (Cons x xs)
  then show ?case using perform_running [of SC kc env x cl t] by (fastforce simp: bind_eq_Some_conv)
qed simp

lemma init_base_running:
  assumes "init_base kc env f n m cl t = Some (0, cl', t')" and "\<not> cl_initialized cl"
  shows "cl_running cl' \<and> cl_control_freq cl' = f \<and> f \<noteq> 0"
  using assms
  by (auto simp: init_base_def start_thread_def bind_eq_Some_conv Let_def EIO_def ENOMEM_def ENODEV_def EINVAL_def
      split: if_splits prod.splits)

section \<open>What is published\<close>

lemma put_sequence_stamped [simp]:
  "put_sequence (Z_Publisher_Put i p (Some (attachment_bytes a)), ok) = Some (p, sequence_number a)"
  by simp

definition numbered :: "ctransport \<Rightarrow> ('sc, 'cc) client \<Rightarrow> nat \<Rightarrow> bool" where
  "numbered t cl n \<longleftrightarrow> (\<exists>i. cl_pub cl = Some i \<and> i < length (tr_pubs t) \<and> pub_in_use (tr_pubs t ! i) \<and>
     sequence_number (pub_attachment (tr_pubs t ! i)) = of_nat n)"

text \<open>That the next \<open>m\<close> publications can be stamped: only Tier 1 does that, with the time and a number.\<close>

definition stamps_fit :: "client_config \<Rightarrow> client_env \<Rightarrow> nat \<Rightarrow> bool" where
  "stamps_fit kc env m \<longleftrightarrow> (cfg_tier (kc_transport kc) = Tier1 \<longrightarrow> clock_ok (ce_zenoh env) \<and> m < 2 ^ 63)"

text \<open>A turn before which other threads write and receive but do not publish themselves, and do not stop the thread.\<close>

definition turn_ok :: "('sv \<Rightarrow> bool) \<Rightarrow> 'sv thread_turn \<Rightarrow> bool" where
  "turn_ok valid c \<longleftrightarrow> \<not> tt_stop c \<and> (\<forall>v \<in> set (written (tt_before c)). valid v) \<and> Op_Publish \<notin> set (tt_before c)"

text \<open>The values written until turn \<open>k\<close> publishes, counted from 0.\<close>

definition written_until :: "'sv thread_turn list \<Rightarrow> nat \<Rightarrow> 'sv list" where
  "written_until turns k = concat (map (\<lambda>c. written (tt_before c)) (take (Suc k) turns))"

lemma written_until_simps [simp]:
  "written_until (c # cs) 0 = written (tt_before c)"
  "written_until (c # cs) (Suc k) = written (tt_before c) @ written_until cs k"
  by (simp_all add: written_until_def)

text \<open>What turn \<open>k\<close> adds to the log: one put, with the answer of zenoh to it at that time.\<close>

definition turn_puts :: "client_env \<Rightarrow> nat \<Rightarrow> byte list \<Rightarrow> zlog \<Rightarrow> zcall \<times> bool \<Rightarrow> bool" where
  "turn_puts env i payload log x \<longleftrightarrow>
     (\<exists>a. x = (Z_Publisher_Put i payload a, z_ok (ce_zenoh env) log (Z_Publisher_Put i payload a)))"

lemma publish_puts:
  assumes i: "i < length (tr_pubs t)" "pub_in_use (tr_pubs t ! i)"
    and s: "cfg_tier cfg = Tier1 \<longrightarrow> sequence_number (pub_attachment (tr_pubs t ! i)) = of_nat n \<and> n + 1 < 2 ^ 63 \<and> clock_ok (ce_zenoh env)"
  shows "\<exists>r u x. zenbedded_transport_publish cfg (ce_zenoh env) (Some i) p t = Some (r, u) \<and>
    i < length (tr_pubs u) \<and> pub_in_use (tr_pubs u ! i) \<and> tr_log u = tr_log t @ [x] \<and> turn_puts env i p (tr_log t) x \<and>
    (cfg_tier cfg = Tier1 \<longrightarrow> sequence_number (pub_attachment (tr_pubs u ! i)) = of_nat (Suc n) \<and>
       put_sequence x = Some (p, of_nat (Suc n)))"
proof (cases "cfg_tier cfg")
  case Tier1
  from publish_stamped [OF Tier1 i, of n "ce_zenoh env" p] s Tier1 show ?thesis
    by (auto simp: turn_puts_def)
next
  case Tier2
  then show ?thesis using i by (auto simp: zenbedded_transport_publish_def zcall_def turn_puts_def)
qed

context client_codecs
begin

lemma publish_active:
  assumes u: "up kc sp cp ops (cl, t)"
  obtains payload where "zenoh_publish_state kc env cl t =
      zenbedded_transport_publish (kc_transport kc) (ce_zenoh env) (cl_pub cl) payload t"
    "written ops \<noteq> [] \<longrightarrow> payload = enc sp (last (written ops))"
proof -
  let ?p = "take (unat (sc_payload_size SC (sctx sp))) (active_slot (cl_state_buffer cl))"
  have b: "db_wf (kc_max_state kc) (cl_state_buffer cl)" and n: "unat (sc_payload_size SC (sctx sp)) \<le> kc_max_state kc"
    and c: "cl_initialized cl" "cl_state_payload_size cl = sc_payload_size SC (sctx sp)"
    using u st.size_fits by (auto simp: up_def up_static_def state_ok_def)
  have l: "length ?p = unat (sc_payload_size SC (sctx sp))" using db_wf_active [OF b] n by simp
  have "zenoh_publish_state kc env cl t = zenbedded_transport_publish (kc_transport kc) (ce_zenoh env) (cl_pub cl) ?p t"
    using c n l by (simp add: zenoh_publish_state_def read_until_consistent_ok [OF b n] mem_simps)
  moreover have "written ops \<noteq> [] \<longrightarrow> ?p = enc sp (last (written ops))" using u by (simp add: up_def state_ok_def)
  ultimately show thesis by (rule that)
qed

text \<open>One publication of a running client, in Tier 1 numbered \<open>Suc n\<close>.\<close>

lemma up_publish_puts:
  assumes u: "up kc sp cp ops (cl, t)" and i: "cl_pub cl = Some i"
    and s: "stamps_fit kc env (n + 1)" "cfg_tier (kc_transport kc) = Tier1 \<longrightarrow> numbered t cl n"
  shows "\<exists>r t' x payload. zenoh_publish_state kc env cl t = Some (r, t') \<and> up kc sp cp (ops @ [Op_Publish]) (cl, t') \<and>
    tr_log t' = tr_log t @ [x] \<and> turn_puts env i payload (tr_log t) x \<and>
    (written ops \<noteq> [] \<longrightarrow> payload = enc sp (last (written ops))) \<and>
    (cfg_tier (kc_transport kc) = Tier1 \<longrightarrow> numbered t' cl (Suc n) \<and> put_sequence x = Some (payload, of_nat (Suc n)))"
proof -
  have u2: "i < length (tr_pubs t)" "pub_in_use (tr_pubs t ! i)" using u i by (auto simp: up_def up_static_def used_pubs_iff)
  obtain payload where p: "zenoh_publish_state kc env cl t =
      zenbedded_transport_publish (kc_transport kc) (ce_zenoh env) (Some i) payload t"
      "written ops \<noteq> [] \<longrightarrow> payload = enc sp (last (written ops))"
    using publish_active [OF u, of env] i by auto
  have "cfg_tier (kc_transport kc) = Tier1 \<longrightarrow>
      sequence_number (pub_attachment (tr_pubs t ! i)) = of_nat n \<and> n + 1 < 2 ^ 63 \<and> clock_ok (ce_zenoh env)"
    using s i by (simp add: numbered_def stamps_fit_def)
  from publish_puts [OF u2 this, of payload]
  obtain r t' x where q: "zenbedded_transport_publish (kc_transport kc) (ce_zenoh env) (Some i) payload t = Some (r, t')"
      "i < length (tr_pubs t')" "pub_in_use (tr_pubs t' ! i)" "tr_log t' = tr_log t @ [x]" "turn_puts env i payload (tr_log t) x"
      "cfg_tier (kc_transport kc) = Tier1 \<longrightarrow> sequence_number (pub_attachment (tr_pubs t' ! i)) = of_nat (Suc n) \<and>
        put_sequence x = Some (payload, of_nat (Suc n))"
    by blast
  have z: "zenoh_publish_state kc env cl t = Some (r, t')" using p(1) q(1) by simp
  then have "up kc sp cp (ops @ [Op_Publish]) (cl, t')" using up_perform [OF u, of Op_Publish env "(cl, t')"] by simp
  then show ?thesis using z q p(2) i
    by (intro exI [of _ r] exI [of _ t'] exI [of _ x] exI [of _ payload]) (auto simp: numbered_def)
qed

text \<open>The loop as long as it runs: one put per turn.\<close>

lemma loop_puts:
  assumes "up kc sp cp ops (cl, t)" and "cl_running cl" and "cl_pub cl = Some i"
    and "stamps_fit kc env (n + length turns)" and "cfg_tier (kc_transport kc) = Tier1 \<longrightarrow> numbered t cl n"
    and "list_all (turn_ok (complete sp)) turns"
  shows "\<exists>ss cl' t' xs ops'. control_thread_loop SC kc env period turns (prev, cl, t) = Some (ss, cl', t') \<and> cl_running cl' \<and>
    length ss = length turns \<and> up kc sp cp ops' (cl', t') \<and> tr_log t' = tr_log t @ xs \<and> length xs = length turns \<and>
    (\<forall>k < length turns. \<exists>payload. turn_puts env i payload (tr_log t @ take k xs) (xs ! k) \<and>
       (written ops @ written_until turns k \<noteq> [] \<longrightarrow> payload = enc sp (last (written ops @ written_until turns k))) \<and>
       (cfg_tier (kc_transport kc) = Tier1 \<longrightarrow> put_sequence (xs ! k) = Some (payload, of_nat (Suc (n + k)))))"
  using assms
proof (induction turns arbitrary: ops cl t n prev)
  case (Cons c cs)
  let ?ops = "ops @ tt_before c"
  have ok: "turn_ok (complete sp) c" and cs: "list_all (turn_ok (complete sp)) cs" using Cons.prems(6) by simp_all
  from ok have c: "\<not> tt_stop c" "\<forall>v \<in> set (written (tt_before c)). complete sp v" "Op_Publish \<notin> set (tt_before c)"
    by (simp_all add: turn_ok_def)
  obtain cl1 where p: "perform_all SC kc env (tt_before c) (cl, t) = Some (cl1, t)"
    using perform_all_defined [OF Cons.prems(1) c(2,3)] by blast
  have u: "up kc sp cp ?ops (cl1, t)" by (rule up_perform_all [OF Cons.prems(1) c(2) p])
  have r: "cl_running cl1" "cl_pub cl1 = Some i" "cfg_tier (kc_transport kc) = Tier1 \<longrightarrow> numbered t cl1 n"
    using perform_all_running [OF p] Cons.prems(2,3,5) by (simp_all add: numbered_def)
  have s: "stamps_fit kc env (n + 1)" "stamps_fit kc env (Suc n + length cs)" using Cons.prems(4) by (auto simp: stamps_fit_def)
  obtain rr t1 x payload where q: "zenoh_publish_state kc env cl1 t = Some (rr, t1)" "up kc sp cp (?ops @ [Op_Publish]) (cl1, t1)"
      "tr_log t1 = tr_log t @ [x]" "turn_puts env i payload (tr_log t) x"
      "written ?ops \<noteq> [] \<longrightarrow> payload = enc sp (last (written ?ops))"
      "cfg_tier (kc_transport kc) = Tier1 \<longrightarrow> numbered t1 cl1 (Suc n) \<and> put_sequence x = Some (payload, of_nat (Suc n))"
    using up_publish_puts [OF u r(2) s(1) r(3)] by blast
  have num: "cfg_tier (kc_transport kc) = Tier1 \<longrightarrow> numbered t1 cl1 (Suc n)" using q(6) by blast
  from Cons.IH [OF q(2) r(1,2) s(2) num cs, of "tt_woke c"]
  obtain ss cl' t' xs ops1 where l: "control_thread_loop SC kc env period cs (tt_woke c, cl1, t1) = Some (ss, cl', t')" "cl_running cl'"
      "length ss = length cs" "up kc sp cp ops1 (cl', t')" "tr_log t' = tr_log t1 @ xs" "length xs = length cs"
      "\<forall>k < length cs. \<exists>payload. turn_puts env i payload (tr_log t1 @ take k xs) (xs ! k) \<and>
       (written (?ops @ [Op_Publish]) @ written_until cs k \<noteq> [] \<longrightarrow>
          payload = enc sp (last (written (?ops @ [Op_Publish]) @ written_until cs k))) \<and>
       (cfg_tier (kc_transport kc) = Tier1 \<longrightarrow> put_sequence (xs ! k) = Some (payload, of_nat (Suc (Suc n + k))))"
    by blast
  have "control_thread_loop SC kc env period (c # cs) (prev, cl, t) = Some (sleep_ms period prev (tt_published c) # ss, cl', t')"
    using p r(1) q(1) l(1) c(1) by simp
  moreover have "\<forall>k < length (c # cs). \<exists>payload. turn_puts env i payload (tr_log t @ take k (x # xs)) ((x # xs) ! k) \<and>
       (written ops @ written_until (c # cs) k \<noteq> [] \<longrightarrow> payload = enc sp (last (written ops @ written_until (c # cs) k))) \<and>
       (cfg_tier (kc_transport kc) = Tier1 \<longrightarrow> put_sequence ((x # xs) ! k) = Some (payload, of_nat (Suc (n + k))))"
    using q(3-6) l(7) by (auto simp: All_less_Suc2)
  ultimately show ?case using l(2-6) q(3) by (intro exI [of _ "x # xs"] exI conjI) auto
qed auto

text \<open>From the initialisation on.\<close>

lemma fn_puts:
  assumes fits: "sfits sp (kc_max_state kc)" "cfits cp (kc_max_cmd kc)" "length scratch = kc_max_cmd kc"
    and t: "transport_inv (kc_transport kc) t" and n: "\<not> cl_initialized cl"
    and init: "client_init SC CC kc env f sp cp scratch cl t = Some (0, cl1, t1)"
    and up: "cl_initialized cl1" and run: "cl_running cl1" "cl_control_freq cl1 \<noteq> 0"
    and turns: "stamps_fit kc env (length turns)" "list_all (turn_ok (complete sp)) turns"
  shows "\<exists>period i ss cl' t' xs ops. period_ms (cl_control_freq cl1) = Some period \<and> cl_pub cl1 = Some i \<and>
    control_thread_loop SC kc env period turns (now, cl1, t1) = Some (ss, cl', t') \<and> length ss = length turns \<and>
    up kc sp cp ops (cl', t') \<and> tr_log t' = tr_log t1 @ xs \<and> length xs = length turns \<and>
    (\<forall>k < length turns. \<exists>payload. turn_puts env i payload (tr_log t1 @ take k xs) (xs ! k) \<and>
       (written_until turns k \<noteq> [] \<longrightarrow> payload = enc sp (last (written_until turns k))) \<and>
       (cfg_tier (kc_transport kc) = Tier1 \<longrightarrow> put_sequence (xs ! k) = Some (payload, of_nat (Suc k))))"
proof -
  have u: "up kc sp cp [] (cl1, t1)" by (rule up_init [OF fits n t init up])
  then obtain i where i: "cl_pub cl1 = Some i" by (auto simp: up_def up_static_def)
  have num: "cfg_tier (kc_transport kc) = Tier1 \<longrightarrow> numbered t1 cl1 0"
    using client_init_numbered [OF fits n init up] by (simp add: numbered_def)
  have s: "stamps_fit kc env (0 + length turns)" using turns(1) by simp
  obtain period where "period_ms (cl_control_freq cl1) = Some period" using run(2) by (simp add: period_ms_def)
  with i show ?thesis using loop_puts [OF u run(1) i s num turns(2), of period now] by fastforce
qed

end

section \<open>Stopping\<close>

text \<open>Once the flag is cleared the thread returns at its next check: it publishes nothing more.\<close>

lemma loop_stops:
  assumes "tt_stop c"
  shows "control_thread_loop SC kc env period (turns @ c # rest) s = control_thread_loop SC kc env period (turns @ [c]) s"
proof (induction turns arbitrary: s)
  case Nil
  then show ?case using assms by (cases s) (simp add: Let_def)
next
  case (Cons d ds)
  then show ?case by (cases s) (simp add: Let_def Cons.IH cong: if_cong)
qed

lemma loop_stop_last:
  assumes "control_thread_loop SC kc env period turns (prev, cl, t) = Some (ss, cl', t')" and "length ss = length turns"
    and "tt_stop c"
  shows "control_thread_loop SC kc env period (turns @ [c]) (prev, cl, t) =
    do { (cl, t) \<leftarrow> perform_all SC kc env (tt_before c) (cl', t'); Some (ss, cl\<lparr> cl_running := False \<rparr>, t) }"
  using assms(1,2)
proof (induction turns arbitrary: prev cl t ss)
  case Nil
  then show ?case using assms(3) by (simp add: Let_def)
next
  case (Cons d ds)
  obtain cl1 t1 where p: "perform_all SC kc env (tt_before d) (cl, t) = Some (cl1, t1)"
    using Cons.prems(1) by (auto simp: bind_eq_Some_conv)
  let ?cl = "if tt_stop d then cl1\<lparr> cl_running := False \<rparr> else cl1"
  have r: "cl_running ?cl" using Cons.prems p by (auto simp: Let_def split: if_splits)
  then obtain ret t2 ss' where q: "zenoh_publish_state kc env ?cl t1 = Some (ret, t2)"
      "control_thread_loop SC kc env period ds (tt_woke d, ?cl, t2) = Some (ss', cl', t')"
      "ss = sleep_ms period prev (tt_published d) # ss'"
    using Cons.prems(1) p by (auto simp: Let_def bind_eq_Some_conv)
  show ?case
    using p r q Cons.IH [OF q(2)] Cons.prems(2)
    by (cases "perform_all SC kc env (tt_before c) (cl', t')") (auto simp: Let_def)
qed

end
