(* ===== verification/Thread_Life.thy ===== *)
theory Thread_Life
  imports Control_Thread
begin

text \<open>
  The client and its control thread as two threads of the kernel
  (\<open>start_thread\<close>, \<open>stop_thread\<close>, \<open>destroy\<close> and \<open>control_thread_fn\<close> in \<open>zenbedded_rcl/src/zenbedded_client.cpp\<close>). In
  \<open>Zenbedded_Client\<close> a call is one step and the control thread either exists or not. Here the application's calls stop where
  they wait for the kernel, the control thread moves between them from one access of the shared flag to the next, zenoh
  delivers at any time, and a clock counts milliseconds. A publication whose effect is undefined has no step here; that
  it is defined is shown in \<open>Control_Thread_Props\<close>.
\<close>

section \<open>The two threads\<close>

text \<open>Where the control thread is. \<open>T_Publish\<close> and \<open>T_Put\<close> are inside of \<open>zenoh_publish_state\<close>, before and after the
  payload went to zenoh; the numbers are \<open>period_ms\<close>, and \<open>prev_time\<close> or the time of the wake-up.\<close>

datatype thread_pc =
    T_Entry | T_Check u32 u32 | T_Publish u32 u32 | T_Put u32 u32 | T_Sleep u32 nat | T_Leave | T_Ended
  | T_Division_By_Zero

text \<open>Where the application is: between two calls, in the \<open>k_thread_join\<close> of \<open>stop_thread\<close> with a deadline, or in the
  \<open>k_sleep\<close> of \<open>start_thread\<close>; and what follows when \<open>stop_thread\<close> returns.\<close>

datatype continuation = Then_Return | Then_Start u32 | Then_Destroy

datatype app_pc = A_Idle | A_Join continuation nat | A_Pause u32 nat | A_Created_Twice

record ('sc, 'cc) system =
  sy_client :: "('sc, 'cc) client"
  sy_transport :: ctransport
  sy_thread :: thread_pc
  sy_app :: app_pc
  sy_now :: nat
  sy_due :: nat  \<comment> \<open>when the control thread has finished its turn at the latest\<close>

definition uptime :: "('sc, 'cc) system \<Rightarrow> u32" where
  "uptime s = of_nat (sy_now s)"

text \<open>How long a turn of the control thread may take, from when it should have woken up; \<open>None\<close> is without a bound.\<close>

type_synonym lag = "nat option"

definition due_after :: "lag \<Rightarrow> nat \<Rightarrow> nat" where
  "due_after lag t = (case lag of None \<Rightarrow> t | Some l \<Rightarrow> t + l)"

section \<open>The calls of the application\<close>

text \<open>The end of \<open>start_thread\<close>; creating a thread in the object of one that has not ended is undefined.\<close>

definition create_thread :: "lag \<Rightarrow> u32 \<Rightarrow> ('sc, 'cc) system \<Rightarrow> ('sc, 'cc) system" where
  "create_thread lag control_freq s =
     (if sy_thread s \<noteq> T_Ended then s\<lparr> sy_app := A_Created_Twice \<rparr>
      else s\<lparr> sy_client := (sy_client s)\<lparr> cl_control_freq := control_freq, cl_running := True, cl_thread_alive := True, cl_started := True \<rparr>,
              sy_thread := T_Entry, sy_app := A_Idle, sy_due := due_after lag (sy_now s) \<rparr>)"

text \<open>What the callers of \<open>stop_thread\<close> do next.\<close>

definition after_stop :: "client_config \<Rightarrow> client_env \<Rightarrow> continuation \<Rightarrow> ('sc, 'cc) system \<Rightarrow> ('sc, 'cc) system" where
  "after_stop kc env a s =
     (case a of
        Then_Return \<Rightarrow> s\<lparr> sy_app := A_Idle \<rparr>
      | Then_Start f \<Rightarrow> s\<lparr> sy_app := A_Pause f (sy_now s + 10) \<rparr>
      | Then_Destroy \<Rightarrow>
          s\<lparr> sy_client := (sy_client s)\<lparr> cl_pub := None, cl_sub := None, cl_initialized := False \<rparr>,
             sy_transport := zenbedded_transport_destroy (kc_transport kc) (ce_zenoh env) (sy_transport s), sy_app := A_Idle \<rparr>)"

text \<open>\<open>stop_thread\<close> up to the wait, and from its end.\<close>

definition stop_begin :: "client_config \<Rightarrow> client_env \<Rightarrow> continuation \<Rightarrow> ('sc, 'cc) system \<Rightarrow> ('sc, 'cc) system" where
  "stop_begin kc env a s =
     (if \<not> cl_started (sy_client s) then after_stop kc env a s
      else s\<lparr> sy_client := (sy_client s)\<lparr> cl_running := False \<rparr>, sy_app := A_Join a (sy_now s + 200) \<rparr>)"

definition stop_end :: "client_config \<Rightarrow> client_env \<Rightarrow> continuation \<Rightarrow> ('sc, 'cc) system \<Rightarrow> ('sc, 'cc) system" where
  "stop_end kc env a s = after_stop kc env a
     (s\<lparr> sy_client := (sy_client s)\<lparr> cl_thread_alive := False, cl_started := False, cl_control_freq := 0 \<rparr>, sy_thread := T_Ended \<rparr>)"

definition call_start :: "client_config \<Rightarrow> client_env \<Rightarrow> lag \<Rightarrow> u32 \<Rightarrow> ('sc, 'cc) system \<Rightarrow> ('sc, 'cc) system" where
  "call_start kc env lag control_freq s =
     (if \<not> cl_initialized (sy_client s) \<or> control_freq = 0 then s
      else if cl_started (sy_client s) then stop_begin kc env (Then_Start control_freq) s
      else create_thread lag control_freq s)"

definition call_destroy :: "client_config \<Rightarrow> client_env \<Rightarrow> ('sc, 'cc) system \<Rightarrow> ('sc, 'cc) system" where
  "call_destroy kc env s = (if \<not> cl_initialized (sy_client s) then s else stop_begin kc env Then_Destroy s)"

section \<open>The control thread\<close>

definition thread_run :: "client_config \<Rightarrow> client_env \<Rightarrow> lag \<Rightarrow> ('sc, 'cc) system \<Rightarrow> ('sc, 'cc) system option" where
  "thread_run kc env lag s =
     (case sy_thread s of
        T_Entry \<Rightarrow>
          Some (s\<lparr> sy_thread := (case period_ms (cl_control_freq (sy_client s)) of
                                  None \<Rightarrow> T_Division_By_Zero | Some period \<Rightarrow> T_Check period (uptime s)) \<rparr>)
      | T_Check period prev_time \<Rightarrow>
          Some (s\<lparr> sy_thread := (if cl_running (sy_client s) then T_Publish period prev_time else T_Leave) \<rparr>)
      | T_Publish period prev_time \<Rightarrow>
          do { (ret, t) \<leftarrow> zenoh_publish_state kc env (sy_client s) (sy_transport s);
               Some (s\<lparr> sy_transport := t, sy_thread := T_Put period prev_time \<rparr>) }
      | T_Put period prev_time \<Rightarrow>
          let wake = sy_now s + unat (sleep_ms period prev_time (uptime s))
          in Some (s\<lparr> sy_thread := T_Sleep period wake, sy_due := due_after lag wake \<rparr>)
      | T_Sleep period wake \<Rightarrow>
          if wake \<le> sy_now s then Some (s\<lparr> sy_thread := T_Check period (uptime s) \<rparr>) else None
      | T_Leave \<Rightarrow> Some (s\<lparr> sy_client := (sy_client s)\<lparr> cl_running := False \<rparr>, sy_thread := T_Ended \<rparr>)
      | T_Ended \<Rightarrow> None
      | T_Division_By_Zero \<Rightarrow> None)"

section \<open>Steps\<close>

definition tick_allowed :: "lag \<Rightarrow> ('sc, 'cc) system \<Rightarrow> bool" where
  "tick_allowed lag s \<longleftrightarrow> lag = None \<or> sy_thread s = T_Ended \<or> sy_now s < sy_due s"

text \<open>The initialisation is one step up to the creation of the thread: before it no other thread of the client exists.\<close>

inductive sys_step ::
    "('sc, 'sp, 'sv) state_codec_ops \<Rightarrow> ('cc, 'cp, 'cv) command_codec_ops \<Rightarrow> client_config \<Rightarrow> client_env \<Rightarrow> lag
       \<Rightarrow> ('sc, 'cc) system \<Rightarrow> ('sc, 'cc) system \<Rightarrow> bool"
  for SC CC kc env lag where
  app_init: "sy_app s = A_Idle \<Longrightarrow>
    client_init SC CC kc env f sp cp scratch (sy_client s) (sy_transport s) = Some (r, cl', t') \<Longrightarrow>
    sys_step SC CC kc env lag s (s\<lparr> sy_client := cl', sy_transport := t',
      sy_thread := (if \<not> cl_started (sy_client s) \<and> cl_started cl' then T_Entry else sy_thread s),
      sy_due := (if \<not> cl_started (sy_client s) \<and> cl_started cl' then due_after lag (sy_now s) else sy_due s) \<rparr>)"
| app_start: "sy_app s = A_Idle \<Longrightarrow> sys_step SC CC kc env lag s (call_start kc env lag f s)"
| app_stop: "sy_app s = A_Idle \<Longrightarrow> sys_step SC CC kc env lag s (stop_begin kc env Then_Return s)"
| app_destroy: "sy_app s = A_Idle \<Longrightarrow> sys_step SC CC kc env lag s (call_destroy kc env s)"
| app_write: "sy_app s = A_Idle \<Longrightarrow> write_state SC v (sy_client s) = Some cl' \<Longrightarrow>
    sys_step SC CC kc env lag s (s\<lparr> sy_client := cl' \<rparr>)"
| app_publish: "sy_app s = A_Idle \<Longrightarrow> zenoh_publish_state kc env (sy_client s) (sy_transport s) = Some (r, t') \<Longrightarrow>
    sys_step SC CC kc env lag s (s\<lparr> sy_transport := t' \<rparr>)"
| app_joined: "sy_app s = A_Join a deadline \<Longrightarrow> sy_thread s = T_Ended \<Longrightarrow> sys_step SC CC kc env lag s (stop_end kc env a s)"
| app_aborts: "sy_app s = A_Join a deadline \<Longrightarrow> sy_thread s \<noteq> T_Ended \<Longrightarrow> deadline \<le> sy_now s \<Longrightarrow>
    sys_step SC CC kc env lag s (stop_end kc env a s)"
| app_resumes: "sy_app s = A_Pause f wake \<Longrightarrow> wake \<le> sy_now s \<Longrightarrow> sys_step SC CC kc env lag s (create_thread lag f s)"
| zenoh_delivers: "client_receive kc bs (sy_client s) (sy_transport s) = Some cl' \<Longrightarrow>
    sys_step SC CC kc env lag s (s\<lparr> sy_client := cl' \<rparr>)"
| thread_runs: "thread_run kc env lag s = Some s' \<Longrightarrow> sys_step SC CC kc env lag s s'"
| clock_ticks: "tick_allowed lag s \<Longrightarrow> sys_step SC CC kc env lag s (s\<lparr> sy_now := sy_now s + 1 \<rparr>)"

definition sys_new :: "client_config \<Rightarrow> 'sc \<Rightarrow> 'cc \<Rightarrow> ('sc, 'cc) system" where
  "sys_new kc sctx cctx = \<lparr> sy_client = client_new kc sctx cctx, sy_transport = transport_static, sy_thread = T_Ended,
     sy_app = A_Idle, sy_now = 0, sy_due = 0 \<rparr>"

inductive sys_reachable ::
    "('sc, 'sp, 'sv) state_codec_ops \<Rightarrow> ('cc, 'cp, 'cv) command_codec_ops \<Rightarrow> client_config \<Rightarrow> client_env \<Rightarrow> lag
       \<Rightarrow> ('sc, 'cc) system \<Rightarrow> bool"
  for SC CC kc env lag where
  sys_start: "sys_reachable SC CC kc env lag (sys_new kc sctx cctx)"
| sys_next: "sys_reachable SC CC kc env lag s \<Longrightarrow> sys_step SC CC kc env lag s s' \<Longrightarrow> sys_reachable SC CC kc env lag s'"

end
