(* ===== verification/Demo_Apps.thy ===== *)
theory Demo_Apps
  imports Pendulum_Firmware
begin

text \<open>
  The remaining applications over the Tier 2 client: the sine wave generator
  (\<open>demos/sine_wave/sine_wave_zephyr/src/main.cpp\<close>), the end-to-end node (\<open>demos/rcl_e2e/tier2/src/main.cpp\<close>)
  and the client's test program (\<open>demos/rcl_cpp_test/src/main.cpp\<close>). Their schemas have only
  \<open>double\<close> fields, so each generated struct is a sequence of eight-byte numbers. Clock and network stack
  are inputs, and the sine is a parameter. Log output is left out, apart from the test program's reports.
\<close>

text \<open>A command of one \<open>double\<close>, read into a variable.\<close>

definition read_number :: "client_config \<Rightarrow> f64 \<Rightarrow> raw_client \<Rightarrow> (bool \<times> f64) option" where
  "read_number kc v cl =
     do { (ok, bs) \<leftarrow> read_command (RawCodec_command 8) kc (le64 v) cl; Some (ok, word_of_le bs) }"

definition f64_ge :: "f64 \<Rightarrow> f64 \<Rightarrow> bool" where "f64_ge a b \<longleftrightarrow> f64_lt b a \<or> f64_eq a b"

text \<open>Waiting for an address without a timeout; the result is the number of the poll that found one.\<close>

partial_function (option) wait_forever :: "(nat \<Rightarrow> bool) \<Rightarrow> nat \<Rightarrow> nat option" where
  "wait_forever ok k = (if ok k then Some k else wait_forever ok (Suc k))"

text \<open>The network of the sine wave generator and of the test program.\<close>

definition demo_network :: "start_io \<Rightarrow> bool option" where
  "demo_network si =
     do { (ok, k) \<leftarrow> wait_loop (si_wifi si) (si_wifi_now si) (si_wifi_timer si) kWifiConnectTimeout 0;
          if \<not> ok then Some False
          else do { k \<leftarrow> wait_forever (si_addr si) 0; Some True } }"

section \<open>The sine wave generator\<close>

record sine_app =
  sa_amp :: f64
  sa_cmd :: f64
  sa_recv :: bool
  sa_cnt :: i32
  sa_position :: f64

definition wave_frequency :: f64 where "wave_frequency = 0x3FF6666666666666"  \<comment> \<open>1.4\<close>
definition wave_amp :: f64 where "wave_amp = 0x4014000000000000"  \<comment> \<open>5\<close>
definition amp_threshold :: f64 where "amp_threshold = 0x3EB0C6F7A0B5ED8D"  \<comment> \<open>1e-6\<close>

definition sine_app_new :: sine_app where
  "sine_app_new = \<lparr> sa_amp = wave_amp, sa_cmd = 0, sa_recv = False, sa_cnt = 0, sa_position = 0 \<rparr>"

text \<open>The uptime is in milliseconds.\<close>

definition sine_at :: "(f64 \<Rightarrow> f64) \<Rightarrow> f64 \<Rightarrow> i64 \<Rightarrow> f64" where
  "sine_at sin_f amp elapsed =
     f64_mul amp
       (sin_f (f64_div (f64_mul (f64_mul (f64_mul (f64_of_int 2) M_PI) (f64_of_int (sint elapsed))) wave_frequency) (f64_of_int 1000)))"

definition sine_app_cycle ::
    "(f64 \<Rightarrow> f64) \<Rightarrow> client_config \<Rightarrow> i64 \<Rightarrow> i64 \<Rightarrow> sine_app \<times> raw_client \<Rightarrow> (sine_app \<times> raw_client) option" where
  "sine_app_cycle sin_f kc start_time now = (\<lambda>(app, cl). do {
     (ok, cmd) \<leftarrow> read_number kc (sa_cmd app) cl;
     let recv = (if f64_ge (f64_abs cmd) amp_threshold then True else sa_recv app);
     let amp = (if recv then f64_abs cmd else sa_amp app);
     let pos = sine_at sin_f amp (now - start_time);
     let cnt = sa_cnt app + 1;
     let cnt = (if cnt = 500 then 0 else cnt);
     cl \<leftarrow> write_state (RawCodec_state 8) (le64 pos) cl;
     Some (\<lparr> sa_amp = amp, sa_cmd = cmd, sa_recv = recv, sa_cnt = cnt, sa_position = pos \<rparr>, cl) })"

text \<open>\<open>main\<close> up to its loop: a code to return with, or nothing.\<close>

definition sine_app_start ::
    "client_config \<Rightarrow> client_env \<Rightarrow> start_io \<Rightarrow> byte list \<Rightarrow> raw_client \<times> ctransport
       \<Rightarrow> (int option \<times> (raw_client \<times> ctransport)) option" where
  "sine_app_start kc env si scratch s =
     do { up \<leftarrow> demo_network si;
          if \<not> up then Some (Some (-1), s)
          else do {
            (ret, s) \<leftarrow> client_init (RawCodec_state 8) (RawCodec_command 8) kc env 100 () () scratch (fst s) (snd s);
            Some (if ret \<noteq> 0 then Some ret else None, s) } }"

section \<open>The end-to-end node\<close>

record e2e_app =
  ea_position :: f64
  ea_velocity :: f64
  ea_latest_effort :: f64
  ea_loops :: u32

definition e2e_app_new :: e2e_app where
  "e2e_app_new = \<lparr> ea_position = 0, ea_velocity = 0, ea_latest_effort = 0, ea_loops = 0 \<rparr>"

definition position_step :: f64 where "position_step = 0x3F847AE147AE147B"  \<comment> \<open>0.01\<close>
definition effort_scale :: f64 where "effort_scale = 0x3FE0000000000000"  \<comment> \<open>0.5\<close>

text \<open>\<open>stack\<close> is what the uninitialised command holds.\<close>

definition e2e_app_cycle :: "client_config \<Rightarrow> f64 \<Rightarrow> e2e_app \<times> raw_client \<Rightarrow> (e2e_app \<times> raw_client) option" where
  "e2e_app_cycle kc stack = (\<lambda>(app, cl). do {
     (ok, cmd) \<leftarrow> read_number kc stack cl;
     let latest = (if ok then cmd else ea_latest_effort app);
     let pos = f64_add (ea_position app) position_step;
     let vel = f64_mul latest effort_scale;
     cl \<leftarrow> write_state (RawCodec_state 16) (le64 pos @ le64 vel) cl;
     Some (\<lparr> ea_position = pos, ea_velocity = vel, ea_latest_effort = latest, ea_loops = ea_loops app + 1 \<rparr>, cl) })"

definition e2e_app_start ::
    "client_config \<Rightarrow> client_env \<Rightarrow> byte list \<Rightarrow> raw_client \<times> ctransport
       \<Rightarrow> (int option \<times> (raw_client \<times> ctransport)) option" where
  "e2e_app_start kc env scratch s =
     do { (ret, s) \<leftarrow> client_init (RawCodec_state 16) (RawCodec_command 8) kc env 100 () () scratch (fst s) (snd s);
          Some (if ret \<noteq> 0 then Some (-1) else None, s) }"

section \<open>The client's test program\<close>

record test_app =
  ta_motor_arm :: f64
  ta_pendulum :: f64
  ta_cmd :: f64
  ta_changed :: bool
  ta_writes :: int

definition test_app_new :: test_app where
  "test_app_new = \<lparr> ta_motor_arm = 0, ta_pendulum = 0, ta_cmd = 0, ta_changed = False, ta_writes = 0 \<rparr>"

definition kIterations :: int where "kIterations = 200"
definition change_threshold :: f64 where "change_threshold = 0x3E112E0BE826D695"  \<comment> \<open>1e-9\<close>

text \<open>Iteration \<open>i\<close>: the state is written before the command is read.\<close>

definition test_app_cycle :: "(f64 \<Rightarrow> f64) \<Rightarrow> client_config \<Rightarrow> int \<Rightarrow> test_app \<times> raw_client \<Rightarrow> (test_app \<times> raw_client) option" where
  "test_app_cycle sin_f kc i = (\<lambda>(app, cl). do {
     let di = f64_of_int i;
     let arm = f64_mul (sin_f (f64_mul di 0x3FB999999999999A)) 0x4056800000000000;
     let pen = f64_mul di position_step;
     cl \<leftarrow> write_state (RawCodec_state 16) (le64 arm @ le64 pen) cl;
     (ok, cmd) \<leftarrow> read_number kc (ta_cmd app) cl;
     let changed = (if f64_ge (f64_abs cmd) change_threshold then True else ta_changed app);
     Some (\<lparr> ta_motor_arm = arm, ta_pendulum = pen, ta_cmd = cmd, ta_changed = changed, ta_writes = ta_writes app + 1 \<rparr>, cl) })"

text \<open>The returned code and the reports, in order. In iteration \<open>i\<close> first \<open>rounds i\<close> happens to the client.\<close>

definition test_app_main ::
    "(f64 \<Rightarrow> f64) \<Rightarrow> client_config \<Rightarrow> client_env \<Rightarrow> start_io \<Rightarrow> byte list \<Rightarrow> (int \<Rightarrow> byte list client_op list)
       \<Rightarrow> raw_client \<times> ctransport \<Rightarrow> (int \<times> bool list \<times> raw_client \<times> ctransport) option" where
  "test_app_main sin_f kc env si scratch rounds s =
     do { up \<leftarrow> demo_network si;
          if \<not> up then Some (-1, [], s)
          else do {
            (ret, cl, t) \<leftarrow> client_init (RawCodec_state 16) (RawCodec_command 8) kc env 50 () () scratch (fst s) (snd s);
            let reports = [ret = 0];
            if ret \<noteq> 0 then Some (ret, reports, cl, t)
            else do {
              let reports = reports @ [cl_initialized cl];
              (app, cl, t) \<leftarrow> run_rounds (RawCodec_state 16) kc env (test_app_cycle sin_f kc)
                (map (\<lambda>i. (rounds i, i)) [0..kIterations - 1]) (test_app_new, cl, t);
              let reports = reports @ [ta_writes app = kIterations, ta_changed app];
              let (cl, t) = client_destroy kc env cl t;
              Some (0, reports @ [\<not> cl_initialized cl], cl, t) } } }"

end
