(* ===== verification/Demo_Apps_Props.thy ===== *)
theory Demo_Apps_Props
  imports Demo_Apps Client_Rounds
begin

text \<open>
  The properties of the Tier 2 applications: how the amplitude of the sine wave follows the commands, what the
  end-to-end node publishes, what the test program reports, and which waits may last forever.
\<close>

section \<open>Rounds of an application\<close>

abbreviation raw_up where "raw_up n kc ops s \<equiv> raw_client.up n 8 kc () () ops s"

lemma raw_write_up:
  assumes u: "raw_up n kc ops (cl, t)" and l: "length v = unat n"
  shows "\<exists>cl'. write_state (RawCodec_state n) v cl = Some cl' \<and> raw_up n kc (ops @ [Op_Write v]) (cl', t)"
  by (rule raw_client.up_write [OF u]) (use l in \<open>simp add: raw_object_def\<close>)

lemma read_number_up:
  assumes u: "raw_up n kc ops (cl, t)" and k: "kc_max_cmd kc < 2 ^ 32"
  shows "read_number kc v cl = Some (True, word_of_le (latest 8 (accepted (cfg_tier (kc_transport kc)) 8 ops)))"
proof -
  let ?l = "latest 8 (accepted (cfg_tier (kc_transport kc)) 8 ops)"
  have "raw_object 8 () (le64 v)" "raw_encodes 8 () ?l ?l" by (simp_all add: raw_object_def raw_encodes_def latest_length)
  then have "read_command (RawCodec_command 8) kc (le64 v) cl = Some (True, ?l)"
    using raw_client.read_command_latest [OF u k, of "le64 v" ?l] by simp
  then show ?thesis by (simp add: read_number_def)
qed

text \<open>The number that the command buffer holds in each round, after the payloads \<open>bss\<close>.\<close>

fun heard :: "tier \<Rightarrow> byte list list \<Rightarrow> ('sv client_op list \<times> 'io) list \<Rightarrow> f64 list" where
  "heard tr bss [] = []"
| "heard tr bss ((ops, io) # rest) =
     word_of_le (latest 8 (bss @ accepted tr 8 ops)) # heard tr (bss @ accepted tr 8 ops) rest"

lemma length_heard [simp]: "length (heard tr bss xs) = length xs"
  by (induction tr bss xs rule: heard.induct) simp_all

lemma raw_size: "unat (cc_payload_size (RawCodec_command 8) ()) = 8"
  by (simp add: RawCodec_command_def)

lemma heard_words: "map word_of_le (heard_bytes tr 8 bss xs) = heard tr bss xs"
  by (induction tr bss xs rule: heard.induct) simp_all

lemma fold_zip_map:
  "fold (\<lambda>(c, io). step io (f c)) (zip cs ios) app = fold (\<lambda>(c, io). step io c) (zip (map f cs) ios) app"
  by (induction cs ios arbitrary: app rule: list_induct2') simp_all

text \<open>An application that reads the number and writes a state in each round; \<open>step\<close> is what it computes.\<close>

lemma run_rounds_app:
  assumes "raw_up n kc ops0 (cl, t)" and "kc_max_cmd kc < 2 ^ 32" and "list_all (\<lambda>x. deliveries (fst x)) xs"
    and cycle: "\<And>io app cl ops t. raw_up n kc ops (cl, t) \<Longrightarrow>
      \<exists>cl' v. cycle io (app, cl) = Some (step io (word_of_le (latest 8 (accepted (cfg_tier (kc_transport kc)) 8 ops))) app, cl') \<and>
        length v = unat n \<and> v = enc (step io (word_of_le (latest 8 (accepted (cfg_tier (kc_transport kc)) 8 ops))) app) \<and>
        raw_up n kc (ops @ [Op_Write v]) (cl', t)"
  shows "\<exists>cl' ops'. run_rounds (RawCodec_state n) kc env cycle xs (app, cl, t) =
      Some (fold (\<lambda>(c, io). step io c) (zip (heard (cfg_tier (kc_transport kc)) (accepted (cfg_tier (kc_transport kc)) 8 ops0) xs) (map snd xs)) app, cl', t) \<and>
    raw_up n kc ops' (cl', t) \<and>
    (xs \<noteq> [] \<longrightarrow> written ops' \<noteq> [] \<and> last (written ops') =
       enc (fold (\<lambda>(c, io). step io c) (zip (heard (cfg_tier (kc_transport kc)) (accepted (cfg_tier (kc_transport kc)) 8 ops0) xs) (map snd xs)) app))"
proof -
  have c: "\<exists>cl' app'. app' = step io (word_of_le (latest 8 (accepted (cfg_tier (kc_transport kc)) 8 ops))) app \<and>
      cycle io (app, cl) = Some (app', cl') \<and> True \<and> raw_up n kc (ops @ [Op_Write (enc app')]) (cl', t)"
    if "raw_up n kc ops (cl, t)" for io app cl ops t
    using cycle [OF that, of io app] by auto
  show ?thesis
    using raw_client.up_run_rounds [OF assms(1,3), of "\<lambda>_. True" "\<lambda>io b. step io (word_of_le b)" cycle enc app env,
        unfolded raw_size fold_zip_map heard_words, OF c TrueI] by blast
qed

section \<open>The sine wave generator\<close>

definition loud :: "f64 \<Rightarrow> bool" where "loud c \<longleftrightarrow> f64_ge (f64_abs c) amp_threshold"

definition sine_step :: "(f64 \<Rightarrow> f64) \<Rightarrow> i64 \<Rightarrow> i64 \<Rightarrow> f64 \<Rightarrow> sine_app \<Rightarrow> sine_app" where
  "sine_step sin_f start_time now c app =
     (let recv = (loud c \<or> sa_recv app); amp = (if recv then f64_abs c else sa_amp app)
      in \<lparr> sa_amp = amp, sa_cmd = c, sa_recv = recv, sa_cnt = (if sa_cnt app + 1 = 500 then 0 else sa_cnt app + 1),
           sa_position = sine_at sin_f amp (now - start_time) \<rparr>)"

lemma sine_cycle_pair:
  "sine_app_cycle sin_f kc st now (app, cl) = do {
     (ok, c) \<leftarrow> read_number kc (sa_cmd app) cl;
     cl \<leftarrow> write_state (RawCodec_state 8) (le64 (sa_position (sine_step sin_f st now c app))) cl;
     Some (sine_step sin_f st now c app, cl) }"
proof -
  have "(if P then True else Q) = (P \<or> Q)" for P Q :: bool by simp
  then show ?thesis by (simp only: sine_app_cycle_def sine_step_def loud_def Let_def prod.case) simp
qed

lemma sine_cycle_step:
  assumes u: "raw_up 8 kc ops (cl, t)" and k: "kc_max_cmd kc < 2 ^ 32"
  shows "\<exists>cl' v. sine_app_cycle sin_f kc st now (app, cl) =
      Some (sine_step sin_f st now (word_of_le (latest 8 (accepted (cfg_tier (kc_transport kc)) 8 ops))) app, cl') \<and>
    length v = unat (8 :: size_t) \<and>
    v = le64 (sa_position (sine_step sin_f st now (word_of_le (latest 8 (accepted (cfg_tier (kc_transport kc)) 8 ops))) app)) \<and>
    raw_up 8 kc (ops @ [Op_Write v]) (cl', t)"
proof -
  let ?app = "sine_step sin_f st now (word_of_le (latest 8 (accepted (cfg_tier (kc_transport kc)) 8 ops))) app"
  obtain cl' where w: "write_state (RawCodec_state 8) (le64 (sa_position ?app)) cl = Some cl'"
      "raw_up 8 kc (ops @ [Op_Write (le64 (sa_position ?app))]) (cl', t)"
    using raw_write_up [OF u, of "le64 (sa_position ?app)"] by auto
  then have "sine_app_cycle sin_f kc st now (app, cl) = Some (?app, cl')"
    by (simp add: sine_cycle_pair read_number_up [OF u k])
  then show ?thesis using w(2) by auto
qed

text \<open>The amplitude after the numbers \<open>cs\<close> were read.\<close>

definition sine_amplitude :: "f64 list \<Rightarrow> f64" where
  "sine_amplitude cs = (if \<exists>c \<in> set cs. loud c then f64_abs (last cs) else wave_amp)"

definition sine_app_ok :: "f64 list \<Rightarrow> sine_app \<Rightarrow> bool" where
  "sine_app_ok cs app \<longleftrightarrow> sa_amp app = sine_amplitude cs \<and> (sa_recv app \<longleftrightarrow> (\<exists>c \<in> set cs. loud c)) \<and> unat (sa_cnt app) < 500"

lemma sine_step_ok:
  assumes "sine_app_ok cs app"
  shows "sine_app_ok (cs @ [c]) (sine_step sin_f st now c app)"
proof -
  have "unat (sa_cnt app + 1) = unat (sa_cnt app) + 1"
    using assms by (intro unat_plus_if_size [THEN trans]) (simp add: sine_app_ok_def word_size)
  moreover have "unat (sa_cnt app + 1) \<noteq> 500" if "sa_cnt app + 1 \<noteq> 500"
    using that word_unat_eq_iff [of "sa_cnt app + 1" 500] by simp
  ultimately show ?thesis using assms by (auto simp: sine_app_ok_def sine_step_def sine_amplitude_def Let_def)
qed

lemma sine_fold_ok:
  "sine_app_ok cs0 app \<Longrightarrow> length cs = length ios \<Longrightarrow>
   sine_app_ok (cs0 @ cs) (fold (\<lambda>(c, io). sine_step sin_f st io c) (zip cs ios) app)"
proof (induction cs ios arbitrary: cs0 app rule: list_induct2')
  case (4 c cs io ios)
  then show ?case using "4.IH" [OF sine_step_ok [OF "4.prems"(1)], of c sin_f st io] by simp
qed simp_all

lemma fold_zip_last:
  assumes "length cs = length ios" and "cs \<noteq> []"
  shows "\<exists>a. fold (\<lambda>(c, io). step io c) (zip cs ios) app = step (last ios) (last cs) a"
proof -
  have "zip cs ios = zip (butlast cs) (butlast ios) @ [(last cs, last ios)]"
    using assms append_butlast_last_id [of cs] append_butlast_last_id [of ios] zip_append [of "butlast cs" "butlast ios" "[last cs]" "[last ios]"]
    by fastforce
  then show ?thesis by auto
qed

lemma sine_step_position:
  "sa_position (sine_step sin_f st now c app) = sine_at sin_f (sa_amp (sine_step sin_f st now c app)) (now - st)"
  by (simp add: sine_step_def Let_def)

section \<open>The end-to-end node\<close>

definition advance :: "f64 \<Rightarrow> f64" where "advance p = f64_add p position_step"

definition e2e_step :: "f64 \<Rightarrow> f64 \<Rightarrow> e2e_app \<Rightarrow> e2e_app" where
  "e2e_step io c app =
     \<lparr> ea_position = advance (ea_position app), ea_velocity = f64_mul c effort_scale, ea_latest_effort = c,
       ea_loops = ea_loops app + 1 \<rparr>"

definition e2e_state :: "e2e_app \<Rightarrow> byte list" where
  "e2e_state app = le64 (ea_position app) @ le64 (ea_velocity app)"

lemma e2e_cycle_step:
  assumes u: "raw_up 16 kc ops (cl, t)" and k: "kc_max_cmd kc < 2 ^ 32"
  shows "\<exists>cl' v. e2e_app_cycle kc io (app, cl) =
      Some (e2e_step io (word_of_le (latest 8 (accepted (cfg_tier (kc_transport kc)) 8 ops))) app, cl') \<and>
    length v = unat (16 :: size_t) \<and>
    v = e2e_state (e2e_step io (word_of_le (latest 8 (accepted (cfg_tier (kc_transport kc)) 8 ops))) app) \<and>
    raw_up 16 kc (ops @ [Op_Write v]) (cl', t)"
proof -
  let ?app = "e2e_step io (word_of_le (latest 8 (accepted (cfg_tier (kc_transport kc)) 8 ops))) app"
  obtain cl' where w: "write_state (RawCodec_state 16) (e2e_state ?app) cl = Some cl'"
      "raw_up 16 kc (ops @ [Op_Write (e2e_state ?app)]) (cl', t)"
    using raw_write_up [OF u, of "e2e_state ?app"] by (auto simp: e2e_state_def)
  then have "e2e_app_cycle kc io (app, cl) = Some (?app, cl')"
    by (simp add: e2e_app_cycle_def read_number_up [OF u k] e2e_step_def e2e_state_def advance_def)
  then show ?thesis using w(2) by (auto simp: e2e_state_def)
qed

text \<open>The node's position after \<open>n\<close> cycles.\<close>

definition e2e_position :: "nat \<Rightarrow> f64" where
  "e2e_position n = (advance ^^ n) 0"

lemma e2e_fold:
  "length cs = length ios \<Longrightarrow>
   fold (\<lambda>(c, io). e2e_step io c) (zip cs ios) app =
     (if cs = [] then app
      else \<lparr> ea_position = (advance ^^ length cs) (ea_position app),
             ea_velocity = f64_mul (last cs) effort_scale, ea_latest_effort = last cs,
             ea_loops = ea_loops app + of_nat (length cs) \<rparr>)"
  by (induction cs ios arbitrary: app rule: list_induct2')
    (auto simp: e2e_step_def funpow_swap1 ac_simps)

section \<open>The test program\<close>

definition changed :: "f64 \<Rightarrow> bool" where "changed c \<longleftrightarrow> f64_ge (f64_abs c) change_threshold"

definition test_step :: "(f64 \<Rightarrow> f64) \<Rightarrow> int \<Rightarrow> f64 \<Rightarrow> test_app \<Rightarrow> test_app" where
  "test_step sin_f i c app =
     \<lparr> ta_motor_arm = f64_mul (sin_f (f64_mul (f64_of_int i) 0x3FB999999999999A)) 0x4056800000000000,
       ta_pendulum = f64_mul (f64_of_int i) position_step, ta_cmd = c, ta_changed = (changed c \<or> ta_changed app),
       ta_writes = ta_writes app + 1 \<rparr>"

definition test_state :: "test_app \<Rightarrow> byte list" where
  "test_state app = le64 (ta_motor_arm app) @ le64 (ta_pendulum app)"

lemma test_cycle_pair:
  "test_app_cycle sin_f kc i (app, cl) = do {
     cl \<leftarrow> write_state (RawCodec_state 16) (test_state (test_step sin_f i c app)) cl;
     (ok, c) \<leftarrow> read_number kc (ta_cmd app) cl;
     Some (test_step sin_f i c app, cl) }"
proof -
  have "(if P then True else Q) = (P \<or> Q)" for P Q :: bool by simp
  then show ?thesis by (simp only: test_app_cycle_def test_step_def test_state_def changed_def Let_def prod.case) simp
qed

lemma test_cycle_step:
  assumes u: "raw_up 16 kc ops (cl, t)" and k: "kc_max_cmd kc < 2 ^ 32"
  shows "\<exists>cl' v. test_app_cycle sin_f kc i (app, cl) =
      Some (test_step sin_f i (word_of_le (latest 8 (accepted (cfg_tier (kc_transport kc)) 8 ops))) app, cl') \<and>
    length v = unat (16 :: size_t) \<and>
    v = test_state (test_step sin_f i (word_of_le (latest 8 (accepted (cfg_tier (kc_transport kc)) 8 ops))) app) \<and>
    raw_up 16 kc (ops @ [Op_Write v]) (cl', t)"
proof -
  let ?app = "test_step sin_f i (word_of_le (latest 8 (accepted (cfg_tier (kc_transport kc)) 8 ops))) app"
  obtain cl' where w: "write_state (RawCodec_state 16) (test_state ?app) cl = Some cl'"
      "raw_up 16 kc (ops @ [Op_Write (test_state ?app)]) (cl', t)"
    using raw_write_up [OF u, of "test_state ?app"] by (auto simp: test_state_def)
  then have "test_app_cycle sin_f kc i (app, cl) = Some (?app, cl')"
    using read_number_up [OF w(2) k] by (simp add: test_cycle_pair [where c = "word_of_le (latest 8 (accepted (cfg_tier (kc_transport kc)) 8 ops))"])
  then show ?thesis using w(2) by (auto simp: test_state_def)
qed

lemma test_fold:
  "length cs = length ios \<Longrightarrow>
   ta_writes (fold (\<lambda>(c, io). test_step sin_f io c) (zip cs ios) app) = ta_writes app + int (length cs) \<and>
   ta_changed (fold (\<lambda>(c, io). test_step sin_f io c) (zip cs ios) app) = (ta_changed app \<or> (\<exists>c \<in> set cs. changed c))"
  by (induction cs ios arbitrary: app rule: list_induct2') (auto simp: test_step_def)

section \<open>Start-up\<close>

lemma raw_fits_8: "unat n \<le> kc_max_state kc \<Longrightarrow> raw_fits n () (kc_max_state kc)" "8 \<le> kc_max_cmd kc \<Longrightarrow> raw_fits 8 () (kc_max_cmd kc)"
  by (simp_all add: raw_fits_def)

lemma raw_started:
  assumes "transport_reachable (kc_transport kc) (ce_zenoh env) t" and "\<not> cl_initialized cl"
    and "unat n \<le> kc_max_state kc" and "8 \<le> kc_max_cmd kc" and "length scratch = kc_max_cmd kc"
    and i: "client_init (RawCodec_state n) (RawCodec_command 8) kc env f () () scratch cl t = Some (0, cl1, t1)"
  shows "raw_up n kc [] (cl1, t1)"
  by (rule raw_client.up_init [OF raw_fits_8(1) [OF assms(3)] raw_fits_8(2) [OF assms(4)] assms(5,2) transport_reachable_inv [OF assms(1)] i
      client_init_zero [OF i]])

lemma wait_forever_found:
  assumes "wait_forever ok k = Some n"
  shows "k \<le> n \<and> ok n \<and> (\<forall>j. k \<le> j \<longrightarrow> j < n \<longrightarrow> \<not> ok j)"
  using assms
proof (induction ok k n rule: wait_forever.raw_induct [rotated, consumes 1, case_names step])
  case (step w ok k n)
  show ?case
  proof (cases "ok k")
    case False
    then have "Suc k \<le> n \<and> ok n \<and> (\<forall>j. Suc k \<le> j \<longrightarrow> j < n \<longrightarrow> \<not> ok j)"
      using step(1) [of ok "Suc k" n] step(2) by simp
    then show ?thesis using False by (metis Suc_leI le_SucI le_neq_implies_less le_trans lessI less_imp_le)
  qed (use step(2) in simp)
qed

lemma wait_forever_finds: "ok n \<Longrightarrow> k \<le> n \<Longrightarrow> wait_forever ok k \<noteq> None"
proof (induction "n - k" arbitrary: k)
  case (Suc d)
  then show ?case by (subst wait_forever.simps) (use Suc.hyps(1) [of "Suc k"] in auto)
qed (subst wait_forever.simps, simp)

section \<open>Properties\<close>

text \<open>C31: The sine wave generator: from start-up on, whatever the network delivers, no cycle is undefined; the amplitude
  is 5 until a cycle reads a command of at least 1e-6, and from then on the last number read, zeros and NaNs
  included; what is written is the amplitude times the sine of the time since the start, and the next
  publication carries it. The rounds have the deliveries; the publications in between change nothing of this
  (\<open>run_rounds_quiet\<close>).\<close>

theorem sine_app_follows_commands:
  assumes "transport_reachable (kc_transport kc) (ce_zenoh env) t" and "\<not> cl_initialized cl"
    and "8 \<le> kc_max_state kc" and "8 \<le> kc_max_cmd kc" and "kc_max_cmd kc < 2 ^ 32" and "length scratch = kc_max_cmd kc"
    and "sine_app_start kc env si scratch (cl, t) = Some (None, (cl1, t1))"
    and "list_all (\<lambda>x. deliveries (fst x)) xs" and "xs \<noteq> []"
  shows "\<exists>app cl'. run_rounds (RawCodec_state 8) kc env (sine_app_cycle sin_f kc start_time) xs (sine_app_new, cl1, t1) = Some (app, cl', t1) \<and>
    sa_amp app = sine_amplitude (heard (cfg_tier (kc_transport kc)) [] xs) \<and>
    sa_position app = sine_at sin_f (sa_amp app) (snd (last xs) - start_time) \<and>
    zenoh_publish_state kc env cl' t1 =
      zenbedded_transport_publish (kc_transport kc) (ce_zenoh env) (cl_pub cl') (le64 (sa_position app)) t1"
proof -
  let ?cs = "heard (cfg_tier (kc_transport kc)) [] xs"
  let ?app = "fold (\<lambda>(c, io). sine_step sin_f start_time io c) (zip ?cs (map snd xs)) sine_app_new"
  have i: "client_init (RawCodec_state 8) (RawCodec_command 8) kc env 100 () () scratch cl t = Some (0, cl1, t1)"
    using assms(7) by (auto simp: sine_app_start_def bind_eq_Some_conv split: if_splits)
  have u: "raw_up 8 kc [] (cl1, t1)" by (rule raw_started [OF assms(1,2) _ assms(4,6) i]) (use assms(3) in simp)
  note cyc = sine_cycle_step [OF _ assms(5)]
  obtain cl' ops' where r:
      "run_rounds (RawCodec_state 8) kc env (sine_app_cycle sin_f kc start_time) xs (sine_app_new, cl1, t1) = Some (?app, cl', t1)"
      "raw_up 8 kc ops' (cl', t1)" "written ops' \<noteq> [] \<and> last (written ops') = le64 (sa_position ?app)"
    using run_rounds_app [where cycle = "sine_app_cycle sin_f kc start_time" and step = "sine_step sin_f start_time"
        and enc = "\<lambda>app. le64 (sa_position app)", OF u assms(5,8) cyc, of env sine_app_new] assms(9) by auto
  have "sine_app_ok [] sine_app_new" by (simp add: sine_app_ok_def sine_app_new_def sine_amplitude_def)
  from sine_fold_ok [OF this, of ?cs "map snd xs" sin_f start_time] have "sine_app_ok ?cs ?app" by simp
  moreover have "?cs \<noteq> []" using assms(9) by (metis length_0_conv length_heard)
  then obtain a where "?app = sine_step sin_f start_time (last (map snd xs)) (last ?cs) a"
    using fold_zip_last [of ?cs "map snd xs" "sine_step sin_f start_time" sine_app_new] by auto
  then have "sa_position ?app = sine_at sin_f (sa_amp ?app) (snd (last xs) - start_time)"
    using assms(9) sine_step_position by (metis last_map)
  ultimately show ?thesis
    using r raw_client.publish_up [OF r(2), of env] by (auto simp: sine_app_ok_def)
qed

text \<open>The end-to-end node: after \<open>n\<close> cycles the next publication carries the position after \<open>n\<close> steps and half
  the effort in the last command accepted before the last cycle, or zero before the first command.\<close>

theorem e2e_app_relays_effort:
  assumes "transport_reachable (kc_transport kc) (ce_zenoh env) t" and "\<not> cl_initialized cl"
    and "16 \<le> kc_max_state kc" and "8 \<le> kc_max_cmd kc" and "kc_max_cmd kc < 2 ^ 32" and "length scratch = kc_max_cmd kc"
    and "e2e_app_start kc env scratch (cl, t) = Some (None, (cl1, t1))"
    and "list_all (\<lambda>x. deliveries (fst x)) xs" and "xs \<noteq> []"
  shows "\<exists>app cl'. run_rounds (RawCodec_state 16) kc env (e2e_app_cycle kc) xs (e2e_app_new, cl1, t1) = Some (app, cl', t1) \<and>
    zenoh_publish_state kc env cl' t1 =
      zenbedded_transport_publish (kc_transport kc) (ce_zenoh env) (cl_pub cl')
        (le64 (e2e_position (length xs)) @ le64 (f64_mul (last (heard (cfg_tier (kc_transport kc)) [] xs)) effort_scale)) t1"
proof -
  let ?cs = "heard (cfg_tier (kc_transport kc)) [] xs"
  let ?app = "fold (\<lambda>(c, io). e2e_step io c) (zip ?cs (map snd xs)) e2e_app_new"
  have i: "client_init (RawCodec_state 16) (RawCodec_command 8) kc env 100 () () scratch cl t = Some (0, cl1, t1)"
    using assms(7) by (auto simp: e2e_app_start_def bind_eq_Some_conv split: if_splits)
  have u: "raw_up 16 kc [] (cl1, t1)" by (rule raw_started [OF assms(1,2) _ assms(4,6) i]) (use assms(3) in simp)
  note cyc = e2e_cycle_step [OF _ assms(5)]
  obtain cl' ops' where r:
      "run_rounds (RawCodec_state 16) kc env (e2e_app_cycle kc) xs (e2e_app_new, cl1, t1) = Some (?app, cl', t1)"
      "raw_up 16 kc ops' (cl', t1)" "written ops' \<noteq> [] \<and> last (written ops') = e2e_state ?app"
    using run_rounds_app [where cycle = "e2e_app_cycle kc" and step = e2e_step
        and enc = e2e_state, OF u assms(5,8) cyc, of env e2e_app_new] assms(9) by auto
  have "?cs \<noteq> []" using assms(9) by (metis length_0_conv length_heard)
  then have "e2e_state ?app = le64 (e2e_position (length xs)) @ le64 (f64_mul (last ?cs) effort_scale)"
    using e2e_fold [of ?cs "map snd xs" e2e_app_new]
    by (simp add: e2e_state_def e2e_position_def e2e_app_new_def)
  then show ?thesis using r raw_client.publish_up [OF r(2), of env] by auto
qed

text \<open>The test program: once its network is up and its client initialised, it always ends, with code 0, whatever the
  network delivers in its 200 iterations; every report is a pass, apart from the one for received commands,
  which is a pass exactly if an iteration read a command of at least 1e-9; and the client is destroyed.\<close>

theorem test_app_reports:
  assumes "transport_reachable (kc_transport kc) (ce_zenoh env) t" and "\<not> cl_initialized cl"
    and "16 \<le> kc_max_state kc" and "8 \<le> kc_max_cmd kc" and "kc_max_cmd kc < 2 ^ 32" and "length scratch = kc_max_cmd kc"
    and "demo_network si = Some True"
    and "client_init (RawCodec_state 16) (RawCodec_command 8) kc env 50 () () scratch cl t = Some (0, cl1, t1)"
    and "\<forall>i. deliveries (rounds i)"
  shows "\<exists>cl' t'. test_app_main sin_f kc env si scratch rounds (cl, t) =
      Some (0, [True, True, True,
        \<exists>c \<in> set (heard (cfg_tier (kc_transport kc)) [] (map (\<lambda>i. (rounds i, i)) [0..199])). changed c, True], cl', t') \<and>
    \<not> cl_initialized cl'"
proof -
  let ?xs = "map (\<lambda>i. (rounds i, i)) [0..kIterations - 1]"
  let ?cs = "heard (cfg_tier (kc_transport kc)) [] ?xs"
  let ?app = "fold (\<lambda>(c, io). test_step sin_f io c) (zip ?cs (map snd ?xs)) test_app_new"
  have u: "raw_up 16 kc [] (cl1, t1)" by (rule raw_started [OF assms(1,2) _ assms(4,6,8)]) (use assms(3) in simp)
  have d: "list_all (\<lambda>x. deliveries (fst x)) ?xs" using assms(9) by (simp add: list_all_iff)
  note cyc = test_cycle_step [OF _ assms(5)]
  obtain cl2 ops' where r:
      "run_rounds (RawCodec_state 16) kc env (test_app_cycle sin_f kc) ?xs (test_app_new, cl1, t1) = Some (?app, cl2, t1)"
      "raw_up 16 kc ops' (cl2, t1)"
    using run_rounds_app [where cycle = "test_app_cycle sin_f kc" and step = "test_step sin_f"
        and enc = test_state, OF u assms(5) d cyc, of env test_app_new] by auto
  have f: "ta_writes ?app = kIterations" "ta_changed ?app = (\<exists>c \<in> set ?cs. changed c)"
    using test_fold [of ?cs "map snd ?xs" sin_f test_app_new] by (simp_all add: test_app_new_def kIterations_def)
  have i: "cl_initialized cl1" by (rule client_init_zero [OF assms(8)])
  obtain cl' t' where c: "client_destroy kc env cl2 t1 = (cl', t')" by fastforce
  have "\<not> cl_initialized cl'" using c by (auto simp: client_destroy_def Let_def split: if_splits prod.splits)
  then show ?thesis
    using assms(7,8) i r(1) f c by (auto simp: test_app_main_def kIterations_def)
qed

text \<open>The wait for an address has no timeout: with the network connected, the sine wave generator and the test program
  get past it exactly if some poll finds an address, and otherwise never return.\<close>

theorem demo_network_may_hang:
  "demo_network si =
     (case wait_loop (si_wifi si) (si_wifi_now si) (si_wifi_timer si) kWifiConnectTimeout 0 of
        None \<Rightarrow> None
      | Some (connected, k) \<Rightarrow>
          if \<not> connected then Some False else if \<exists>n. si_addr si n then Some True else None)"
proof -
  have w: "wait_forever (si_addr si) 0 \<noteq> None \<longleftrightarrow> (\<exists>n. si_addr si n)"
    using wait_forever_found [of "si_addr si" 0] wait_forever_finds [of "si_addr si" _ 0] by blast
  show ?thesis
  proof (cases "wait_forever (si_addr si) 0")
    case None
    then have "\<nexists>n. si_addr si n" using w by simp
    then show ?thesis using None by (simp add: demo_network_def split: option.split prod.split)
  next
    case (Some n)
    then have "\<exists>n. si_addr si n" using w by auto
    then show ?thesis using Some by (simp add: demo_network_def split: option.split prod.split)
  qed
qed

section \<open>Witnesses\<close>

lemma demo_network_start: "demo_network demo_start = Some True"
  by (simp add: demo_network_def demo_start_def wait_loop.simps [of "\<lambda>k. True"] wait_forever.simps [of "\<lambda>k. True"])

lemma demo_raw_started:
  assumes "unat (n :: size_t) \<le> 256" and "f \<noteq> 0"
  obtains cl1 t1 where "client_init (RawCodec_state n) (RawCodec_command 8) (demo_kc tier2_cfg) demo_env f () () (replicate 256 0)
    demo_raw_client transport_static = Some (0, cl1, t1)"
proof -
  have f: "raw_fits n () (kc_max_state (demo_kc tier2_cfg))" "raw_fits 8 () (kc_max_cmd (demo_kc tier2_cfg))"
    "length (replicate 256 (0 :: byte)) = kc_max_cmd (demo_kc tier2_cfg)" using assms(1) by (simp_all add: raw_fits_def)
  then show thesis
    using raw_client.client_init_accepts [OF f, of transport_static demo_env f demo_raw_client] demo_raw_fresh assms(2) that by auto
qed

text \<open>Two cycles: one without a command, one after the command 3.\<close>

definition three :: "byte list" where "three = [0, 0, 0, 0, 0, 0, 8, 64]"

lemma three: "word_of_le three = (0x4008000000000000 :: f64)" "length three = 8"
  by (simp_all add: three_def word_of_le_def)

definition demo_rounds :: "(byte list client_op list \<times> i64) list" where
  "demo_rounds = [([], 1000), ([Op_Receive [1], Op_Receive three], 1500)]"

lemma demo_heard: "heard Tier2 [] demo_rounds = [0, 0x4008000000000000]"
  by (simp add: demo_rounds_def deliverable_def latest_def three) (simp add: word_of_le_def numeral_eq_Suc)

lemma demo_loud: "loud 0x4008000000000000" "f64_abs 0x4008000000000000 = 0x4008000000000000"
  by (simp_all add: loud_def f64_ge_def f64_lt_def f64_abs_def f64_make_def f64_mag_def amp_threshold_def f64_key_def
      f64_sign_def f64_isnan_def F64_INF_def)

theorem sine_app_follows_commands_witness:
  "\<exists>cl1 t1 app cl'. sine_app_start (demo_kc tier2_cfg) demo_env demo_start (replicate 256 0) (demo_raw_client, transport_static) =
       Some (None, (cl1, t1)) \<and>
     run_rounds (RawCodec_state 8) (demo_kc tier2_cfg) demo_env (sine_app_cycle (\<lambda>x. x) (demo_kc tier2_cfg) 900) demo_rounds
       (sine_app_new, cl1, t1) = Some (app, cl', t1) \<and>
     sa_amp app = 0x4008000000000000 \<and> sa_position app = sine_at (\<lambda>x. x) 0x4008000000000000 600"
proof -
  let ?kc = "demo_kc tier2_cfg"
  obtain cl1 t1 where "client_init (RawCodec_state 8) (RawCodec_command 8) ?kc demo_env 100 () () (replicate 256 0)
      demo_raw_client transport_static = Some (0, cl1, t1)" by (rule demo_raw_started [of 8 100]) simp_all
  then have s: "sine_app_start ?kc demo_env demo_start (replicate 256 0) (demo_raw_client, transport_static) = Some (None, (cl1, t1))"
    by (simp add: sine_app_start_def demo_network_start)
  have reach: "transport_reachable (kc_transport ?kc) (ce_zenoh demo_env) transport_static" by (rule reach_static)
  have d: "list_all (\<lambda>x. deliveries (fst x)) demo_rounds" "demo_rounds \<noteq> []" by (simp_all add: demo_rounds_def deliveries_def)
  have tier: "cfg_tier (kc_transport ?kc) = Tier2" by (simp add: tier2_cfg_def)
  have amp: "sine_amplitude (heard Tier2 [] demo_rounds) = 0x4008000000000000"
    by (simp add: sine_amplitude_def demo_heard demo_loud)
  have last: "snd (last demo_rounds) - 900 = 600" by (simp add: demo_rounds_def)
  obtain app cl' where "run_rounds (RawCodec_state 8) ?kc demo_env (sine_app_cycle (\<lambda>x. x) ?kc 900) demo_rounds (sine_app_new, cl1, t1) =
      Some (app, cl', t1)" "sa_amp app = 0x4008000000000000" "sa_position app = sine_at (\<lambda>x. x) (sa_amp app) 600"
    using sine_app_follows_commands [OF reach demo_raw_fresh(1) _ _ _ _ s d, of "\<lambda>x. x" 900] unfolding tier amp last by auto
  then show ?thesis using s by auto
qed

theorem e2e_app_relays_effort_witness:
  "\<exists>cl1 t1 app cl'. e2e_app_start (demo_kc tier2_cfg) demo_env (replicate 256 0) (demo_raw_client, transport_static) = Some (None, (cl1, t1)) \<and>
     run_rounds (RawCodec_state 16) (demo_kc tier2_cfg) demo_env (e2e_app_cycle (demo_kc tier2_cfg)) demo_rounds (e2e_app_new, cl1, t1) =
       Some (app, cl', t1) \<and>
     zenoh_publish_state (demo_kc tier2_cfg) demo_env cl' t1 =
       zenbedded_transport_publish tier2_cfg quiet_zenoh (cl_pub cl')
         (le64 (e2e_position 2) @ le64 (f64_mul 0x4008000000000000 effort_scale)) t1"
proof -
  let ?kc = "demo_kc tier2_cfg"
  obtain cl1 t1 where "client_init (RawCodec_state 16) (RawCodec_command 8) ?kc demo_env 100 () () (replicate 256 0)
      demo_raw_client transport_static = Some (0, cl1, t1)" by (rule demo_raw_started [of 16 100]) simp_all
  then have s: "e2e_app_start ?kc demo_env (replicate 256 0) (demo_raw_client, transport_static) = Some (None, (cl1, t1))"
    by (simp add: e2e_app_start_def)
  have reach: "transport_reachable (kc_transport ?kc) (ce_zenoh demo_env) transport_static" by (rule reach_static)
  have d: "list_all (\<lambda>x. deliveries (fst x)) demo_rounds" "demo_rounds \<noteq> []" by (simp_all add: demo_rounds_def deliveries_def)
  have tier: "cfg_tier (kc_transport ?kc) = Tier2" by (simp add: tier2_cfg_def)
  have n: "length demo_rounds = 2" by (simp add: demo_rounds_def)
  have l: "last (heard Tier2 [] demo_rounds) = 0x4008000000000000" by (simp add: demo_heard)
  obtain app cl' where "run_rounds (RawCodec_state 16) ?kc demo_env (e2e_app_cycle ?kc) demo_rounds (e2e_app_new, cl1, t1) = Some (app, cl', t1)"
      "zenoh_publish_state ?kc demo_env cl' t1 = zenbedded_transport_publish (kc_transport ?kc) (ce_zenoh demo_env) (cl_pub cl')
         (le64 (e2e_position 2) @ le64 (f64_mul 0x4008000000000000 effort_scale)) t1"
    using e2e_app_relays_effort [OF reach demo_raw_fresh(1) _ _ _ _ s d] unfolding tier n l by auto
  then show ?thesis using s by auto
qed

text \<open>A command arrives in iteration 150.\<close>

definition late_command :: "int \<Rightarrow> byte list client_op list" where
  "late_command i = (if i = 150 then [Op_Receive three] else [])"

lemma heard_at:
  assumes "(ops, io) \<in> set xs" and "accepted tr 8 ops \<noteq> []"
  shows "word_of_le (last (accepted tr 8 ops)) \<in> set (heard tr bss xs)"
  using assms
proof (induction xs arbitrary: bss)
  case (Cons x xs)
  then show ?case by (cases x) (auto simp: latest_def)
qed simp

theorem test_app_reports_witness:
  "\<exists>cl' t'. test_app_main (\<lambda>x. x) (demo_kc tier2_cfg) demo_env demo_start (replicate 256 0) late_command (demo_raw_client, transport_static) =
     Some (0, [True, True, True, True, True], cl', t') \<and> \<not> cl_initialized cl'"
proof -
  let ?kc = "demo_kc tier2_cfg" and ?xs = "map (\<lambda>i. (late_command i, i)) [0..199]"
  obtain cl1 t1 where i: "client_init (RawCodec_state 16) (RawCodec_command 8) ?kc demo_env 50 () () (replicate 256 0)
      demo_raw_client transport_static = Some (0, cl1, t1)" by (rule demo_raw_started [of 16 50]) simp_all
  have reach: "transport_reachable (kc_transport ?kc) (ce_zenoh demo_env) transport_static" by (rule reach_static)
  have tier: "cfg_tier (kc_transport ?kc) = Tier2" by (simp add: tier2_cfg_def)
  have "(late_command 150, 150) \<in> set ?xs" by force
  moreover have a: "accepted Tier2 8 (late_command 150) = [three]" by (simp add: late_command_def deliverable_def three)
  ultimately have "word_of_le three \<in> set (heard Tier2 [] ?xs)" using heard_at [of "late_command 150" 150 ?xs Tier2 "[]"] by simp
  moreover have "changed (word_of_le three)"
    by (simp add: three changed_def demo_loud f64_ge_def)
      (simp add: f64_lt_def change_threshold_def f64_key_def f64_sign_def f64_mag_def f64_isnan_def F64_INF_def)
  ultimately have "\<exists>c \<in> set (heard Tier2 [] ?xs). changed c" by blast
  moreover have d: "\<forall>i. deliveries (late_command i)" by (simp add: late_command_def deliveries_def)
  ultimately show ?thesis
    using test_app_reports [OF reach demo_raw_fresh(1) _ _ _ _ demo_network_start i d, of "\<lambda>x. x"] unfolding tier by auto
qed

end
