(* ===== verification/Control_Thread_Props.thy ===== *)
theory Control_Thread_Props
  imports Control_Thread Demo_Apps_Props
begin

text \<open>
  The properties of the control thread: what a ROS 2 subscriber sees of a running client, how the thread ends, and
  how long it sleeps.
\<close>

section \<open>A subscriber\<close>

definition js_message :: "js_params \<Rightarrow> js_value \<Rightarrow> joint_state_msg" where
  "js_message p v = \<lparr> msg_stamp = (jsv_stamp_sec v, jsv_stamp_nanosec v), msg_frame_id = js_frame p, msg_name = js_names p,
     msg_position = the (jsv_positions v), msg_velocity = the (jsv_velocities v), msg_effort = the (jsv_efforts v) \<rparr>"

text \<open>What a subscriber makes of a call: of a put that zenoh accepted the message, if the payload is one, and its number;
  of a put that zenoh refused, nothing.\<close>

definition heard_message :: "zcall \<times> bool \<Rightarrow> (joint_state_msg option \<times> u64) option" where
  "heard_message x = (if snd x then map_option (\<lambda>(p, n). (read_joint_state p, n)) (put_sequence x) else None)"

definition heard_messages :: "zlog \<Rightarrow> (joint_state_msg option \<times> u64) list" where
  "heard_messages xs = List.map_filter heard_message xs"

lemma map_filter_nth: "List.map_filter f xs = List.map_filter (\<lambda>k. f (xs ! k)) [0..<length xs]"
proof -
  have "List.map_filter f (map ((!) xs) ks) = List.map_filter (\<lambda>k. f (xs ! k)) ks" for ks
    by (induction ks) (simp_all split: option.split)
  from this [of "[0..<length xs]"] show ?thesis by (simp add: map_nth)
qed

lemma heard_messages_nth:
  assumes "\<And>k. k < length xs \<Longrightarrow> put_sequence (xs ! k) = Some (p k, n k) \<and> read_joint_state (p k) = Some (m k)"
  shows "heard_messages xs = map (\<lambda>k. (Some (m k), n k)) (filter (\<lambda>k. snd (xs ! k)) [0..<length xs])"
proof -
  have h: "List.map_filter (\<lambda>k. heard_message (xs ! k)) ks =
      List.map_filter (\<lambda>k. if snd (xs ! k) then Some (Some (m k), n k) else None) ks" if "set ks \<subseteq> {..<length xs}" for ks
    using that by (induction ks) (use assms in \<open>simp_all add: heard_message_def\<close>)
  have "List.map_filter (\<lambda>k. heard_message (xs ! k)) [0..<length xs] =
      List.map_filter (\<lambda>k. if snd (xs ! k) then Some (Some (m k), n k) else None) [0..<length xs]" by (rule h) auto
  then show ?thesis unfolding heard_messages_def map_filter_nth [of heard_message xs] by (simp only: map_filter_map_filter)
qed

section \<open>A started client\<close>

lemma client_init_running:
  assumes "client_init SC CC kc env f sp cp scratch cl t = Some (0, cl', t')" and "\<not> cl_initialized cl"
  shows "cl_running cl' \<and> cl_control_freq cl' = f \<and> f \<noteq> 0"
  using assms
  by (auto simp: client_init_def bind_eq_Some_conv Let_def reset_buffers_def dest!: init_base_running)

lemma written_until_ok:
  assumes "list_all (turn_ok P) turns" and "turns \<noteq> [] \<longrightarrow> written (tt_before (hd turns)) \<noteq> []" and "k < length turns"
  shows "written_until turns k \<noteq> [] \<and> P (last (written_until turns k))"
proof -
  have "written_until turns k \<noteq> []" using assms(2,3) by (cases turns; cases k) simp_all
  moreover have "\<forall>v \<in> set (written_until turns k). P v"
    using assms(1) set_take_subset [of "Suc k" turns] by (fastforce simp: written_until_def list_all_iff turn_ok_def)
  ultimately show ?thesis by simp
qed

section \<open>Properties\<close>

text \<open>C1: End to end, over any number of turns of the control thread, whatever zenoh answers: once a Tier 1 client of joint
  states is started, and the application has written a state before the first turn, the thread is never undefined, and
  each turn makes one put, which carries the number of the turn, counted from 1. A ROS 2 subscriber of what zenoh accepts
  hears in the order of the turns, for each turn whose put was accepted, the joint state that was written last before
  that turn, with its number: so the numbers have a gap exactly where zenoh refused a put, and none if zenoh accepts them
  all. In between, the application may write complete joint states and any payloads may arrive; it does not itself
  publish. The clock's nanoseconds fit into 64 bits, and the turns are fewer than \<open>2 ^ 63\<close>.\<close>

theorem joint_thread_publishes_each_turn:
  assumes "transport_reachable (kc_transport kc) (ce_zenoh env) t" and "\<not> cl_initialized cl"
    and "cfg_tier (kc_transport kc) = Tier1" and "stamps_fit kc env (length turns)"
    and "js_fits sp (kc_max_state kc)" and "jc_fits cp (kc_max_cmd kc)" and "length scratch = kc_max_cmd kc"
    and "client_init JointStateCodec JointCommandCodec kc env f sp cp scratch cl t = Some (0, cl1, t1)"
    and "list_all (turn_ok (js_complete sp)) turns" and "turns \<noteq> [] \<longrightarrow> written (tt_before (hd turns)) \<noteq> []"
  shows "\<exists>i ss cl' t' xs. control_thread_fn JointStateCodec kc env now turns (cl1, t1) = Some (ss, cl', t') \<and>
    tr_log t' = tr_log t1 @ xs \<and> length xs = length turns \<and> cl_pub cl1 = Some i \<and>
    (\<forall>k < length turns. \<exists>payload. turn_puts env i payload (tr_log t1 @ take k xs) (xs ! k) \<and>
       put_sequence (xs ! k) = Some (payload, of_nat (Suc k))) \<and>
    heard_messages xs = map (\<lambda>k. (Some (js_message sp (last (written_until turns k))), of_nat (Suc k)))
      (filter (\<lambda>k. snd (xs ! k)) [0..<length turns]) \<and>
    ((\<forall>log c. z_ok (ce_zenoh env) log c) \<longrightarrow>
      heard_messages xs = map (\<lambda>k. (Some (js_message sp (last (written_until turns k))), of_nat (Suc k))) [0..<length turns])"
proof -
  note run = client_init_running [OF assms(8,2)]
  have "cl_running cl1" "cl_control_freq cl1 \<noteq> 0" using run by auto
  from joint_client.fn_puts [where now = now, OF assms(5-7) transport_reachable_inv [OF assms(1)] assms(2,8)
      client_init_zero [OF assms(8)] this assms(4,9)]
  show ?thesis
  proof (elim exE conjE, goal_cases)
    case (1 period i ss cl' t' xs ops)
    let ?v = "\<lambda>k. last (written_until turns k)"
    have p: "\<exists>payload. turn_puts env i payload (tr_log t1 @ take k xs) (xs ! k) \<and>
        put_sequence (xs ! k) = Some (payload, of_nat (Suc k)) \<and> payload = js_wire sp (?v k)" if "k < length turns" for k
      using that 1(8) assms(3) written_until_ok [OF assms(9,10) that] by metis
    have "read_joint_state (js_wire sp (?v k)) = Some (js_message sp (?v k))" if "k < length turns" for k
      using written_until_ok [OF assms(9,10) that] js_wire_read [OF assms(5), of "?v k"] by (simp add: js_message_def)
    then have h: "heard_messages xs = map (\<lambda>k. (Some (js_message sp (?v k)), of_nat (Suc k))) (filter (\<lambda>k. snd (xs ! k)) [0..<length turns])"
      unfolding 1(7) [symmetric] using p by (intro heard_messages_nth [where p = "\<lambda>k. js_wire sp (?v k)"]) (metis 1(7))
    have all: "filter (\<lambda>k. snd (xs ! k)) [0..<length turns] = [0..<length turns]" if "\<forall>log c. z_ok (ce_zenoh env) log c"
      using that p by (fastforce simp: filter_id_conv turn_puts_def)
    have "control_thread_fn JointStateCodec kc env now turns (cl1, t1) = Some (ss, cl', t')"
      using 1(1,3) by (simp add: control_thread_fn_def)
    moreover have "\<forall>k < length turns. \<exists>payload. turn_puts env i payload (tr_log t1 @ take k xs) (xs ! k) \<and>
        put_sequence (xs ! k) = Some (payload, of_nat (Suc k))" using p by blast
    ultimately show ?case using 1(2,6,7) h all
      by (intro exI [of _ i] exI [of _ ss] exI [of _ cl'] exI [of _ t'] exI [of _ xs] conjI impI) simp_all
  qed
qed

text \<open>C19: Once \<open>stop_thread\<close> has cleared the flag, the control thread ends at its next check: after any number of turns
  before it, written to or not, exactly one put per turn has been made, none follows, the flag stays cleared, and nothing on
  the way is undefined, whatever would come after. This holds in both tiers for every client whose codecs keep the
  contract of \<open>codecs.hpp\<close> (\<open>client_codecs\<close>), which the joint state client, with all three arrays or with positions only,
  and the client of raw structs do. The states written are complete for the codec, and the
  application does not itself publish; in Tier 1, which stamps its messages,
  the clock's nanoseconds fit into 64 bits and the turns are fewer than \<open>2 ^ 63\<close>.\<close>

theorem control_thread_stops:
  assumes codecs: "client_codecs SC sfits sctx ready complete enc CC cfits cctx room encodes store"
    and "transport_reachable (kc_transport kc) (ce_zenoh env) t" and "\<not> cl_initialized cl"
    and "sfits sp (kc_max_state kc)" and "cfits cp (kc_max_cmd kc)" and "length scratch = kc_max_cmd kc"
    and "client_init SC CC kc env f sp cp scratch cl t = Some (0, cl1, t1)"
    and "stamps_fit kc env (length turns)" and "list_all (turn_ok (complete sp)) turns"
    and stop: "tt_stop c" "turn_ok (complete sp) (c\<lparr> tt_stop := False \<rparr>)"
  shows "\<exists>i ss cl' t' xs. control_thread_fn SC kc env now (turns @ c # rest) (cl1, t1) = Some (ss, cl', t') \<and>
    length ss = length turns \<and> tr_log t' = tr_log t1 @ xs \<and> length xs = length turns \<and> cl_pub cl1 = Some i \<and>
    (\<forall>k < length turns. \<exists>payload. turn_puts env i payload (tr_log t1 @ take k xs) (xs ! k)) \<and> \<not> cl_running cl'"
proof -
  have "cl_running cl1" "cl_control_freq cl1 \<noteq> 0" using client_init_running [OF assms(7,3)] by auto
  from client_codecs.fn_puts [where now = now, OF codecs assms(4-6) transport_reachable_inv [OF assms(2)] assms(3,7)
      client_init_zero [OF assms(7)] this assms(8,9)]
  show ?thesis
  proof (elim exE conjE, goal_cases)
    case (1 period i ss cl2 t2 xs ops)
    obtain cl3 where p: "perform_all SC kc env (tt_before c) (cl2, t2) = Some (cl3, t2)"
      using client_codecs.perform_all_defined [OF codecs 1(5), of "tt_before c" env] stop(2) by (auto simp: turn_ok_def)
    have "control_thread_fn SC kc env now (turns @ c # rest) (cl1, t1) = Some (ss, cl3\<lparr> cl_running := False \<rparr>, t2)"
      using loop_stop_last [OF 1(3,4) stop(1)] 1(1) p loop_stops [OF stop(1), of SC kc env period turns rest "(now, cl1, t1)"]
      by (simp add: control_thread_fn_def)
    moreover have "\<forall>k < length turns. \<exists>payload. turn_puts env i payload (tr_log t1 @ take k xs) (xs ! k)" using 1(8) by blast
    ultimately show ?case using 1(2,4,6,7)
      by (intro exI [of _ i] exI [of _ ss] exI [of _ "cl3\<lparr> cl_running := False \<rparr>"] exI [of _ t2] exI [of _ xs] conjI) simp_all
  qed
qed

text \<open>The pace: the thread sleeps between 1 millisecond and its period after each publication, across the wrap of the
  uptime, and as long as a sleep lasts at least as long as asked for, two publications start at least a period apart,
  so never more often than the client asked for (rounded to a period of whole milliseconds). But a client slower than
  5 Hz whose publication takes less than 50 milliseconds then sleeps longer than the 200 milliseconds that
  \<open>stop_thread\<close> waits for the thread.\<close>

theorem control_thread_paced:
  assumes "period_ms control_freq = Some period"
    and "unat (published - prev) + unat (woke - published) < 2 ^ 32"
    and "unat (sleep_ms period prev published) \<le> unat (woke - published)"
  shows "1 \<le> unat (sleep_ms period prev published) \<and> unat (sleep_ms period prev published) \<le> unat period \<and>
    unat period \<le> unat (woke - prev) \<and> unat period = max (1000 div unat control_freq) 1 \<and>
    (unat control_freq < 5 \<and> unat (published - prev) < 50 \<longrightarrow> 200 < unat (sleep_ms period prev published))"
proof -
  have p: "unat period = max (1000 div unat control_freq) 1" and f: "control_freq \<noteq> 0"
    using assms(1) by (auto simp: period_ms_def unat_div max_def word_le_nat_alt split: if_splits)
  have "unat ((woke - published) + (published - prev)) = unat (woke - published) + unat (published - prev)"
    using assms(2) by (simp only: unat_word_ariths) simp
  then have w: "unat (woke - prev) = unat (woke - published) + unat (published - prev)" by simp
  have s: "unat (sleep_ms period prev published) = (if unat period \<le> unat (published - prev) then 1
      else unat period - unat (published - prev))"
    by (simp add: sleep_ms_def Let_def word_le_nat_alt unat_sub_if')
  have "250 \<le> 1000 div unat control_freq" if "unat control_freq < 5"
    using that f div_le_mono2 [of "unat control_freq" 4 1000] by (simp add: unat_eq_zero word_neq_0_conv unat_gt_0)
  then show ?thesis using p s w assms(3) by auto
qed

section \<open>Witnesses\<close>

definition demo_turn :: "u64 \<Rightarrow> js_value thread_turn" where
  "demo_turn x = \<lparr> tt_before = [Op_Write (demo_state 1), Op_Receive [1], Op_Write (demo_state x)], tt_stop = False,
     tt_published = 3, tt_woke = 20 \<rparr>"

definition demo_idle :: "bool \<Rightarrow> 'sv thread_turn" where
  "demo_idle stop = \<lparr> tt_before = [], tt_stop = stop, tt_published = 25, tt_woke = 40 \<rparr>"

lemma demo_turns: "turn_ok (js_complete demo_sp) (demo_turn x)" "turn_ok P (demo_idle False)" "n \<le> 3 \<Longrightarrow> stamps_fit kc demo_env n"
    "written (tt_before (demo_turn x)) = [demo_state 1, demo_state x]" "written (tt_before (demo_idle b)) = []" "tt_stop (demo_idle True)"
    "(demo_idle True)\<lparr> tt_stop := False \<rparr> = demo_idle False"
  by (simp_all add: turn_ok_def demo_turn_def demo_idle_def demo_values stamps_fit_def clock_ok_def stamp_fits_def)

text \<open>A zenoh that accepts everything but the message with number 2.\<close>

definition flaky_zenoh :: zenoh_env where
  "flaky_zenoh = quiet_zenoh\<lparr> z_ok := (\<lambda>log c. case c of Z_Publisher_Put i p (Some a) \<Rightarrow> word_of_le (take 8 a) \<noteq> (2 :: u64) | _ \<Rightarrow> True) \<rparr>"

definition flaky_env :: client_env where "flaky_env = demo_env\<lparr> ce_zenoh := flaky_zenoh \<rparr>"

lemma flaky_stamps: "n \<le> 3 \<Longrightarrow> stamps_fit kc flaky_env n"
  by (simp add: stamps_fit_def clock_ok_def stamp_fits_def flaky_env_def flaky_zenoh_def quiet_zenoh_def)

lemma flaky_answers:
  assumes "turn_puts flaky_env i p log x" and "put_sequence x = Some (p, n)"
  shows "snd x \<longleftrightarrow> n \<noteq> 2"
  using assms by (cases x rule: put_sequence.cases) (auto simp: turn_puts_def flaky_env_def flaky_zenoh_def)

lemma demo_start:
  assumes "\<And>log c. (\<forall>i p a. c \<noteq> Z_Publisher_Put i p a) \<Longrightarrow> z_ok (ce_zenoh env) log c"
  obtains cl1 t1 where "client_init JointStateCodec JointCommandCodec (demo_kc tier1_cfg) env 50 demo_sp demo_cp (replicate 256 0)
    demo_client transport_static = Some (0, cl1, t1)"
    "transport_reachable (kc_transport (demo_kc tier1_cfg)) (ce_zenoh env) (transport_static :: ctransport)"
    "js_fits demo_sp (kc_max_state (demo_kc tier1_cfg))" "jc_fits demo_cp (kc_max_cmd (demo_kc tier1_cfg))"
    "length (replicate 256 (0 :: byte)) = kc_max_cmd (demo_kc tier1_cfg)" "cfg_tier (kc_transport (demo_kc tier1_cfg)) = Tier1"
proof -
  have f: "js_fits demo_sp (kc_max_state (demo_kc tier1_cfg))" "jc_fits demo_cp (kc_max_cmd (demo_kc tier1_cfg))"
    using demo_fits by simp_all
  obtain cl1 t1 where i: "client_init JointStateCodec JointCommandCodec (demo_kc tier1_cfg) env 50 demo_sp demo_cp (replicate 256 0)
    demo_client transport_static = Some (0, cl1, t1)"
    using joint_client.client_init_accepts [OF f, of "replicate 256 0" transport_static env 50 demo_client] demo_client_fresh assms
    by auto
  show thesis by (rule that [OF i reach_static f]) (simp_all add: tier1_cfg_def)
qed

text \<open>The second message is refused: the subscriber hears the numbers 1 and 3.\<close>

theorem joint_thread_publishes_each_turn_witness:
  "\<exists>cl1 t1 ss cl' t' xs. client_init JointStateCodec JointCommandCodec (demo_kc tier1_cfg) flaky_env 50 demo_sp demo_cp (replicate 256 0)
      demo_client transport_static = Some (0, cl1, t1) \<and>
    control_thread_fn JointStateCodec (demo_kc tier1_cfg) flaky_env 0 [demo_turn 5, demo_idle False, demo_turn 6] (cl1, t1) =
      Some (ss, cl', t') \<and> tr_log t' = tr_log t1 @ xs \<and> length xs = 3 \<and>
    heard_messages xs = [(Some (js_message demo_sp (demo_state 5)), 1), (Some (js_message demo_sp (demo_state 6)), 3)]"
proof (rule demo_start [of flaky_env])
  show "z_ok (ce_zenoh flaky_env) log c" if "\<forall>i p a. c \<noteq> Z_Publisher_Put i p a" for log c
    using that by (simp add: flaky_env_def flaky_zenoh_def split: zcall.split)
  fix cl1 t1
  let ?ts = "[demo_turn 5, demo_idle False, demo_turn 6]"
  assume i: "client_init JointStateCodec JointCommandCodec (demo_kc tier1_cfg) flaky_env 50 demo_sp demo_cp (replicate 256 0)
      demo_client transport_static = Some (0, cl1, t1)"
    and r: "transport_reachable (kc_transport (demo_kc tier1_cfg)) (ce_zenoh flaky_env) (transport_static :: ctransport)"
    and f: "js_fits demo_sp (kc_max_state (demo_kc tier1_cfg))" "jc_fits demo_cp (kc_max_cmd (demo_kc tier1_cfg))"
      "length (replicate 256 (0 :: byte)) = kc_max_cmd (demo_kc tier1_cfg)" "cfg_tier (kc_transport (demo_kc tier1_cfg)) = Tier1"
  have t: "stamps_fit (demo_kc tier1_cfg) flaky_env (length ?ts)" "list_all (turn_ok (js_complete demo_sp)) ?ts"
    "?ts \<noteq> [] \<longrightarrow> written (tt_before (hd ?ts)) \<noteq> []"
    by (simp_all add: demo_turns flaky_stamps)
  from joint_thread_publishes_each_turn [OF r demo_client_fresh(1) f(4) t(1) f(1-3) i t(2,3), of 0]
  show ?thesis
  proof (elim exE conjE, goal_cases)
    case (1 j ss cl' t' xs)
    have a: "snd (xs ! k) \<longleftrightarrow> of_nat (Suc k) \<noteq> (2 :: u64)" if "k < 3" for k
    proof -
      have "k < length ?ts" using that by simp
      then show ?thesis using 1(5) flaky_answers by blast
    qed
    have "snd (xs ! 0)" "\<not> snd (xs ! 1)" "snd (xs ! 2)" using a [of 0] a [of 1] a [of 2] by simp_all
    then have "heard_messages xs = [(Some (js_message demo_sp (demo_state 5)), 1), (Some (js_message demo_sp (demo_state 6)), 3)]"
      unfolding 1(6) by (simp add: demo_turns upt_rec numeral_2_eq_2 written_until_def)
    then show ?case using i 1(1-3)
      by (intro exI [of _ cl1] exI [of _ t1] exI [of _ ss] exI [of _ cl'] exI [of _ t'] exI [of _ xs] conjI) simp_all
  qed
qed

text \<open>A Tier 1 client of joint states, and a Tier 2 client of structs to which nothing is written before the first turn.\<close>

theorem control_thread_stops_witness:
  "(\<exists>cl1 t1 ss cl' t'. client_init JointStateCodec JointCommandCodec (demo_kc tier1_cfg) demo_env 50 demo_sp demo_cp (replicate 256 0)
      demo_client transport_static = Some (0, cl1, t1) \<and>
    control_thread_fn JointStateCodec (demo_kc tier1_cfg) demo_env 0 [demo_turn 5, demo_turn 6, demo_idle True, demo_turn 7] (cl1, t1) =
      Some (ss, cl', t') \<and> length (tr_log t') = length (tr_log t1) + 2 \<and> \<not> cl_running cl') \<and>
   (\<exists>cl1 t1 ss cl' t'. client_init (RawCodec_state 2) (RawCodec_command 3) (demo_kc tier2_cfg) demo_env 500 () () (replicate 256 0)
      demo_raw_client transport_static = Some (0, cl1, t1) \<and>
    control_thread_fn (RawCodec_state 2) (demo_kc tier2_cfg) demo_env 0 [demo_idle False, demo_idle False, demo_idle True] (cl1, t1) =
      Some (ss, cl', t') \<and> length (tr_log t') = length (tr_log t1) + 2 \<and> \<not> cl_running cl')"
proof (rule conjI)
  show "\<exists>cl1 t1 ss cl' t'. client_init JointStateCodec JointCommandCodec (demo_kc tier1_cfg) demo_env 50 demo_sp demo_cp (replicate 256 0)
      demo_client transport_static = Some (0, cl1, t1) \<and>
    control_thread_fn JointStateCodec (demo_kc tier1_cfg) demo_env 0 [demo_turn 5, demo_turn 6, demo_idle True, demo_turn 7] (cl1, t1) =
      Some (ss, cl', t') \<and> length (tr_log t') = length (tr_log t1) + 2 \<and> \<not> cl_running cl'"
  proof (rule demo_start [of demo_env])
    show "z_ok (ce_zenoh demo_env) log c" for log c by simp
    fix cl1 t1
    assume i: "client_init JointStateCodec JointCommandCodec (demo_kc tier1_cfg) demo_env 50 demo_sp demo_cp (replicate 256 0)
        demo_client transport_static = Some (0, cl1, t1)"
      and r: "transport_reachable (kc_transport (demo_kc tier1_cfg)) (ce_zenoh demo_env) (transport_static :: ctransport)"
      and f: "js_fits demo_sp (kc_max_state (demo_kc tier1_cfg))" "jc_fits demo_cp (kc_max_cmd (demo_kc tier1_cfg))"
        "length (replicate 256 (0 :: byte)) = kc_max_cmd (demo_kc tier1_cfg)"
    let ?ts = "[demo_turn 5, demo_turn 6]"
    have t: "stamps_fit (demo_kc tier1_cfg) demo_env (length ?ts)" "list_all (turn_ok (js_complete demo_sp)) ?ts" by (simp_all add: demo_turns)
    show ?thesis
      using control_thread_stops [OF joint_client.client_codecs_axioms r demo_client_fresh(1) f i t demo_turns(6), of 0 "[demo_turn 7]"] i
      by (fastforce simp: demo_turns)
  qed
next
  let ?kc = "demo_kc tier2_cfg" and ?ts = "[demo_idle False, demo_idle False] :: byte list thread_turn list"
  obtain cl1 t1 where i: "client_init (RawCodec_state 2) (RawCodec_command 3) ?kc demo_env 500 () () (replicate 256 0)
       demo_raw_client transport_static = Some (0, cl1, t1)" by (rule demo_raw_init [of 2 3]) simp_all
  have f: "raw_fits 2 () (kc_max_state ?kc)" "raw_fits 3 () (kc_max_cmd ?kc)" "length (replicate 256 (0 :: byte)) = kc_max_cmd ?kc"
    by (simp_all add: raw_fits_def)
  have t: "stamps_fit ?kc demo_env (length ?ts)" "list_all (turn_ok (raw_object 2 ())) ?ts" by (simp_all add: demo_turns)
  have r: "transport_reachable (kc_transport ?kc) (ce_zenoh demo_env) (transport_static :: ctransport)" by (rule reach_static)
  show "\<exists>cl1 t1 ss cl' t'. client_init (RawCodec_state 2) (RawCodec_command 3) (demo_kc tier2_cfg) demo_env 500 () () (replicate 256 0)
      demo_raw_client transport_static = Some (0, cl1, t1) \<and>
    control_thread_fn (RawCodec_state 2) (demo_kc tier2_cfg) demo_env 0 [demo_idle False, demo_idle False, demo_idle True] (cl1, t1) =
      Some (ss, cl', t') \<and> length (tr_log t') = length (tr_log t1) + 2 \<and> \<not> cl_running cl'"
    using control_thread_stops [OF raw_client.client_codecs_axioms r demo_raw_fresh(1) f i t demo_turns(6), of 0 "[]"] i
    by (fastforce simp: demo_turns)
qed

theorem control_thread_paced_witness:
  "sleep_ms 250 (- 10) 20 = 220 \<and> 200 < unat (sleep_ms 250 (- 10) 20)"
  using control_thread_paced [of 4 250 20 "- 10" 245] by (simp add: period_ms_def sleep_ms_def)

end
