(* ===== verification/Thread_Life_Props.thy ===== *)
theory Thread_Life_Props
  imports Thread_Life Control_Thread_Props
begin

text \<open>
  The properties of the client with its control thread: every interleaving is a run of the sequential client, nothing
  undefined is reached, and when \<open>stop_thread\<close> aborts the thread.
\<close>

section \<open>The view of the sequential client\<close>

text \<open>While \<open>stop_thread\<close> waits, the thread may still finish its turn: for the sequential client the stop has not happened.\<close>

definition sys_view :: "('sc, 'cc) system \<Rightarrow> ('sc, 'cc) client \<times> ctransport" where
  "sys_view s = ((case sy_app s of A_Join a d \<Rightarrow> (sy_client s)\<lparr> cl_running := True \<rparr> | _ \<Rightarrow> sy_client s), sy_transport s)"

definition pc_period :: "u32 \<Rightarrow> thread_pc \<Rightarrow> bool" where
  "pc_period f pc \<longleftrightarrow> (case pc of
     T_Check p t \<Rightarrow> period_ms f = Some p | T_Publish p t \<Rightarrow> period_ms f = Some p | T_Put p t \<Rightarrow> period_ms f = Some p
   | T_Sleep p w \<Rightarrow> period_ms f = Some p | T_Division_By_Zero \<Rightarrow> False | _ \<Rightarrow> True)"

lemma pc_period_simps [simp]: "pc_period f T_Ended" "pc_period f T_Entry"
  by (simp_all add: pc_period_def)

definition sys_inv :: "('sc, 'cc) system \<Rightarrow> bool" where
  "sys_inv s \<longleftrightarrow> (let cl = sy_client s in
     pc_period (cl_control_freq cl) (sy_thread s) \<and> (sy_thread s \<noteq> T_Ended \<longrightarrow> cl_started cl) \<and>
     (case sy_app s of
        A_Idle \<Rightarrow> (cl_started cl \<longrightarrow> sy_thread s \<noteq> T_Ended \<and> sy_thread s \<noteq> T_Leave)
      | A_Join a d \<Rightarrow> cl_started cl \<and> \<not> cl_running cl
      | A_Pause f w \<Rightarrow> cl_initialized cl \<and> f \<noteq> 0 \<and> \<not> cl_started cl
      | A_Created_Twice \<Rightarrow> False) \<and>
     (case sy_app s of A_Join (Then_Start f) d \<Rightarrow> f \<noteq> 0 | A_Join Then_Destroy d \<Rightarrow> True | _ \<Rightarrow> True))"

lemma receive_running:
  "client_receive kc bs (cl\<lparr> cl_running := b \<rparr>) t = map_option (\<lambda>c. c\<lparr> cl_running := b \<rparr>) (client_receive kc bs cl t)"
proof -
  have "on_transport_cmd_cb bs (cl\<lparr> cl_running := b \<rparr>) = map_option (\<lambda>c. c\<lparr> cl_running := b \<rparr>) (on_transport_cmd_cb bs cl)" for bs
    by (cases "write_to_buffer bs (cl_cmd_buffer cl)") (simp_all add: on_transport_cmd_cb_def)
  then show ?thesis
    by (auto simp: client_receive_def split: option.splits Option.bind_splits callback.splits)
qed

lemma publish_running: "zenoh_publish_state kc env (cl\<lparr> cl_running := b \<rparr>) t = zenoh_publish_state kc env cl t"
  by (simp add: zenoh_publish_state_def)

lemma receive_frame:
  assumes "client_receive kc bs cl t = Some c"
  shows "cl_started c = cl_started cl \<and> cl_running c = cl_running cl \<and> cl_control_freq c = cl_control_freq cl \<and>
    cl_initialized c = cl_initialized cl"
  using client_receive_cases [OF assms] by (auto simp: on_transport_cmd_cb_def bind_eq_Some_conv split: if_splits)

lemma write_frame:
  assumes "write_state SC v cl = Some c"
  shows "cl_started c = cl_started cl \<and> cl_running c = cl_running cl \<and> cl_control_freq c = cl_control_freq cl \<and>
    cl_initialized c = cl_initialized cl"
  using assms by (auto simp: write_state_def Let_def bind_eq_Some_conv split: if_splits)

lemma stop_running: "cl_started cl \<Longrightarrow> stop_thread env (cl\<lparr> cl_running := b \<rparr>) =
    cl\<lparr> cl_running := False, cl_thread_alive := False, cl_started := False, cl_control_freq := 0 \<rparr>"
  by (simp add: stop_thread_def Let_def)

section \<open>The simulation\<close>

lemma sys_live_started:
  assumes "client_reachable SC CC kc env (sys_view s)" and "cl_started (sy_client s)"
  shows "cl_initialized (sy_client s) \<and> cl_thread_alive (sy_client s) \<and> cl_control_freq (sy_client s) \<noteq> 0 \<and>
    (sy_app s = A_Idle \<longrightarrow> cl_running (sy_client s))"
  using client_reachable_live [OF assms(1)] assms(2) by (auto simp: client_live_def sys_view_def split: app_pc.splits)

lemma stop_begin_view:
  assumes r: "client_reachable SC CC kc env (sys_view s)" and i: "sys_inv s" and a: "sy_app s = A_Idle"
    and f: "\<And>f. a = Then_Start f \<Longrightarrow> f \<noteq> 0 \<and> cl_started (sy_client s)"
    and d: "a = Then_Destroy \<Longrightarrow> cl_initialized (sy_client s)"
  shows "client_reachable SC CC kc env (sys_view (stop_begin kc env a s)) \<and> sys_inv (stop_begin kc env a s)"
proof (cases "cl_started (sy_client s)")
  case True
  have "sys_view (stop_begin kc env a s) = sys_view s"
    using sys_live_started [OF r True] a True by (simp add: sys_view_def stop_begin_def)
  then show ?thesis
    using r i a True f by (auto simp: stop_begin_def sys_inv_def Let_def split: continuation.splits)
next
  case False
  have v: "sys_view s = (sy_client s, sy_transport s)" using a by (simp add: sys_view_def)
  show ?thesis
  proof (cases a)
    case Then_Destroy
    then have "sys_view (stop_begin kc env a s) = client_destroy kc env (sy_client s) (sy_transport s)"
      using False d by (simp add: stop_begin_def after_stop_def sys_view_def client_destroy_def stop_thread_def Let_def)
    then have "client_reachable SC CC kc env (sys_view (stop_begin kc env a s))"
      using cr_step [OF r [unfolded v] cs_destroy] by simp
    then show ?thesis
      using i a False Then_Destroy by (simp add: stop_begin_def after_stop_def sys_inv_def Let_def)
  qed (use False f r i a in \<open>simp_all add: stop_begin_def after_stop_def sys_view_def sys_inv_def Let_def\<close>)
qed

lemma stop_end_view:
  assumes r: "client_reachable SC CC kc env (sys_view s)" and i: "sys_inv s" and a: "sy_app s = A_Join a d"
  shows "client_reachable SC CC kc env (sys_view (stop_end kc env a s)) \<and> sys_inv (stop_end kc env a s)"
proof -
  let ?cl = "(sy_client s)\<lparr> cl_running := True \<rparr>"
  have v: "sys_view s = (?cl, sy_transport s)" using a by (simp add: sys_view_def)
  have c: "cl_started (sy_client s)" "\<not> cl_running (sy_client s)" using i a by (simp_all add: sys_inv_def Let_def)
  have s: "stop_thread env ?cl = (sy_client s)\<lparr> cl_thread_alive := False, cl_started := False, cl_control_freq := 0 \<rparr>"
    using stop_running [OF c(1)] c(2) by simp
  have init: "cl_initialized (sy_client s)" using sys_live_started [OF r c(1)] by simp
  show ?thesis
  proof (cases a)
    case Then_Destroy
    have "sys_view (stop_end kc env a s) = client_destroy kc env ?cl (sy_transport s)"
      using Then_Destroy init by (simp add: stop_end_def after_stop_def sys_view_def client_destroy_def s Let_def)
    then show ?thesis
      using cr_step [OF r [unfolded v] cs_destroy] Then_Destroy
      by (simp add: stop_end_def after_stop_def sys_inv_def pc_period_def Let_def)
  next
    case Then_Return
    have "sys_view (stop_end kc env a s) = (stop_thread env ?cl, sy_transport s)"
      using Then_Return by (simp add: stop_end_def after_stop_def sys_view_def s)
    then show ?thesis
      using cr_step [OF r [unfolded v] cs_stop] Then_Return
      by (simp add: stop_end_def after_stop_def sys_inv_def pc_period_def Let_def)
  next
    case (Then_Start f)
    have "sys_view (stop_end kc env a s) = (stop_thread env ?cl, sy_transport s)"
      using Then_Start by (simp add: stop_end_def after_stop_def sys_view_def s)
    moreover have "f \<noteq> 0" using i a Then_Start by (simp add: sys_inv_def Let_def)
    ultimately show ?thesis
      using cr_step [OF r [unfolded v] cs_stop] Then_Start init
      by (simp add: stop_end_def after_stop_def sys_inv_def pc_period_def Let_def)
  qed
qed

lemma create_thread_view:
  assumes r: "client_reachable SC CC kc env (sys_view s)" and i: "sys_inv s"
    and c: "cl_initialized (sy_client s)" "f \<noteq> 0" "\<not> cl_started (sy_client s)" and a: "\<And>a d. sy_app s \<noteq> A_Join a d"
  shows "client_reachable SC CC kc env (sys_view (create_thread lag f s)) \<and> sys_inv (create_thread lag f s)"
proof -
  have v: "sys_view s = (sy_client s, sy_transport s)" using a by (auto simp: sys_view_def split: app_pc.splits)
  have e: "sy_thread s = T_Ended" using i c(3) by (auto simp: sys_inv_def Let_def)
  have "\<not> cl_thread_alive (sy_client s)" using client_reachable_live [OF r [unfolded v]] c(3) by (simp add: client_live_def)
  then have "start_thread env f (sy_client s) = Some (0, (sy_client s)\<lparr> cl_control_freq := f, cl_running := True,
      cl_thread_alive := True, cl_started := True \<rparr>)"
    using c by (simp add: start_thread_def Let_def)
  from cr_step [OF r [unfolded v] cs_start [OF this]] show ?thesis
    using e by (simp add: create_thread_def sys_view_def sys_inv_def pc_period_def Let_def)
qed

lemma thread_run_view:
  assumes r: "client_reachable SC CC kc env (sys_view s)" and i: "sys_inv s" and t: "thread_run kc env lag s = Some s'"
  shows "client_reachable SC CC kc env (sys_view s') \<and> sys_inv s'"
proof (cases "sy_thread s")
  case T_Entry
  then have "cl_started (sy_client s)" using i by (simp add: sys_inv_def Let_def)
  then obtain p where "period_ms (cl_control_freq (sy_client s)) = Some p"
    using sys_live_started [OF r] by (auto simp: period_ms_def)
  then show ?thesis
    using r i t T_Entry by (auto simp: thread_run_def sys_view_def sys_inv_def pc_period_def Let_def split: app_pc.splits)
next
  case (T_Check p prev)
  then have c: "cl_started (sy_client s)" using i by (simp add: sys_inv_def Let_def)
  show ?thesis
    using r i t T_Check sys_live_started [OF r c]
    by (auto simp: thread_run_def sys_view_def sys_inv_def pc_period_def Let_def split: app_pc.splits)
next
  case (T_Publish p prev)
  then obtain ret t' where q: "zenoh_publish_state kc env (sy_client s) (sy_transport s) = Some (ret, t')"
      "s' = s\<lparr> sy_transport := t', sy_thread := T_Put p prev \<rparr>"
    using t by (auto simp: thread_run_def bind_eq_Some_conv)
  have "zenoh_publish_state kc env (fst (sys_view s)) (snd (sys_view s)) = Some (ret, t')"
    using q(1) by (simp add: sys_view_def publish_running split: app_pc.splits)
  then have "perform SC kc env Op_Publish (sys_view s) = Some (fst (sys_view s), t')" by (cases "sys_view s") simp
  from cr_step [OF r cs_op [OF this]] have "client_reachable SC CC kc env (sys_view s')"
    by (simp add: q(2) sys_view_def split: app_pc.splits)
  then show ?thesis using i T_Publish by (auto simp: q(2) sys_inv_def pc_period_def Let_def split: app_pc.splits)
next
  case T_Leave
  then obtain a d where "sy_app s = A_Join a d" using i by (auto simp: sys_inv_def Let_def split: app_pc.splits)
  then show ?thesis
    using r i t T_Leave by (auto simp: thread_run_def sys_view_def sys_inv_def pc_period_def Let_def)
qed (use r i t in \<open>auto simp: thread_run_def sys_view_def sys_inv_def pc_period_def Let_def split: app_pc.splits if_splits\<close>)

lemma sys_step_view:
  assumes r: "client_reachable SC CC kc env (sys_view s)" and i: "sys_inv s" and st: "sys_step SC CC kc env lag s s'"
  shows "client_reachable SC CC kc env (sys_view s') \<and> sys_inv s'"
  using st
proof cases
  case (app_init f sp cp scratch r1 cl' t')
  have v: "sys_view s = (sy_client s, sy_transport s)" using app_init(2) by (simp add: sys_view_def)
  have "client_reachable SC CC kc env (cl', t')" using cr_step [OF r [unfolded v] cs_init [OF app_init(3)]] .
  moreover have "sys_inv s'"
  proof (cases "cl_started (sy_client s)")
    case True
    then have "cl' = sy_client s" "t' = sy_transport s"
      using sys_live_started [OF r] app_init(3) by (auto simp: client_init_def)
    then show ?thesis using i app_init(1,2) True by (simp add: sys_inv_def Let_def)
  next
    case False
    then have "sy_thread s = T_Ended" using i by (auto simp: sys_inv_def Let_def)
    then show ?thesis using app_init(1,2) False by (simp add: sys_inv_def Let_def)
  qed
  ultimately show ?thesis using app_init(1,2) by (simp add: sys_view_def)
next
  case (app_start f)
  then show ?thesis
    using r i stop_begin_view [OF r i app_start(2), of "Then_Start f"] create_thread_view [OF r i, of f]
    by (auto simp: call_start_def)
next
  case app_stop
  then show ?thesis using stop_begin_view [OF r i app_stop(2), of Then_Return] by simp
next
  case app_destroy
  then show ?thesis using r i stop_begin_view [OF r i app_destroy(2), of Then_Destroy] by (simp add: call_destroy_def)
next
  case (app_write v cl')
  have "perform SC kc env (Op_Write v) (sys_view s) = Some (cl', sy_transport s)" using app_write by (simp add: sys_view_def)
  from cr_step [OF r cs_op [OF this]] show ?thesis
    using i app_write(1,2) write_frame [OF app_write(3)] by (simp add: sys_view_def sys_inv_def Let_def)
next
  case (app_publish r1 t')
  have "perform SC kc env Op_Publish (sys_view s) = Some (sy_client s, t')" using app_publish by (simp add: sys_view_def)
  from cr_step [OF r cs_op [OF this]] show ?thesis
    using i app_publish(1,2) by (simp add: sys_view_def sys_inv_def Let_def)
next
  case (app_joined a d)
  then show ?thesis using stop_end_view [OF r i app_joined(2)] by simp
next
  case (app_aborts a d)
  then show ?thesis using stop_end_view [OF r i app_aborts(2)] by simp
next
  case (app_resumes f w)
  then show ?thesis using i create_thread_view [OF r i, of f] by (simp add: sys_inv_def Let_def)
next
  case (zenoh_delivers bs cl')
  have "perform SC kc env (Op_Receive bs) (sys_view s) = Some (sys_view s')"
    using zenoh_delivers by (simp add: sys_view_def receive_running split: app_pc.splits)
  from cr_step [OF r cs_op [OF this]] show ?thesis
    using i zenoh_delivers(1) receive_frame [OF zenoh_delivers(2)] by (simp add: sys_inv_def Let_def split: app_pc.splits)
next
  case thread_runs
  then show ?thesis using thread_run_view [OF r i] by simp
next
  case clock_ticks
  then show ?thesis using r i by (simp add: sys_view_def sys_inv_def Let_def split: app_pc.splits)
qed

lemma sys_reachable_view:
  "sys_reachable SC CC kc env lag s \<Longrightarrow> client_reachable SC CC kc env (sys_view s) \<and> sys_inv s"
proof (induction rule: sys_reachable.induct)
  case (sys_start sctx cctx)
  have "\<not> cl_started (client_new kc sctx cctx)" by (simp add: client_new_def reset_buffers_def)
  then show ?case using cr_new by (simp add: sys_view_def sys_new_def sys_inv_def)
next
  case (sys_next s s')
  then show ?case using sys_step_view by blast
qed

section \<open>Deadlines\<close>

text \<open>The times of a system whose control thread takes at most \<open>l\<close> milliseconds for a turn; \<open>c\<close> is when \<open>stop_thread\<close>
  cleared the flag.\<close>

definition pc_timely :: "nat \<Rightarrow> nat \<Rightarrow> nat \<Rightarrow> thread_pc \<Rightarrow> bool" where
  "pc_timely l now due pc \<longleftrightarrow> (case pc of
     T_Ended \<Rightarrow> True
   | T_Sleep p w \<Rightarrow> due = w + l \<and> w \<le> now + unat p \<and> now \<le> due
   | _ \<Rightarrow> now \<le> due \<and> due \<le> now + l)"

definition pc_stopping :: "u32 \<Rightarrow> nat \<Rightarrow> nat \<Rightarrow> nat \<Rightarrow> thread_pc \<Rightarrow> bool" where
  "pc_stopping f l due c pc \<longleftrightarrow> (case pc of
     T_Entry \<Rightarrow> due \<le> c + l
   | T_Publish p t \<Rightarrow> due \<le> c + l
   | T_Put p t \<Rightarrow> due \<le> c + l
   | T_Sleep p w \<Rightarrow> w \<le> c + l + unat p
   | T_Check p t \<Rightarrow> due \<le> c + 2 * l + unat p
   | T_Leave \<Rightarrow> (\<exists>p. period_ms f = Some p \<and> due \<le> c + 2 * l + unat p)
   | _ \<Rightarrow> True)"

lemma pc_timely_simps [simp]: "pc_timely l now (now + l) T_Entry" "pc_timely l now due T_Ended"
  by (simp_all add: pc_timely_def)

definition timely :: "nat \<Rightarrow> ('sc, 'cc) system \<Rightarrow> bool" where
  "timely l s \<longleftrightarrow> pc_timely l (sy_now s) (sy_due s) (sy_thread s) \<and>
     (\<forall>a d. sy_app s = A_Join a d \<longrightarrow> (\<exists>c. d = c + 200 \<and> c \<le> sy_now s \<and>
        pc_stopping (cl_control_freq (sy_client s)) l (sy_due s) c (sy_thread s)))"

lemma sleep_le_period:
  assumes "period_ms f = Some p"
  shows "unat (sleep_ms p prev now) \<le> unat p"
proof -
  have "1 \<le> unat p" using assms by (auto simp: period_ms_def unat_div max_def word_le_nat_alt split: if_splits)
  then show ?thesis by (simp add: sleep_ms_def Let_def word_le_nat_alt unat_sub_if')
qed

lemma timely_stop_begin: "timely l s \<Longrightarrow> sys_inv s \<Longrightarrow> sy_app s = A_Idle \<Longrightarrow> timely l (stop_begin kc env a s)"
  by (auto simp: timely_def stop_begin_def after_stop_def pc_timely_def pc_stopping_def sys_inv_def Let_def
      split: continuation.splits thread_pc.splits)

lemma timely_no_thread: "\<not> (\<exists>a d. sy_app s = A_Join a d) \<Longrightarrow> sy_thread s = T_Ended \<Longrightarrow> timely l s"
  by (simp add: timely_def pc_timely_def)

lemma timely_stop_end: "timely l (stop_end kc env a s)"
  by (rule timely_no_thread) (auto simp: stop_end_def after_stop_def split: continuation.splits)

lemma timely_create: "timely l s \<Longrightarrow> \<not> (\<exists>a d. sy_app s = A_Join a d) \<Longrightarrow> timely l (create_thread (Some l) f s)"
  by (cases "sy_thread s = T_Ended") (simp_all add: create_thread_def timely_def due_after_def)

lemma timely_thread_run:
  assumes t: "timely l s" and i: "sys_inv s" and r: "thread_run kc env (Some l) s = Some s'"
  shows "timely l s'"
proof (cases "sy_thread s")
  case T_Entry
  then show ?thesis
    using t r by (auto simp: thread_run_def timely_def pc_timely_def pc_stopping_def split: option.splits)
next
  case (T_Check p prev)
  have "period_ms (cl_control_freq (sy_client s)) = Some p" using i T_Check by (simp add: sys_inv_def pc_period_def Let_def)
  moreover have "\<not> cl_running (sy_client s)" if "sy_app s = A_Join a d" for a d using i that by (simp add: sys_inv_def Let_def)
  ultimately show ?thesis using t r T_Check by (fastforce simp: thread_run_def timely_def pc_timely_def pc_stopping_def)
next
  case (T_Publish p prev)
  then show ?thesis
    using t r by (fastforce simp: thread_run_def timely_def pc_timely_def pc_stopping_def bind_eq_Some_conv)
next
  case (T_Put p prev)
  let ?w = "sy_now s + unat (sleep_ms p prev (uptime s))"
  have "period_ms (cl_control_freq (sy_client s)) = Some p" using i T_Put by (simp add: sys_inv_def pc_period_def Let_def)
  then have w: "?w \<le> sy_now s + unat p" using sleep_le_period by simp
  have "s' = s\<lparr> sy_thread := T_Sleep p ?w, sy_due := ?w + l \<rparr>" using r T_Put by (simp add: thread_run_def due_after_def Let_def)
  then show ?thesis using t w T_Put by (fastforce simp: timely_def pc_timely_def pc_stopping_def)
next
  case (T_Sleep p w)
  then show ?thesis
    using t r by (fastforce simp: thread_run_def timely_def pc_timely_def pc_stopping_def split: if_splits)
next
  case T_Leave
  then show ?thesis using t r by (auto simp: thread_run_def timely_def pc_timely_def pc_stopping_def)
qed (use r in \<open>simp_all add: thread_run_def\<close>)

lemma timely_step:
  assumes t: "timely l s" and i: "sys_inv s" and st: "sys_step SC CC kc env (Some l) s s'"
  shows "timely l s'"
  using st
proof cases
  case (app_start f)
  then show ?thesis using t i timely_stop_begin [OF t i] timely_create [OF t] by (auto simp: call_start_def)
next
  case app_destroy
  then show ?thesis using t timely_stop_begin [OF t i] by (simp add: call_destroy_def)
next
  case (app_resumes f w)
  then show ?thesis using timely_create [OF t] by simp
next
  case (zenoh_delivers bs cl')
  then show ?thesis using t receive_frame [OF zenoh_delivers(2)] by (simp add: timely_def)
next
  case thread_runs
  then show ?thesis using timely_thread_run [OF t i] by simp
next
  case clock_ticks
  then show ?thesis using t by (fastforce simp: timely_def pc_timely_def tick_allowed_def split: thread_pc.splits)
next
  case app_stop
  then show ?thesis using timely_stop_begin [OF t i] by simp
next
  case (app_joined a d)
  then show ?thesis using timely_stop_end by simp
next
  case (app_aborts a d)
  then show ?thesis using timely_stop_end by simp
qed (use t in \<open>auto simp: timely_def due_after_def\<close>)

lemma sys_reachable_timely: "sys_reachable SC CC kc env (Some l) s \<Longrightarrow> timely l s"
proof (induction rule: sys_reachable.induct)
  case (sys_start sctx cctx)
  show ?case by (rule timely_no_thread) (simp_all add: sys_new_def)
next
  case (sys_next s s')
  then show ?case using timely_step sys_reachable_view by blast
qed

section \<open>Properties\<close>

text \<open>C8: However the calls of the application, the control thread, the deliveries of zenoh and the clock interleave, the client is
  in a state that the sequential client reaches by the same calls, where a stop takes effect when \<open>stop_thread\<close> has
  waited. The thread never divides by zero, although \<open>stop_thread\<close> clears the frequency; no thread is created while one
  exists; whenever the thread is in a publication the session is open and its publisher declared; and between two calls
  there is a thread exactly if it was started.\<close>

theorem threads_refine_client:
  assumes "sys_reachable SC CC kc env lag s"
  shows "client_reachable SC CC kc env (sys_view s) \<and>
    sy_thread s \<noteq> T_Division_By_Zero \<and> sy_app s \<noteq> A_Created_Twice \<and>
    (\<forall>p t. sy_thread s \<in> {T_Publish p t, T_Put p t} \<longrightarrow> cl_initialized (sy_client s) \<and> tr_initialized (sy_transport s) \<and>
      (\<exists>i. cl_pub (sy_client s) = Some i \<and> i \<in> used_pubs (sy_transport s))) \<and>
    (sy_app s = A_Idle \<longrightarrow> (sy_thread s \<noteq> T_Ended \<longleftrightarrow> cl_started (sy_client s)))"
proof -
  have r: "client_reachable SC CC kc env (sys_view s)" and i: "sys_inv s" using sys_reachable_view [OF assms] by simp_all
  have l: "client_live kc (sys_view s)" using r by (rule client_reachable_live)
  have "cl_initialized (sy_client s) \<and> tr_initialized (sy_transport s) \<and>
      (\<exists>i. cl_pub (sy_client s) = Some i \<and> i \<in> used_pubs (sy_transport s))" if "sy_thread s \<in> {T_Publish p t, T_Put p t}" for p t
  proof -
    have "cl_started (sy_client s)" using i that by (auto simp: sys_inv_def Let_def)
    then show ?thesis using l sys_live_started [OF r] by (auto simp: client_live_def sys_view_def split: app_pc.splits)
  qed
  moreover have "sy_thread s \<noteq> T_Division_By_Zero" using i by (auto simp: sys_inv_def pc_period_def Let_def)
  ultimately show ?thesis using r i by (auto simp: sys_inv_def Let_def)
qed

text \<open>C20: When \<open>stop_thread\<close> aborts the thread: if every turn of the thread takes at most \<open>l\<close> milliseconds, counted from when it
  should have woken up, then \<open>stop_thread\<close> finds it still running after its 200 milliseconds only if the period and
  twice \<open>l\<close> add up to at least that; so a client of 50 Hz whose turns take less than 90 milliseconds always ends by
  itself. And whatever the frequency, a turn shorter than 200 milliseconds is never cut off within its publication: what
  is aborted then has yet to start, sleeps, or has seen that it should stop.\<close>

theorem stop_spares_publication:
  assumes "sys_reachable SC CC kc env (Some l) s" and "sy_app s = A_Join a deadline" and "deadline \<le> sy_now s"
    and "sy_thread s \<noteq> T_Ended"
  shows "(\<exists>p. period_ms (cl_control_freq (sy_client s)) = Some p \<and> 200 \<le> unat p + 2 * l) \<and>
    (l < 200 \<longrightarrow> (\<forall>p t. sy_thread s \<notin> {T_Publish p t, T_Put p t}))"
proof -
  have r: "client_reachable SC CC kc env (sys_view s)" and i: "sys_inv s" using sys_reachable_view [OF assms(1)] by simp_all
  have t: "timely l s" using assms(1) by (rule sys_reachable_timely)
  obtain c where c: "deadline = c + 200" "pc_stopping (cl_control_freq (sy_client s)) l (sy_due s) c (sy_thread s)"
    using t assms(2) by (auto simp: timely_def)
  have now: "sy_now s \<le> sy_due s" using t assms(4) by (auto simp: timely_def pc_timely_def split: thread_pc.splits)
  have "cl_started (sy_client s)" using i assms(4) by (simp add: sys_inv_def Let_def)
  then obtain p where p: "period_ms (cl_control_freq (sy_client s)) = Some p"
    using sys_live_started [OF r] by (auto simp: period_ms_def)
  have q: "p' = p" if "sy_thread s \<in> {T_Check p' x, T_Publish p' x, T_Put p' x, T_Sleep p' w}" for p' x w
    using i that p by (auto simp: sys_inv_def pc_period_def Let_def)
  show ?thesis
  proof (cases "sy_thread s")
    case (T_Sleep p' w)
    have "p' = p" using q T_Sleep by blast
    moreover have "sy_due s = w + l" using t T_Sleep by (simp add: timely_def pc_timely_def)
    ultimately show ?thesis using c now p assms(3) T_Sleep by (simp add: pc_stopping_def)
  next
    case (T_Check p' x)
    have "p' = p" using q T_Check by blast
    then show ?thesis using c now p assms(3) T_Check by (simp add: pc_stopping_def)
  qed (use c now p assms(3,4) i in \<open>auto simp: pc_stopping_def sys_inv_def pc_period_def Let_def\<close>)
qed

text \<open>Without such a bound the publication is cut off: when zenoh takes longer than 200 milliseconds to send, for example over a
  bad WiFi connection, \<open>k_thread_abort\<close> ends the thread inside of zenoh, whose locks it may hold, and \<open>destroy\<close> goes on to close
  the session.\<close>

definition cut_off :: "('sc, 'cc) system \<Rightarrow> bool" where
  "cut_off s \<longleftrightarrow> (\<exists>d p t. sy_app s = A_Join Then_Destroy d \<and> d \<le> sy_now s \<and> sy_thread s = T_Put p t)"

section \<open>Witnesses\<close>

lemma tier2_publish_defined:
  assumes "cfg_tier cfg = Tier2" and "i \<in> used_pubs t"
  shows "\<exists>r t'. zenbedded_transport_publish cfg env (Some i) payload t = Some (r, t')"
proof -
  have "i < length (tr_pubs t) \<and> pub_in_use (tr_pubs t ! i)" using assms(2) used_pubs_iff by blast
  then show ?thesis using assms(1) by (simp add: zenbedded_transport_publish_def zcall_conv)
qed

lemma sys_ticks:
  assumes "sys_reachable SC CC kc env lag s" and "lag = None \<or> sy_now s + n \<le> sy_due s"
  shows "sys_reachable SC CC kc env lag (s\<lparr> sy_now := sy_now s + n \<rparr>)"
  using assms(2)
proof (induction n)
  case (Suc n)
  let ?s = "s\<lparr> sy_now := sy_now s + n \<rparr>"
  have "tick_allowed lag ?s" using Suc.prems by (auto simp: tick_allowed_def)
  from sys_next [OF _ clock_ticks [OF this]] show ?case using Suc by auto
qed (use assms(1) in simp)

abbreviation demo_sys where "demo_sys lag s \<equiv> sys_reachable (RawCodec_state 2) (RawCodec_command 3) (demo_kc tier2_cfg) demo_env lag s"

text \<open>A client of 2 Hz, right after its first publication.\<close>

lemma demo_put:
  obtains s where "demo_sys lag s" "sy_thread s = T_Put 500 0" "sy_app s = A_Idle" "sy_now s = 0" "cl_started (sy_client s)"
    "cl_initialized (sy_client s)"
proof -
  let ?kc = "demo_kc tier2_cfg"
  have f: "raw_fits 2 () (kc_max_state ?kc)" "raw_fits 3 () (kc_max_cmd ?kc)"
    "length (replicate 256 (0 :: byte)) = kc_max_cmd ?kc" by (simp_all add: raw_fits_def)
  let ?s0 = "sys_new ?kc () ()"
  have n: "sy_client ?s0 = demo_raw_client" "sy_transport ?s0 = transport_static" "sy_app ?s0 = A_Idle" "sy_now ?s0 = 0"
    by (simp_all add: sys_new_def demo_raw_client_def)
  obtain cl1 t1 where i: "client_init (RawCodec_state 2) (RawCodec_command 3) ?kc demo_env 2 () () (replicate 256 0)
       demo_raw_client transport_static = Some (0, cl1, t1)" "cl_initialized cl1" "cl_thread_alive cl1" "cl_running cl1"
       "cl_control_freq cl1 = 2"
    using raw_client.client_init_accepts [OF f, of transport_static demo_env 2 demo_raw_client] demo_raw_fresh by auto
  define s1 where "s1 = ?s0\<lparr> sy_client := cl1, sy_transport := t1, sy_thread := T_Entry, sy_due := due_after lag 0 \<rparr>"
  have u: "raw_client.up 2 3 ?kc () () [] (cl1, t1)"
    by (rule raw_client.up_init [OF f demo_raw_fresh(1) _ i(1,2)]) simp
  have r0: "demo_sys lag ?s0" by (rule sys_start)
  have live: "client_live ?kc (cl1, t1)"
    by (rule client_init_live [OF _ i(1)]) (simp add: client_live_def demo_raw_client_def client_new_def reset_buffers_def)
  then have st: "cl_started cl1" using i(3) by (simp add: client_live_def)
  have r1: "demo_sys lag s1"
    using sys_next [OF r0 app_init [OF n(3), unfolded n(1,2), OF i(1)]] st demo_raw_fresh by (simp add: s1_def n)
  obtain cl2 where w: "write_state (RawCodec_state 2) [1, 2] cl1 = Some cl2" "raw_client.up 2 3 ?kc () () ([] @ [Op_Write [1, 2]]) (cl2, t1)"
    using raw_client.up_write [OF u, of "[1, 2]"] by (auto simp: raw_object_def)
  define s2 where "s2 = s1\<lparr> sy_client := cl2 \<rparr>"
  have s1: "sy_app s1 = A_Idle" "sy_client s1 = cl1" by (simp_all add: s1_def n)
  have r2: "demo_sys lag s2" using sys_next [OF r1 app_write [OF s1(1), unfolded s1(2), OF w(1)]] by (simp add: s2_def)
  have p: "period_ms (cl_control_freq cl2) = Some 500" using write_frame [OF w(1)] i(5) by (simp add: period_ms_def)
  define s3 where "s3 = s2\<lparr> sy_thread := T_Check 500 0 \<rparr>"
  have "thread_run ?kc demo_env lag s2 = Some s3" using p by (simp add: thread_run_def s2_def s1_def s3_def uptime_def n)
  from sys_next [OF r2 thread_runs [OF this]] have r3: "demo_sys lag s3" .
  define s4 where "s4 = s3\<lparr> sy_thread := T_Publish 500 0 \<rparr>"
  have "thread_run ?kc demo_env lag s3 = Some s4" using write_frame [OF w(1)] i(4)
    by (simp add: thread_run_def s4_def s3_def s2_def)
  from sys_next [OF r3 thread_runs [OF this]] have r4: "demo_sys lag s4" .
  have "\<exists>i. cl_pub cl2 = Some i \<and> i \<in> used_pubs t1"
    using w(2) unfolding raw_client.up_def raw_client.up_static_def by simp
  then obtain ret t2 where q: "zenoh_publish_state ?kc demo_env cl2 t1 = Some (ret, t2)"
    using raw_client.publish_up [OF w(2), of demo_env] tier2_publish_defined [of "kc_transport ?kc"]
    by (fastforce simp: tier2_cfg_def)
  define s5 where "s5 = s4\<lparr> sy_transport := t2, sy_thread := T_Put 500 0 \<rparr>"
  have "thread_run ?kc demo_env lag s4 = Some s5" using q by (simp add: thread_run_def s5_def s4_def s3_def s2_def s1_def)
  from sys_next [OF r4 thread_runs [OF this]] have r5: "demo_sys lag s5" .
  show thesis
    by (rule that [OF r5]) (use write_frame [OF w(1)] st i(2) in \<open>simp_all add: s5_def s4_def s3_def s2_def s1_def n\<close>)
qed

theorem threads_refine_client_witness:
  "\<exists>s. demo_sys (Some 10) s \<and> sy_thread s = T_Put 500 0 \<and> cl_initialized (sy_client s) \<and> tr_initialized (sy_transport s)"
proof (rule demo_put [of "Some 10"])
  fix s assume s: "demo_sys (Some 10) s" "sy_thread s = T_Put 500 0"
  from threads_refine_client [OF s(1)] s show ?thesis by auto
qed

theorem stop_spares_publication_witness:
  "\<exists>s. demo_sys (Some 10) s \<and> sy_app s = A_Join Then_Return 200 \<and> sy_now s = 200 \<and> sy_thread s = T_Sleep 500 500 \<and>
    (\<forall>p t. sy_thread s \<notin> {T_Publish p t, T_Put p t})"
proof (rule demo_put [of "Some 10"])
  fix s assume s: "demo_sys (Some 10) s" "sy_thread s = T_Put 500 0" "sy_app s = A_Idle" "sy_now s = 0" "cl_started (sy_client s)"
  define s1 where "s1 = s\<lparr> sy_thread := T_Sleep 500 500, sy_due := 510 \<rparr>"
  have "thread_run (demo_kc tier2_cfg) demo_env (Some 10) s = Some s1"
    by (simp add: thread_run_def s s1_def uptime_def sleep_ms_def due_after_def)
  from sys_next [OF s(1) thread_runs [OF this]] have r1: "demo_sys (Some 10) s1" .
  define s2 where "s2 = stop_begin (demo_kc tier2_cfg) demo_env Then_Return s1"
  have a1: "sy_app s1 = A_Idle" by (simp add: s1_def s)
  from sys_next [OF r1 app_stop [OF a1]] have r2: "demo_sys (Some 10) s2" by (simp add: s2_def)
  have s2: "sy_app s2 = A_Join Then_Return 200" "sy_now s2 = 0" "sy_due s2 = 510" "sy_thread s2 = T_Sleep 500 500"
    by (simp_all add: s2_def stop_begin_def s1_def s)
  have r3: "demo_sys (Some 10) (s2\<lparr> sy_now := 200 \<rparr>)" using sys_ticks [OF r2, of 200] s2 by simp
  show ?thesis using stop_spares_publication [OF r3, of Then_Return 200] r3 s2 by (intro exI [of _ "s2\<lparr> sy_now := 200 \<rparr>"]) simp
qed

lemma stop_may_cut_publication: "\<exists>s. demo_sys None s \<and> cut_off s"
proof (rule demo_put [of None])
  fix s assume s: "demo_sys None s" "sy_thread s = T_Put 500 0" "sy_app s = A_Idle" "sy_now s = 0" "cl_started (sy_client s)"
    "cl_initialized (sy_client s)"
  define s1 where "s1 = call_destroy (demo_kc tier2_cfg) demo_env s"
  from sys_next [OF s(1) app_destroy [OF s(3)]] have r1: "demo_sys None s1" by (simp add: s1_def)
  have s1: "sy_app s1 = A_Join Then_Destroy 200" "sy_thread s1 = T_Put 500 0" "sy_now s1 = 0"
    by (simp_all add: s1_def call_destroy_def stop_begin_def s)
  have "demo_sys None (s1\<lparr> sy_now := 200 \<rparr>)" using sys_ticks [OF r1, of 200] s1 by simp
  then show ?thesis using s1 by (intro exI [of _ "s1\<lparr> sy_now := 200 \<rparr>"]) (simp add: cut_off_def)
qed

end
