(* ===== verification/Pendulum_Tier2.thy ===== *)
theory Pendulum_Tier2
  imports Client_Rounds
begin

text \<open>
  The Tier 2 image of the pendulum's firmware from its own file
  (\<open>demos/inverted_pendulum/inverted_pendulum_tier2/src/main.cpp\<close>). The file repeats the constants and the helper
  functions of the Tier 1 file; here they are translated again, and the loop is written out as one
  function, so that nothing of Tier 2 rests on the text of the other file. The lemmas show that the two copies
  have not drifted apart: what \<open>Pendulum_Firmware\<close> shares between the images is what this file says.
\<close>

section \<open>Constants\<close>

definition tier2_kWifiConnectTimeout :: u32 where "tier2_kWifiConnectTimeout = 15000"
definition tier2_kIpv4AcquireTimeout :: u32 where "tier2_kIpv4AcquireTimeout = 30000"
definition tier2_kControlPeriodMs :: u32 where "tier2_kControlPeriodMs = 10"
definition tier2_kCommandTimeoutMs :: u32 where "tier2_kCommandTimeoutMs = 200"
definition tier2_kCommandTimeoutCycles :: u32 where
  "tier2_kCommandTimeoutCycles = tier2_kCommandTimeoutMs div tier2_kControlPeriodMs"
definition tier2_kMinMicrostepIntervalNs :: u64 where "tier2_kMinMicrostepIntervalNs = 20000"
definition tier2_kMaxMicrostepIntervalNs :: u64 where "tier2_kMaxMicrostepIntervalNs = 1000000000"
definition tier2_motor_steps_per_rev :: u32 where "tier2_motor_steps_per_rev = 200"

definition tier2_micro_steps_per_rev :: "u32 \<Rightarrow> i32" where
  "tier2_micro_steps_per_rev micro_step_res = tier2_motor_steps_per_rev * micro_step_res"

section \<open>The stepper and the encoder\<close>

definition tier2_microsteps_to_angle :: "u32 \<Rightarrow> i32 \<Rightarrow> f64" where
  "tier2_microsteps_to_angle res microsteps =
     f64_div (f64_mul (f64_mul (f64_of_int 2) M_PI) (f64_of_i32 microsteps)) (f64_of_i32 (tier2_micro_steps_per_rev res))"

definition tier2_stop_stepper :: "motor_call list \<Rightarrow> motor_call list" where
  "tier2_stop_stepper calls = calls @ [Motor_Stop]"

definition tier2_set_stepper_angular_vel ::
    "u32 \<Rightarrow> motor_driver \<Rightarrow> f64 \<Rightarrow> motor_call list \<Rightarrow> motor_call list option" where
  "tier2_set_stepper_angular_vel res drv rads_per_sec calls =
     (if \<not> f64_isfinite rads_per_sec \<or> f64_eq rads_per_sec 0 then Some (tier2_stop_stepper calls)
      else
        let microsteps_per_sec = f64_div (f64_mul (f64_abs rads_per_sec) (f64_of_i32 (tier2_micro_steps_per_rev res)))
              (f64_mul (f64_of_int 2) M_PI);
            interval = f64_div (f64_of_int 1000000000) microsteps_per_sec
        in if \<not> f64_isfinite interval \<or> f64_lt interval (f64_of_u64 tier2_kMinMicrostepIntervalNs) \<or>
              f64_lt (f64_of_u64 tier2_kMaxMicrostepIntervalNs) interval
           then Some (tier2_stop_stepper calls)
           else do {
             n \<leftarrow> f64_to_int 0 (2 ^ 64 - 1) interval;
             let set_call = Motor_Set_Interval (word_of_int n);
             if drv calls set_call \<noteq> 0 then Some (calls @ [set_call])
             else Some (calls @ [set_call, Motor_Run (f64_lt 0 rads_per_sec)]) })"

definition tier2_get_encoder_angle_deg :: "rig_io \<Rightarrow> f64 option" where
  "tier2_get_encoder_angle_deg io =
     (if io_fetch io \<noteq> 0 then None
      else if io_channel io \<noteq> 0 then None
      else Some (f64_div (f64_mul (io_degrees io) M_PI) (f64_of_int 180)))"

section \<open>The loop\<close>

text \<open>The body of the endless loop of \<open>main\<close>, in the order of its statements. The two generated structs hold two
  \<open>double\<close>s and one; \<open>cmd_val\<close> is not initialised.\<close>

definition tier2_loop_body ::
    "u32 \<Rightarrow> motor_driver \<Rightarrow> client_config \<Rightarrow> rig_io \<Rightarrow> rig \<times> raw_client \<Rightarrow> (rig \<times> raw_client) option" where
  "tier2_loop_body res drv kc io = (\<lambda>(rg, client). do {
     let rg = (case io_position io of
                 None \<Rightarrow> rg
               | Some stepper_position \<Rightarrow>
                   rg\<lparr> rg_stepper_angle := f64_sub (tier2_microsteps_to_angle res stepper_position) (rg_stepper_offset rg) \<rparr>);
     let rg = (case tier2_get_encoder_angle_deg io of
                 None \<Rightarrow> rg
               | Some raw_encoder_angle \<Rightarrow> rg\<lparr> rg_encoder_angle := f64_sub raw_encoder_angle (rg_encoder_offset rg) \<rparr>);
     let state_val = le64 (rg_stepper_angle rg) @ le64 (rg_encoder_angle rg);
     let cmd_val = le64s (take 1 (io_stack io));
     client \<leftarrow> write_state (RawCodec_state 16) state_val client;
     let command_count = cl_cmd_accepted client;
     rg \<leftarrow> (if command_count \<noteq> rg_last_count rg then do {
              let rg = rg\<lparr> rg_last_count := command_count, rg_cycles := 0 \<rparr>;
              (ok, cmd_val) \<leftarrow> read_command (RawCodec_command 8) kc cmd_val client;
              if ok then do {
                velocity \<leftarrow> mem_read cmd_val 0 8;
                Some (rg\<lparr> rg_velocity := word_of_le velocity \<rparr>) }
              else Some rg }
            else if rg_cycles rg < tier2_kCommandTimeoutCycles then Some (rg\<lparr> rg_cycles := rg_cycles rg + 1 \<rparr>)
            else if \<not> f64_eq (rg_velocity rg) 0 then Some (rg\<lparr> rg_velocity := 0 \<rparr>)
            else Some rg);
     calls \<leftarrow> tier2_set_stepper_angular_vel res drv (rg_velocity rg) (rg_motor rg);
     Some (rg\<lparr> rg_motor := calls \<rparr>, client) })"

section \<open>The two copies agree\<close>

lemma tier2_constants [simp]:
  "tier2_kWifiConnectTimeout = kWifiConnectTimeout" "tier2_kIpv4AcquireTimeout = kIpv4AcquireTimeout"
  "tier2_kControlPeriodMs = kControlPeriodMs" "tier2_kCommandTimeoutMs = kCommandTimeoutMs"
  "tier2_kCommandTimeoutCycles = kCommandTimeoutCycles"
  "tier2_kMinMicrostepIntervalNs = kMinMicrostepIntervalNs" "tier2_kMaxMicrostepIntervalNs = kMaxMicrostepIntervalNs"
  "tier2_micro_steps_per_rev = micro_steps_per_rev"
  by (simp_all add: tier2_kWifiConnectTimeout_def kWifiConnectTimeout_def tier2_kIpv4AcquireTimeout_def kIpv4AcquireTimeout_def
      tier2_kCommandTimeoutCycles_def kCommandTimeoutCycles_def tier2_kControlPeriodMs_def kControlPeriodMs_def
      tier2_kCommandTimeoutMs_def kCommandTimeoutMs_def tier2_kMinMicrostepIntervalNs_def kMinMicrostepIntervalNs_def
      tier2_kMaxMicrostepIntervalNs_def kMaxMicrostepIntervalNs_def tier2_micro_steps_per_rev_def micro_steps_per_rev_def
      tier2_motor_steps_per_rev_def motor_steps_per_rev_def fun_eq_iff)

lemma tier2_helpers [simp]:
  "tier2_microsteps_to_angle = microsteps_to_angle" "tier2_set_stepper_angular_vel = set_stepper_angular_vel"
  "tier2_get_encoder_angle_deg = get_encoder_angle_deg"
  by (simp_all add: fun_eq_iff tier2_microsteps_to_angle_def microsteps_to_angle_def two_pi_def tier2_set_stepper_angular_vel_def
      set_stepper_angular_vel_def interval_ns_def tier2_stop_stepper_def [abs_def] stop_stepper_def [abs_def] Let_def tier2_get_encoder_angle_deg_def
      get_encoder_angle_deg_def)

lemma tier2_loop_body_shared: "tier2_loop_body res drv kc = tier2_cycle res drv kc"
proof (intro ext)
  fix io and s :: "rig \<times> raw_client"
  obtain rg cl where s: "s = (rg, cl)" by (cases s)
  have d: "do { calls \<leftarrow> set_stepper_angular_vel res drv (rg_velocity r) (rg_motor r); Some (r\<lparr> rg_motor := calls \<rparr>, c) } =
      do { r \<leftarrow> drive_motor res drv r; Some (r, c) }" for r :: rig and c :: raw_client
    by (cases "set_stepper_angular_vel res drv (rg_velocity r) (rg_motor r)") (simp_all add: drive_motor_def)
  have w: "(if n \<noteq> rg_last_count r then
        (let r = r\<lparr> rg_last_count := n, rg_cycles := 0 \<rparr>
         in do { (ok, v) \<leftarrow> read_command (RawCodec_command 8) kc out c;
                 if ok then do { bs \<leftarrow> mem_read v 0 8; Some (r\<lparr> rg_velocity := word_of_le bs \<rparr>) } else Some r })
      else if rg_cycles r < kCommandTimeoutCycles then Some (r\<lparr> rg_cycles := rg_cycles r + 1 \<rparr>)
      else if \<not> f64_eq (rg_velocity r) 0 then Some (r\<lparr> rg_velocity := 0 \<rparr>) else Some r) =
      command_watchdog n (do { (ok, v) \<leftarrow> read_command (RawCodec_command 8) kc out c;
          if \<not> ok then Some None else do { bs \<leftarrow> mem_read v 0 8; Some (Some (word_of_le bs)) } }) r"
    for n and r :: rig and out and c :: raw_client
  proof (cases "read_command (RawCodec_command 8) kc out c")
    case (Some x)
    obtain ok v where "x = (ok, v)" by (cases x)
    then show ?thesis using Some by (cases "mem_read v 0 8"; cases ok) (simp_all add: command_watchdog_def Let_def)
  qed (simp add: command_watchdog_def Let_def)
  show "tier2_loop_body res drv kc io s = tier2_cycle res drv kc io s"
    unfolding s tier2_loop_body_def tier2_cycle_def rig_cycle_def case_prod_conv tier2_helpers tier2_constants d tier2_command_def
      read_sensors_def tier2_state_def w [symmetric]
    by (simp only: Let_def)
qed

end
