(* ===== verification/Joint_Positions.thy ===== *)
theory Joint_Positions
  imports Client_Rounds
begin

text \<open>
  Joint states without velocities and efforts. An application may leave two of the three arrays of a
  \<open>JointStateCodec::Value\<close> null, as the pendulum's Tier 1 image does: \<open>write\<close> then keeps what the slot holds, which is
  what \<open>init\<close> left there. So the same codec meets the interface \<open>state_codec\<close> a second time, with other values
  complete and another encoding: the arrays that are never written are zeros on the wire.
\<close>

section \<open>Holes over zeros\<close>

lemma overlay_zero_fill:
  assumes "list_all2 (\<lambda>a b. b = a \<or> a = None \<and> b = Some 0) s s'"
  shows "overlay s (replicate n 0) = overlay s' (replicate n 0)"
proof (rule nth_equalityI)
  have l: "length s = length s'" using assms by (rule list_all2_lengthD)
  show "length (overlay s (replicate n 0)) = length (overlay s' (replicate n 0))" by simp
  fix i assume "i < length (overlay s (replicate n 0))"
  then show "overlay s (replicate n 0) ! i = overlay s' (replicate n 0) ! i"
    using l list_all2_nthD [OF assms, of i] by (auto simp: nth_overlay split: option.splits)
qed

lemma le64s_zeros: "le64s (replicate n 0) = replicate (8 * n) 0"
proof (induction n)
  case (Suc n)
  have "le64 0 = replicate 8 0" by code_simp
  then show ?case using Suc by (simp add: numeral_eq_Suc)
qed simp

lemma hole_zero_fill:
  "list_all2 (\<lambda>a b. b = a \<or> a = None \<and> b = Some 0) (cdr_hole (8 * n) None) (map Some (le64s (replicate n 0)))"
  by (simp add: cdr_hole_def le64s_zeros list_all2_conv_all_nth)

lemma joint_state_zeros:
  assumes n: "0 < length names" and p: "doubles_ok (length names) pos"
  shows "overlay (cdr_joint_state st frame names pos None None) (replicate k 0) =
    overlay (cdr_joint_state st frame names pos (Some (replicate (length names) 0)) (Some (replicate (length names) 0))) (replicate k 0)"
proof -
  obtain g1 g2 g3 where "js_parts frame names g1 g2 g3"
    using cdr_joint_state_parts [OF n] by blast
  note parts = this [unfolded js_parts_def, THEN conjunct1, rule_format]
  have r: "list_all2 (\<lambda>a b. b = a \<or> a = None \<and> b = Some 0) xs xs" for xs :: cdr_stream by (simp add: list_all2_refl)
  show ?thesis
    by (rule overlay_zero_fill) (use p in \<open>simp add: parts list_all2_appendI r hole_zero_fill\<close>)
qed

section \<open>The codec\<close>

definition no_motion :: "js_params \<Rightarrow> u64 list option" where
  "no_motion p = Some (replicate (length (js_names p)) 0)"

definition jp_ready :: "js_params \<Rightarrow> byte list \<Rightarrow> bool" where
  "jp_ready p bs \<longleftrightarrow> js_fits p (length bs) \<and>
     (\<exists>st ps. doubles_ok (length (js_names p)) ps \<and>
        bs = overlay (cdr_joint_state st (js_frame p) (js_names p) ps (no_motion p) (no_motion p)) (replicate (length bs) 0))"

definition jp_complete :: "js_params \<Rightarrow> js_value \<Rightarrow> bool" where
  "jp_complete p v \<longleftrightarrow> (\<exists>ds. jsv_positions v = Some ds \<and> length ds = unat (jsp_num_joints p)) \<and>
     jsv_velocities v = None \<and> jsv_efforts v = None"

definition jp_value :: "js_params \<Rightarrow> js_value \<Rightarrow> js_value" where
  "jp_value p v = v\<lparr> jsv_velocities := no_motion p, jsv_efforts := no_motion p \<rparr>"

lemma jp_value_complete: "js_fits p k \<Longrightarrow> jp_complete p v \<Longrightarrow> js_complete p (jp_value p v)"
  by (auto simp: jp_complete_def js_complete_def jp_value_def no_motion_def dest: js_names_length)

interpretation joint_positions: state_codec JointStateCodec js_fits js_ctx jp_ready jp_complete "\<lambda>p v. js_wire p (jp_value p v)"
proof unfold_locales
  fix p k assume f: "js_fits p k"
  have nn: "0 < length (js_names p)" using f js_names_length [OF f] by (simp add: js_fits_def)
  let ?s = "\<lambda>vs es. overlay (cdr_joint_state None (js_frame p) (js_names p) None vs es) (replicate k 0)"
  have n: "0 < unat (jsp_num_joints p)" "unat (jsp_num_joints p) \<le> length (jsp_joint_names p)"
    and L: "js_size p \<le> k" "k < 2 ^ 32" using f by (simp_all add: js_fits_def)
  have "zcdr_init_joint_state (jsp_frame_id p) (jsp_joint_names p) (jsp_num_joints p) (replicate k 0) =
      Some (js_ctx p, ?s None None)"
    using zcdr_init_joint_state_eq [OF n, of "jsp_frame_id p" "replicate k 0"] js_written_le [OF nn, of "js_frame p"] L
    by (simp add: js_size_def js_ctx_def js_frame_def js_names_def)
  moreover have "?s None None = ?s (no_motion p) (no_motion p)"
    unfolding no_motion_def by (rule joint_state_zeros [OF nn]) simp
  moreover have "jp_ready p (?s (no_motion p) (no_motion p))"
    using f unfolding jp_ready_def by (auto intro!: exI [of _ None])
  ultimately show "\<exists>bs. sc_init JointStateCodec p (replicate k 0) = Some (js_ctx p, bs) \<and> jp_ready p bs \<and> length bs = k"
    by (simp add: JointStateCodec_def)
  show "unat (sc_payload_size JointStateCodec (js_ctx p)) \<le> k" by (rule joint_state.size_fits [OF f])
next
  fix p bs v assume r: "jp_ready p bs" and c: "jp_complete p v"
  let ?n = "length (js_names p)" and ?S = "Some (jsv_stamp_sec v, jsv_stamp_nanosec v)"
  obtain st ps where b: "doubles_ok ?n ps"
      "bs = overlay (cdr_joint_state st (js_frame p) (js_names p) ps (no_motion p) (no_motion p)) (replicate (length bs) 0)"
      and f: "js_fits p (length bs)" using r by (auto simp: jp_ready_def)
  have nm: "?n = unat (jsp_num_joints p)" using f by (rule js_names_length)
  obtain a where v: "jsv_positions v = Some a" "length a = ?n" "jsv_velocities v = None" "jsv_efforts v = None"
    using c nm by (auto simp: jp_complete_def)
  let ?w = "overlay (cdr_joint_state ?S (js_frame p) (js_names p) (Some a) (no_motion p) (no_motion p)) (replicate (length bs) 0)"
  have L: "js_size p \<le> length bs" "length bs < 2 ^ 32" and n0: "0 < ?n" using f nm by (simp_all add: js_fits_def)
  have z: "doubles_ok ?n (no_motion p)" by (simp add: no_motion_def)
  have "zcdr_serialize_joint_state (js_ctx p) (jsv_stamp_sec v) (jsv_stamp_nanosec v) (Some a) None None bs = Some ?w"
    using zcdr_serialize_joint_state_overlay [OF n0 _ doubles_ok_None doubles_ok_None b(1) z z, of "Some a" "js_frame p" "replicate (length bs) 0"] L v
    by (subst b(2)) (simp add: js_ctx_def js_size_def)
  moreover have "jp_ready p ?w"
    unfolding jp_ready_def length_overlay length_replicate
    using f v by (intro conjI exI [of _ ?S] exI [of _ "Some a"]) simp_all
  moreover have "take (js_size p) ?w = js_wire p (jp_value p v)"
    using L v by (simp add: take_overlay js_wire_def jp_value_def min_def)
  ultimately show "\<exists>bs'. sc_write JointStateCodec (js_ctx p) v bs = Some bs' \<and> jp_ready p bs' \<and>
      length bs' = length bs \<and> take (unat (sc_payload_size JointStateCodec (js_ctx p))) bs' = js_wire p (jp_value p v)"
    using js_payload [OF f] v by (simp add: JointStateCodec_def)
qed

interpretation position_client: client_codecs JointStateCodec js_fits js_ctx jp_ready jp_complete "\<lambda>p v. js_wire p (jp_value p v)"
    JointCommandCodec jc_fits jc_ctx jc_room jc_encodes jc_store
  by unfold_locales

text \<open>What a ROS 2 subscriber reads.\<close>

lemma jp_wire_read:
  assumes f: "js_fits p k" and c: "jp_complete p v"
  shows "read_joint_state (js_wire p (jp_value p v)) =
    Some \<lparr> msg_stamp = (jsv_stamp_sec v, jsv_stamp_nanosec v), msg_frame_id = js_frame p, msg_name = js_names p,
           msg_position = the (jsv_positions v), msg_velocity = replicate (length (js_names p)) 0,
           msg_effort = replicate (length (js_names p)) 0 \<rparr>"
  using js_wire_read [OF f jp_value_complete [OF f c]] by (simp add: jp_value_def no_motion_def)

end
