(* ===== verification/Pendulum_Tiers.thy ===== *)
theory Pendulum_Tiers
  imports Pendulum_Tier2 Joint_Positions
begin

text \<open>
  The two images of the pendulum's firmware against each other: the Tier 1 image, which exchanges ROS 2 messages, and
  the Tier 2 image, which exchanges packed structs, drive the motor alike. The rounds of both have the same sensor
  answers and deliver the same commands, each in its own encoding.
\<close>

section \<open>The joints of the Tier 1 image\<close>

lemma tier1_sizes: "js_size tier1_sp = 148" "jc_size tier1_cp = 116"
    "js_frame tier1_sp = ''base_link''" "js_names tier1_sp = [''stepper_motor'', ''magnetic_encoder'']"
  by code_simp+

lemma tier1_fits:
  "148 \<le> k \<Longrightarrow> k < 2 ^ 32 \<Longrightarrow> js_fits tier1_sp k" "116 \<le> k \<Longrightarrow> k < 2 ^ 32 \<Longrightarrow> jc_fits tier1_cp k"
  by (simp_all add: js_fits_def jc_fits_def tier1_sizes) (simp_all add: tier1_sp_def tier1_cp_def)

lemma tier1_cmd_size [simp]: "unat (cc_payload_size JointCommandCodec (jc_ctx tier1_cp)) = 116"
  using jc_payload [OF tier1_fits(2), of 116] by (simp add: JointCommandCodec_def tier1_sizes)

abbreviation tier1_up where "tier1_up kc ops s \<equiv> position_client.up kc tier1_sp tier1_cp ops s"

lemma tier1_up_accepted:
  "tier1_up kc ops (cl, t) \<Longrightarrow> cl_cmd_accepted cl = of_nat (length (accepted (cfg_tier (kc_transport kc)) 116 ops))"
  unfolding position_client.up_def position_client.cmd_ok_def by simp

lemma tier1_state_complete: "jp_complete tier1_sp (tier1_state io rg)"
  by (simp add: jp_complete_def tier1_state_def tier1_sp_def)

section \<open>Corresponding deliveries\<close>

text \<open>A joint command of the two joints, and the struct with the velocity of its first joint.\<close>

definition same_command :: "byte list \<Rightarrow> byte list \<Rightarrow> bool" where
  "same_command bs1 bs2 \<longleftrightarrow> length bs1 = 116 \<and>
     (\<exists>c v w. jc_encodes tier1_cp c bs1 \<and> jcv_values c = Some [v, w] \<and> bs2 = le64 v)"

text \<open>Both tiers get such a command, or both something that is not of the size of their command.\<close>

definition same_delivery :: "js_value client_op \<Rightarrow> byte list client_op \<Rightarrow> bool" where
  "same_delivery x y \<longleftrightarrow> (\<exists>bs1 bs2. x = Op_Receive bs1 \<and> y = Op_Receive bs2 \<and>
     (same_command bs1 bs2 \<or> length bs1 \<noteq> 116 \<and> length bs2 \<noteq> 8))"

definition same_round :: "js_value client_op list \<times> rig_io \<Rightarrow> byte list client_op list \<times> rig_io \<Rightarrow> bool" where
  "same_round x y \<longleftrightarrow> list_all2 same_delivery (fst x) (fst y) \<and> snd x = snd y \<and> 2 \<le> length (io_stack (snd x))"

lemma same_command_lengths: "same_command bs1 bs2 \<Longrightarrow> length bs1 = 116 \<and> length bs2 = 8"
  by (auto simp: same_command_def)

lemma same_delivery_ops:
  "list_all2 same_delivery xs ys \<Longrightarrow> deliveries xs \<and> deliveries ys \<and>
     list_all2 same_command (accepted Tier1 116 xs) (accepted Tier2 8 ys)"
proof (induction rule: list_all2_induct)
  case (Cons x xs y ys)
  then show ?case
    by (auto simp: same_delivery_def deliveries_def deliverable_def dest: same_command_lengths split: if_splits)
qed (simp add: deliveries_def)

lemma list_all2_last: "list_all2 P xs ys \<Longrightarrow> xs \<noteq> [] \<Longrightarrow> P (last xs) (last ys)"
  by (metis last_conv_nth length_0_conv list_all2_conv_all_nth diff_less length_greater_0_conv zero_less_one)

section \<open>One cycle\<close>

text \<open>What a cycle does to the local variables, given the number of accepted commands and the newest of them.\<close>

definition rig_turn :: "u32 \<Rightarrow> motor_driver \<Rightarrow> rig_io \<Rightarrow> u32 \<Rightarrow> f64 option option \<Rightarrow> rig \<Rightarrow> rig option" where
  "rig_turn res drv io n c rg = do { rg \<leftarrow> command_watchdog n c (read_sensors res io rg); drive_motor res drv rg }"

lemma rig_cycle_turn:
  assumes "write_state SC (sv io (read_sensors res io rg)) cl = Some cl'"
  shows "rig_cycle SC sv cmd res drv io (rg, cl) =
    map_option (\<lambda>rg'. (rg', cl')) (rig_turn res drv io (cl_cmd_accepted cl') (cmd io cl') rg)"
  using assms by (auto simp: rig_cycle_pair rig_turn_def split: Option.bind_splits)

lemma rig_turn_same: "(n \<noteq> rg_last_count rg \<Longrightarrow> c = c') \<Longrightarrow> rig_turn res drv io n c rg = rig_turn res drv io n c' rg"
  by (cases "n = rg_last_count rg") (simp_all add: rig_turn_def command_watchdog_def)

lemma command_watchdog_angles:
  assumes "n \<noteq> rg_last_count rg \<Longrightarrow> c \<noteq> None"
  shows "\<exists>rg'. command_watchdog n c rg = Some rg' \<and> rg_last_count rg' = n \<and>
    rg_stepper_angle rg' = rg_stepper_angle rg \<and> rg_encoder_angle rg' = rg_encoder_angle rg"
proof (cases "n = rg_last_count rg")
  case False
  then obtain x where "c = Some x" using assms by auto
  then show ?thesis using False by (cases x) (simp_all add: command_watchdog_def Let_def)
qed (simp add: command_watchdog_def)

lemma rig_turn_defined:
  assumes "n \<noteq> rg_last_count rg \<Longrightarrow> c \<noteq> None"
  shows "\<exists>rg'. rig_turn res drv io n c rg = Some rg' \<and> rg_last_count rg' = n \<and>
    rg_stepper_angle rg' = rg_stepper_angle (read_sensors res io rg) \<and>
    rg_encoder_angle rg' = rg_encoder_angle (read_sensors res io rg)"
proof -
  let ?rg = "read_sensors res io rg"
  obtain rg1 where w: "command_watchdog n c ?rg = Some rg1" "rg_last_count rg1 = n"
      "rg_stepper_angle rg1 = rg_stepper_angle ?rg" "rg_encoder_angle rg1 = rg_encoder_angle ?rg"
    using command_watchdog_angles [of n ?rg c] assms by auto
  obtain new where "drive_motor res drv rg1 = Some (rg1\<lparr> rg_motor := rg_motor rg1 @ new \<rparr>)"
    using drive_motor_frame by blast
  then show ?thesis using w by (simp add: rig_turn_def)
qed

lemma tier1_command_up:
  assumes u: "tier1_up kc ops (cl, t)" and k: "kc_max_cmd kc < 2 ^ 32" and st: "2 \<le> length (io_stack io)"
    and a: "accepted (cfg_tier (kc_transport kc)) 116 ops \<noteq> []"
      "same_command (last (accepted (cfg_tier (kc_transport kc)) 116 ops)) bs2"
  shows "tier1_command kc io cl = Some (Some (word_of_le bs2))"
proof -
  obtain c v w where c: "jc_encodes tier1_cp c (last (accepted (cfg_tier (kc_transport kc)) 116 ops))"
      "jcv_values c = Some [v, w]" "bs2 = le64 v" using a(2) by (auto simp: same_command_def)
  let ?out = "\<lparr> jcv_stamp_sec = 0, jcv_stamp_nanosec = 0, jcv_values = Some (io_stack io) \<rparr>"
  have "jc_room tier1_cp ?out" using st by (simp add: jc_room_def room_for_def tier1_cp_def)
  from position_client.read_command_up [OF u k this, of c] a(1) c(1)
  have "read_command JointCommandCodec kc ?out cl = Some (True, jc_store c ?out)" by simp
  then show ?thesis using c(2,3) by (simp add: tier1_command_def jc_store_def store_doubles_def)
qed

section \<open>One round\<close>

text \<open>After \<open>ops1\<close> and \<open>ops2\<close>: the two clients have accepted corresponding commands, and both images have the same
  local variables.\<close>

definition tiers_alike ::
    "client_config \<Rightarrow> client_config \<Rightarrow> js_value client_op list \<Rightarrow> byte list client_op list
       \<Rightarrow> joint_client \<times> ctransport \<Rightarrow> raw_client \<times> ctransport \<Rightarrow> rig \<Rightarrow> bool" where
  "tiers_alike kc1 kc2 ops1 ops2 s1 s2 rg \<longleftrightarrow> tier1_up kc1 ops1 s1 \<and> tier2_up kc2 ops2 s2 \<and>
     list_all2 same_command (accepted Tier1 116 ops1) (accepted Tier2 8 ops2) \<and>
     rg_last_count rg = cl_cmd_accepted (fst s1)"

lemma tiers_deliver:
  assumes r: "tiers_alike kc1 kc2 ops1 ops2 (cl1, t1) (cl2, t2) rg" and s: "list_all2 same_delivery xs ys"
  shows "\<exists>cl1' cl2'. perform_all JointStateCodec kc1 env1 xs (cl1, t1) = Some (cl1', t1) \<and>
    perform_all (RawCodec_state 16) kc2 env2 ys (cl2, t2) = Some (cl2', t2) \<and>
    tier1_up kc1 (ops1 @ xs) (cl1', t1) \<and> tier2_up kc2 (ops2 @ ys) (cl2', t2) \<and>
    list_all2 same_command (accepted Tier1 116 (ops1 @ xs)) (accepted Tier2 8 (ops2 @ ys))"
proof -
  have u: "tier1_up kc1 ops1 (cl1, t1)" "tier2_up kc2 ops2 (cl2, t2)"
    "list_all2 same_command (accepted Tier1 116 ops1) (accepted Tier2 8 ops2)"
    using r by (simp_all add: tiers_alike_def)
  note o = same_delivery_ops [OF s]
  show ?thesis
    using position_client.up_deliver [OF u(1), of xs env1] raw_client.up_deliver [OF u(2), of ys env2] o u(3)
    by (auto simp: list_all2_appendI)
qed

lemma tiers_round:
  assumes r: "tiers_alike kc1 kc2 ops1 ops2 (cl1, t1) (cl2, t2) rg" and s: "same_round x y"
    and tier: "cfg_tier (kc_transport kc1) = Tier1" "cfg_tier (kc_transport kc2) = Tier2"
    and k: "kc_max_cmd kc1 < 2 ^ 32" "kc_max_cmd kc2 < 2 ^ 32"
  shows "\<exists>rg' cl1' cl2' ops1' ops2' v.
    run_rounds JointStateCodec kc1 env1 (tier1_cycle res drv kc1) [x] (rg, cl1, t1) = Some (rg', cl1', t1) \<and>
    run_rounds (RawCodec_state 16) kc2 env2 (tier2_cycle res drv kc2) [y] (rg, cl2, t2) = Some (rg', cl2', t2) \<and>
    tiers_alike kc1 kc2 (ops1' @ [Op_Write v]) (ops2' @ [Op_Write (tier2_state rg')]) (cl1', t1) (cl2', t2) rg' \<and>
    jp_complete tier1_sp v \<and> jsv_positions v = Some [rg_stepper_angle rg', rg_encoder_angle rg']"
proof -
  obtain xs io ys where xy: "x = (xs, io)" "y = (ys, io)" "list_all2 same_delivery xs ys" "2 \<le> length (io_stack io)"
    using s by (cases x; cases y) (auto simp: same_round_def)
  obtain cl1a cl2a where d: "perform_all JointStateCodec kc1 env1 xs (cl1, t1) = Some (cl1a, t1)"
      "perform_all (RawCodec_state 16) kc2 env2 ys (cl2, t2) = Some (cl2a, t2)"
      "tier1_up kc1 (ops1 @ xs) (cl1a, t1)" "tier2_up kc2 (ops2 @ ys) (cl2a, t2)"
      and acc: "list_all2 same_command (accepted Tier1 116 (ops1 @ xs)) (accepted Tier2 8 (ops2 @ ys))"
    using tiers_deliver [OF r xy(3)] by blast
  let ?rg = "read_sensors res io rg" and ?v = "tier1_state io (read_sensors res io rg)" and ?w = "tier2_state (read_sensors res io rg)"
  obtain cl1b where w1: "write_state JointStateCodec ?v cl1a = Some cl1b" "tier1_up kc1 ((ops1 @ xs) @ [Op_Write ?v]) (cl1b, t1)"
    using position_client.up_write [OF d(3) tier1_state_complete] by blast
  obtain cl2b where w2: "write_state (RawCodec_state 16) ?w cl2a = Some cl2b" "tier2_up kc2 ((ops2 @ ys) @ [Op_Write ?w]) (cl2b, t2)"
    using raw_client.up_write [OF d(4), of ?w] by (auto simp: raw_object_def)
  let ?n = "cl_cmd_accepted cl1b" and ?a1 = "accepted Tier1 116 (ops1 @ xs)" and ?a2 = "accepted Tier2 8 (ops2 @ ys)"
  have "?n = of_nat (length ?a1)" using tier1_up_accepted [OF w1(2)] tier(1) by simp
  moreover have "cl_cmd_accepted cl2b = of_nat (length ?a2)" using tier2_up_accepted [OF w2(2)] tier(2) by simp
  ultimately have n: "?n = of_nat (length ?a1)" "cl_cmd_accepted cl2b = ?n"
    using list_all2_lengthD [OF acc] by (simp_all only:)
  have new: "?a1 \<noteq> []" if "?n \<noteq> rg_last_count rg"
  proof
    assume "?a1 = []"
    moreover from this have "rg_last_count rg = 0"
      using r tier1_up_accepted [of kc1 ops1 cl1 t1] tier by (simp add: tiers_alike_def)
    ultimately show False using that n(1) by simp
  qed
  have c: "tier1_command kc1 io cl1b = tier2_command kc2 io cl2b \<and> tier2_command kc2 io cl2b \<noteq> None" if "?n \<noteq> rg_last_count rg"
  proof -
    have a: "?a1 \<noteq> []" "?a2 \<noteq> []" using new [OF that] acc by auto
    have st: "io_stack io \<noteq> []" using xy(4) by auto
    have l: "same_command (last ?a1) (last ?a2)" by (rule list_all2_last [OF acc a(1)])
    have "tier1_command kc1 io cl1b = Some (Some (word_of_le (last ?a2)))"
      by (rule tier1_command_up [OF w1(2) k(1) xy(4)]) (use a l tier in simp_all)
    moreover have "tier2_command kc2 io cl2b = Some (Some (word_of_le (last ?a2)))"
      using tier2_command_up [OF w2(2) k(2) st] a tier by simp
    ultimately show ?thesis by simp
  qed
  obtain rg' where t: "rig_turn res drv io ?n (tier1_command kc1 io cl1b) rg = Some rg'" "rg_last_count rg' = ?n"
      "rg_stepper_angle rg' = rg_stepper_angle ?rg" "rg_encoder_angle rg' = rg_encoder_angle ?rg"
    using rig_turn_defined [of ?n rg "tier1_command kc1 io cl1b" res drv io] c by auto
  have t2: "rig_turn res drv io ?n (tier2_command kc2 io cl2b) rg = Some rg'"
    using t(1) rig_turn_same [of ?n rg "tier1_command kc1 io cl1b" "tier2_command kc2 io cl2b" res drv io] c by simp
  have "tier1_cycle res drv kc1 io (rg, cl1a) = Some (rg', cl1b)"
    using rig_cycle_turn [of JointStateCodec tier1_state, OF w1(1)] t(1) by (simp add: tier1_cycle_def)
  moreover have "tier2_cycle res drv kc2 io (rg, cl2a) = Some (rg', cl2b)"
    using rig_cycle_turn [of "RawCodec_state 16" "\<lambda>io. tier2_state", OF w2(1)] t2 n(2) by (simp add: tier2_cycle_def)
  moreover have s: "tier2_state rg' = ?w" using t(3,4) by (simp add: tier2_state_def)
  moreover have "tiers_alike kc1 kc2 ((ops1 @ xs) @ [Op_Write ?v]) ((ops2 @ ys) @ [Op_Write (tier2_state rg')]) (cl1b, t1) (cl2b, t2) rg'"
    using w1(2) w2(2) acc t(2) by (simp add: tiers_alike_def s)
  moreover have "jsv_positions ?v = Some [rg_stepper_angle rg', rg_encoder_angle rg']" using t(3,4) by (simp add: tier1_state_def)
  ultimately show ?thesis using d(1,2) tier1_state_complete [of io ?rg]
    by (intro exI [of _ rg'] exI [of _ cl1b] exI [of _ cl2b] exI [of _ "ops1 @ xs"] exI [of _ "ops2 @ ys"] exI [of _ ?v])
      (simp add: xy(1,2))
qed

lemma run_rounds_first:
  assumes "run_rounds SC kc env cycle [x] s = Some s'"
  shows "run_rounds SC kc env cycle (x # xs) s = run_rounds SC kc env cycle xs s'"
  using run_rounds_append [of SC kc env cycle "[x]" xs s] assms by (simp del: run_rounds.simps)

lemma tiers_run:
  assumes "tiers_alike kc1 kc2 ops1 ops2 (cl1, t1) (cl2, t2) rg" and "list_all2 same_round xs ys"
    and tier: "cfg_tier (kc_transport kc1) = Tier1" "cfg_tier (kc_transport kc2) = Tier2"
    and k: "kc_max_cmd kc1 < 2 ^ 32" "kc_max_cmd kc2 < 2 ^ 32"
  shows "\<exists>rg' cl1' cl2' ops1' ops2'.
    tier1_run res drv kc1 env1 xs (rg, cl1, t1) = Some (rg', cl1', t1) \<and>
    tier2_run res drv kc2 env2 ys (rg, cl2, t2) = Some (rg', cl2', t2) \<and>
    tiers_alike kc1 kc2 ops1' ops2' (cl1', t1) (cl2', t2) rg' \<and>
    (xs \<noteq> [] \<longrightarrow> (\<exists>v. written ops1' \<noteq> [] \<and> last (written ops1') = v \<and> written ops2' \<noteq> [] \<and> last (written ops2') = tier2_state rg' \<and>
      jp_complete tier1_sp v \<and> jsv_positions v = Some [rg_stepper_angle rg', rg_encoder_angle rg']))"
  using assms(1,2)
proof (induction xs arbitrary: ys cl1 cl2 rg ops1 ops2)
  case Nil
  then show ?case by (auto simp: tier1_run_def tier2_run_def)
next
  case (Cons x xs)
  obtain y ys' where y: "ys = y # ys'" "same_round x y" "list_all2 same_round xs ys'" using Cons.prems(2) by (auto simp: list_all2_Cons1)
  obtain rg1 cl1a cl2a opsa opsb v where r:
      "run_rounds JointStateCodec kc1 env1 (tier1_cycle res drv kc1) [x] (rg, cl1, t1) = Some (rg1, cl1a, t1)"
      "run_rounds (RawCodec_state 16) kc2 env2 (tier2_cycle res drv kc2) [y] (rg, cl2, t2) = Some (rg1, cl2a, t2)"
      "tiers_alike kc1 kc2 (opsa @ [Op_Write v]) (opsb @ [Op_Write (tier2_state rg1)]) (cl1a, t1) (cl2a, t2) rg1"
      "jp_complete tier1_sp v" "jsv_positions v = Some [rg_stepper_angle rg1, rg_encoder_angle rg1]"
    using tiers_round [OF Cons.prems(1) y(2) tier k] by blast
  have e: "tier1_run res drv kc1 env1 (x # xs) (rg, cl1, t1) = tier1_run res drv kc1 env1 xs (rg1, cl1a, t1)"
    "tier2_run res drv kc2 env2 (y # ys') (rg, cl2, t2) = tier2_run res drv kc2 env2 ys' (rg1, cl2a, t2)"
    unfolding tier1_run_def tier2_run_def by (rule run_rounds_first [OF r(1)], rule run_rounds_first [OF r(2)])
  show ?case
  proof (cases "xs = []")
    case True
    then have "ys' = []" using y(3) by simp
    then show ?thesis using e r(3-5) y(1) True
      by (intro exI [of _ rg1] exI [of _ cl1a] exI [of _ cl2a] exI [of _ "opsa @ [Op_Write v]"]
          exI [of _ "opsb @ [Op_Write (tier2_state rg1)]"]) (simp add: tier1_run_def tier2_run_def)
  next
    case False
    then show ?thesis using Cons.IH [OF r(3) y(3)] e y(1) by simp
  qed
qed

section \<open>Properties\<close>

text \<open>C15: The two firmware images drive the motor alike. From the same answers during start-up, and over any rounds with the
  same sensor answers in which the network delivers the same velocities, to Tier 1 as joint commands in the encoding of
  ROS 2 and to Tier 2 as packed structs (and anything of another size to both), both images run without an undefined
  operation and end with the same local variables: angles, velocity, stale cycles, and every call to the stepper. The
  next publication of Tier 1 is then read by a ROS 2 subscriber as the two angles, with zeros for velocities and
  efforts, and that of Tier 2 is the struct with the same two angles. For Tier 2 this is the loop as its own file has
  it. The rounds have the deliveries; the publications in between change nothing of this (\<open>run_rounds_quiet\<close>).\<close>

theorem tiers_drive_alike:
  assumes t: "transport_reachable (kc_transport kc1) (ce_zenoh env1) t1" "transport_reachable (kc_transport kc2) (ce_zenoh env2) t2"
    and n: "\<not> cl_initialized cl1" "\<not> cl_initialized cl2"
    and tier: "cfg_tier (kc_transport kc1) = Tier1" "cfg_tier (kc_transport kc2) = Tier2"
    and k1: "148 \<le> kc_max_state kc1" "kc_max_state kc1 < 2 ^ 32" "116 \<le> kc_max_cmd kc1" "kc_max_cmd kc1 < 2 ^ 32"
    and k2: "16 \<le> kc_max_state kc2" "8 \<le> kc_max_cmd kc2" "kc_max_cmd kc2 < 2 ^ 32"
    and sc: "length scratch1 = kc_max_cmd kc1" "length scratch2 = kc_max_cmd kc2"
    and start: "tier1_start res kc1 env1 si scratch1 (cl1, t1) = Some (Loop rg1, (cl1', t1'), en1, time)"
      "tier2_start res kc2 env2 si scratch2 (cl2, t2) = Some (Loop rg2, (cl2', t2'), en2)"
    and rounds: "list_all2 same_round xs ys"
  shows "\<exists>rg cl1'' cl2''. tier1_run res drv kc1 env1 xs (rg1, cl1', t1') = Some (rg, cl1'', t1') \<and>
    run_rounds (RawCodec_state 16) kc2 env2 (tier2_loop_body res drv kc2) ys (rg2, cl2', t2') = Some (rg, cl2'', t2') \<and>
    (xs \<noteq> [] \<longrightarrow> (\<exists>payload msg.
      zenoh_publish_state kc1 env1 cl1'' t1' = zenbedded_transport_publish (kc_transport kc1) (ce_zenoh env1) (cl_pub cl1'') payload t1' \<and>
      read_joint_state payload = Some msg \<and> msg_name msg = [''stepper_motor'', ''magnetic_encoder''] \<and>
      msg_position msg = [rg_stepper_angle rg, rg_encoder_angle rg] \<and> msg_velocity msg = [0, 0] \<and> msg_effort msg = [0, 0] \<and>
      zenoh_publish_state kc2 env2 cl2'' t2' = zenbedded_transport_publish (kc_transport kc2) (ce_zenoh env2) (cl_pub cl2'')
        (le64 (rg_stepper_angle rg) @ le64 (rg_encoder_angle rg)) t2'))"
proof -
  have f1: "js_fits tier1_sp (kc_max_state kc1)" "jc_fits tier1_cp (kc_max_cmd kc1)" using k1 by (simp_all add: tier1_fits)
  have f2: "raw_fits 16 () (kc_max_state kc2)" "raw_fits 8 () (kc_max_cmd kc2)" using k2 by (simp_all add: raw_fits_2)
  note s1 = tier1_start_loop [OF start(1)] and s2 = tier2_start_loop [OF start(2)]
  have u: "tier1_up kc1 [] (cl1', t1')" "tier2_up kc2 [] (cl2', t2')"
    using position_client.up_init [OF f1 sc(1) n(1) transport_reachable_inv [OF t(1)] s1(1) client_init_zero [OF s1(1)]]
      raw_client.up_init [OF f2 sc(2) n(2) transport_reachable_inv [OF t(2)] s2(1) client_init_zero [OF s2(1)]] by simp_all
  have c: "cl_cmd_accepted cl1' = 0" "cl_cmd_accepted cl2' = 0" using tier1_up_accepted [OF u(1)] tier2_up_accepted [OF u(2)] by simp_all
  have rg: "rg2 = rg1" using s1(2) s2(2) c by simp
  have a: "tiers_alike kc1 kc2 [] [] (cl1', t1') (cl2', t2') rg1"
    using u c calibrate_count [OF s1(2)] by (simp add: tiers_alike_def)
  obtain rg cl1'' cl2'' ops1 ops2 where r: "tier1_run res drv kc1 env1 xs (rg1, cl1', t1') = Some (rg, cl1'', t1')"
      "tier2_run res drv kc2 env2 ys (rg1, cl2', t2') = Some (rg, cl2'', t2')"
      "tiers_alike kc1 kc2 ops1 ops2 (cl1'', t1') (cl2'', t2') rg"
      "xs \<noteq> [] \<longrightarrow> (\<exists>v. written ops1 \<noteq> [] \<and> last (written ops1) = v \<and> written ops2 \<noteq> [] \<and>
        last (written ops2) = tier2_state rg \<and> jp_complete tier1_sp v \<and>
        jsv_positions v = Some [rg_stepper_angle rg, rg_encoder_angle rg])"
    using tiers_run [OF a rounds tier k1(4) k2(3), of res drv env1 env2] by blast
  have u': "tier1_up kc1 ops1 (cl1'', t1')" "tier2_up kc2 ops2 (cl2'', t2')" using r(3) by (simp_all add: tiers_alike_def)
  have z: "replicate (length [''stepper_motor'', ''magnetic_encoder'']) 0 = [0, 0 :: f64]" by simp
  have p: "\<exists>payload msg. zenoh_publish_state kc1 env1 cl1'' t1' =
        zenbedded_transport_publish (kc_transport kc1) (ce_zenoh env1) (cl_pub cl1'') payload t1' \<and>
      read_joint_state payload = Some msg \<and> msg_name msg = [''stepper_motor'', ''magnetic_encoder''] \<and>
      msg_position msg = [rg_stepper_angle rg, rg_encoder_angle rg] \<and> msg_velocity msg = [0, 0] \<and> msg_effort msg = [0, 0] \<and>
      zenoh_publish_state kc2 env2 cl2'' t2' = zenbedded_transport_publish (kc_transport kc2) (ce_zenoh env2) (cl_pub cl2'')
        (le64 (rg_stepper_angle rg) @ le64 (rg_encoder_angle rg)) t2'" if "xs \<noteq> []"
  proof -
    obtain v where v: "written ops1 \<noteq> []" "last (written ops1) = v" "written ops2 \<noteq> []" "last (written ops2) = tier2_state rg"
        "jp_complete tier1_sp v" "jsv_positions v = Some [rg_stepper_angle rg, rg_encoder_angle rg]" using r(4) \<open>xs \<noteq> []\<close> by blast
    show ?thesis
      using position_client.publish_up [OF u'(1) v(1), of env1] raw_client.publish_up [OF u'(2) v(3), of env2]
        jp_wire_read [OF f1(1) v(5)]
      unfolding v(2,4,6) tier1_sizes z option.sel tier2_state_def by fastforce
  qed
  show ?thesis using r(1,2) p unfolding tier2_loop_body_shared rg tier2_run_def by blast
qed

section \<open>Witness\<close>

text \<open>The velocities 7 and, after something that is no command, 9.\<close>

definition tier1_wire :: "f64 \<Rightarrow> byte list" where
  "tier1_wire v = overlay (cdr_joint_command (Some (3, 4)) (jc_frame tier1_cp) (jc_names tier1_cp) (jc_interface tier1_cp)
     (Some [v, 0])) (replicate 116 0)"

lemma tier1_wire_same: "same_command (tier1_wire v) (le64 v)"
proof -
  have "jc_frame tier1_cp = ''base_link''" "jc_names tier1_cp = [''stepper_motor'', ''magnetic_encoder'']"
      "jc_interface tier1_cp = ''velocity''" by code_simp+
  then have "length (cdr_joint_command (Some (3, 4)) (jc_frame tier1_cp) (jc_names tier1_cp) (jc_interface tier1_cp) (Some [v, 0])) =
      length (cdr_joint_command None (jc_frame tier1_cp) (jc_names tier1_cp) (jc_interface tier1_cp) None)"
    by (intro length_joint_command_layout) simp_all
  also have "\<dots> = 116" using tier1_sizes(2) by (simp add: jc_size_def)
  finally have "carries (tier1_wire v) (cdr_joint_command (Some (3, 4)) (jc_frame tier1_cp) (jc_names tier1_cp)
      (jc_interface tier1_cp) (Some [v, 0]))"
    unfolding tier1_wire_def by (intro carries_overlay) simp
  then have "jc_encodes tier1_cp \<lparr> jcv_stamp_sec = 3, jcv_stamp_nanosec = 4, jcv_values = Some [v, 0] \<rparr> (tier1_wire v)"
    by (simp add: jc_encodes_def) (simp add: tier1_cp_def)
  moreover have "length (tier1_wire v) = 116" by (simp add: tier1_wire_def)
  ultimately show ?thesis unfolding same_command_def by fastforce
qed

definition rig_io2 :: rig_io where "rig_io2 = quiet_io\<lparr> io_stack := [0, 0] \<rparr>"

theorem tiers_drive_alike_witness:
  "\<exists>rg cl1 t1 cl2 t2 rg' cl1' cl2'.
    tier1_start 16 (demo_kc tier1_cfg) demo_env demo_start (replicate 256 0) (demo_client, transport_static) =
      Some (Loop rg, (cl1, t1), True, Some (0, 0)) \<and>
    tier2_start 16 (demo_kc tier2_cfg) demo_env demo_start (replicate 256 0) (demo_raw_client, transport_static) =
      Some (Loop rg, (cl2, t2), True) \<and>
    tier1_run 16 (\<lambda>calls c. 0) (demo_kc tier1_cfg) demo_env
      [([Op_Receive (tier1_wire 7)], rig_io2), ([Op_Receive [], Op_Receive (tier1_wire 9)], rig_io2)] (rg, cl1, t1) = Some (rg', cl1', t1) \<and>
    run_rounds (RawCodec_state 16) (demo_kc tier2_cfg) demo_env (tier2_loop_body 16 (\<lambda>calls c. 0) (demo_kc tier2_cfg))
      [([Op_Receive (le64 7)], rig_io2), ([Op_Receive [1], Op_Receive (le64 9)], rig_io2)] (rg, cl2, t2) = Some (rg', cl2', t2)"
proof -
  have f1: "js_fits tier1_sp (kc_max_state (demo_kc tier1_cfg))" "jc_fits tier1_cp (kc_max_cmd (demo_kc tier1_cfg))"
    by (simp_all add: tier1_fits)
  obtain cl1 t1 where i1: "client_init JointStateCodec JointCommandCodec (demo_kc tier1_cfg) demo_env 50 tier1_sp tier1_cp
      (replicate 256 0) demo_client transport_static = Some (0, cl1, t1)"
    using position_client.client_init_accepts [OF f1, of "replicate 256 0" transport_static demo_env 50 demo_client] demo_client_fresh
    by auto
  obtain cl2 t2 where i2: "client_init (RawCodec_state 16) (RawCodec_command 8) (demo_kc tier2_cfg) demo_env 50 () ()
      (replicate 256 0) demo_raw_client transport_static = Some (0, cl2, t2)" by (rule demo_client_up)
  have c: "\<exists>rg. calibrate 16 demo_start n = Loop rg" for n
    by (auto simp: calibrate_def demo_start_def get_encoder_angle_deg_def quiet_io_def)
  obtain rg1 rg2 where rg: "calibrate 16 demo_start (cl_cmd_accepted cl1) = Loop rg1" "calibrate 16 demo_start (cl_cmd_accepted cl2) = Loop rg2"
    using c by meson
  have ntp: "sync_time_from_ntp demo_start = (True, Some (0, 0))" by (simp add: sync_time_from_ntp_def demo_start_def)
  have s1: "tier1_start 16 (demo_kc tier1_cfg) demo_env demo_start (replicate 256 0) (demo_client, transport_static) =
      Some (Loop rg1, (cl1, t1), True, Some (0, 0))"
    using i1 rg(1) by (simp add: tier1_start_def demo_network_up ntp) (simp add: demo_start_def)
  have s2: "tier2_start 16 (demo_kc tier2_cfg) demo_env demo_start (replicate 256 0) (demo_raw_client, transport_static) =
      Some (Loop rg2, (cl2, t2), True)"
    using i2 rg(2) by (simp add: tier2_start_def demo_network_up) (simp add: demo_start_def)
  have r: "list_all2 same_round
      [([Op_Receive (tier1_wire 7)], rig_io2), ([Op_Receive [], Op_Receive (tier1_wire 9)], rig_io2)]
      [([Op_Receive (le64 7)], rig_io2), ([Op_Receive [1], Op_Receive (le64 9)], rig_io2)]"
    by (simp add: same_round_def same_delivery_def tier1_wire_same rig_io2_def)
  have reach: "transport_reachable (kc_transport (demo_kc tier1_cfg)) (ce_zenoh demo_env) transport_static"
      "transport_reachable (kc_transport (demo_kc tier2_cfg)) (ce_zenoh demo_env) transport_static" by (rule reach_static)+
  have cfg: "cfg_tier (kc_transport (demo_kc tier1_cfg)) = Tier1" "cfg_tier (kc_transport (demo_kc tier2_cfg)) = Tier2"
    by (simp_all add: tier1_cfg_def tier2_cfg_def)
  have "rg2 = rg1"
    using rg tier1_up_accepted [OF position_client.up_init [OF f1 _ demo_client_fresh(1) _ i1 client_init_zero [OF i1]]]
      tier2_up_accepted [OF raw_client.up_init [OF _ _ _ demo_raw_fresh(1) _ i2 client_init_zero [OF i2]]]
    by (simp add: raw_fits_def)
  then show ?thesis
    using tiers_drive_alike [OF reach demo_client_fresh(1) demo_raw_fresh(1) cfg _ _ _ _ _ _ _ _ _ s1 s2 r, of "\<lambda>calls c. 0"] s1 s2
    by fastforce
qed

end
