(* ===== verification/Tier1_App.thy ===== *)
theory Tier1_App
  imports Demo_Apps_Props
begin

text \<open>
  The Tier 1 end-to-end node (\<open>demos/rcl_e2e/tier1/src/main.cpp\<close>): a client of joint states and joint commands
  that moves its first joint by 0.01 in each cycle and polls the command buffer. The report on the console, once
  per second, is the value of a cycle; the banner is left out. Then its properties.
\<close>

section \<open>The node\<close>

definition chassis_joints :: "string list" where
  "chassis_joints = [''stepper'', ''pendulum'']"

definition chassis_sp :: js_params where
  "chassis_sp = \<lparr> jsp_frame_id = Some ''base_link'', jsp_joint_names = chassis_joints, jsp_num_joints = 2 \<rparr>"

definition chassis_cp :: jc_params where
  "chassis_cp = \<lparr> jcp_frame_id = Some ''base_link'', jcp_joint_names = chassis_joints, jcp_num_joints = 2,
     jcp_interface_name = Some ''position'' \<rparr>"

text \<open>The variables of \<open>main\<close>, and the reports so far: the number of polls and the values.\<close>

record rcl_app =
  ra_pos :: f64  \<comment> \<open>\<open>pos[0]\<close>; the other values stay zero\<close>
  ra_cmd :: jc_value
  ra_polls :: u32
  ra_last :: u32
  ra_reports :: "(u32 \<times> f64 list option) list"

definition rcl_app_new :: "u32 \<Rightarrow> rcl_app" where
  "rcl_app_new now = \<lparr> ra_pos = 0, ra_cmd = \<lparr> jcv_stamp_sec = 0, jcv_stamp_nanosec = 0, jcv_values = Some [0, 0] \<rparr>,
     ra_polls = 0, ra_last = now, ra_reports = [] \<rparr>"

text \<open>\<open>Inl\<close> is the code that \<open>main\<close> returns with.\<close>

definition rcl_app_start ::
    "client_config \<Rightarrow> client_env \<Rightarrow> byte list \<Rightarrow> u32 \<Rightarrow> joint_client \<times> ctransport
       \<Rightarrow> ((int + rcl_app) \<times> joint_client \<times> ctransport) option" where
  "rcl_app_start kc env scratch now s =
     do { (ret, s) \<leftarrow> client_init JointStateCodec JointCommandCodec kc env 100 chassis_sp chassis_cp scratch (fst s) (snd s);
          if ret \<noteq> 0 then Some (Inl (-1), s) else Some (Inr (rcl_app_new now), s) }"

definition rcl_state :: "f64 \<Rightarrow> js_value" where
  "rcl_state pos = \<lparr> jsv_stamp_sec = 0, jsv_stamp_nanosec = 0, jsv_positions = Some [pos, 0], jsv_velocities = Some [0, 0],
     jsv_efforts = Some [0, 0] \<rparr>"

definition rcl_app_cycle ::
    "client_config \<Rightarrow> u32 \<Rightarrow> rcl_app \<times> joint_client \<Rightarrow> (rcl_app \<times> joint_client) option" where
  "rcl_app_cycle kc current_time = (\<lambda>(app, cl).
     do { let pos = f64_add (ra_pos app) position_step;
          cl \<leftarrow> write_state JointStateCodec (rcl_state pos) cl;
          (ok, cmd) \<leftarrow> read_command JointCommandCodec kc (ra_cmd app) cl;
          let polls = (if ok then ra_polls app + 1 else ra_polls app);
          let app = app\<lparr> ra_pos := pos, ra_cmd := cmd, ra_polls := polls \<rparr>;
          Some (if 1000 \<le> current_time - ra_last app
                then app\<lparr> ra_polls := 0, ra_last := current_time, ra_reports := ra_reports app @ [(polls, jcv_values cmd)] \<rparr>
                else app, cl) })"

section \<open>Reading a command\<close>

lemma chassis_sizes: "js_size chassis_sp = 132" "jc_size chassis_cp = 100"
    "jc_ctx chassis_cp = \<lparr> jc_num_joints = 2, jc_offset_timestamp = 4, jc_offset_values = 84, jc_payload_size = 100 \<rparr>"
    "js_frame chassis_sp = ''base_link''" "js_names chassis_sp = [''stepper'', ''pendulum'']"
  by code_simp+

definition chassis_decode :: "byte list \<Rightarrow> jc_value" where
  "chassis_decode bs = \<lparr> jcv_stamp_sec = word_of_le (take 4 (drop 4 bs)), jcv_stamp_nanosec = word_of_le (take 4 (drop 8 bs)),
     jcv_values = Some (words_of_le64s 2 (take 16 (drop 84 bs))) \<rparr>"

lemma chassis_read:
  assumes "length bs = 100" and "jcv_values out = Some ds" and "length ds = 2"
  shows "cc_read JointCommandCodec (jc_ctx chassis_cp) (bs @ rest) 100 out = Some (True, chassis_decode bs)"
  using assms
  by (simp add: JointCommandCodec_def jc_read_value_def zcdr_deserialize_joint_command_def chassis_sizes fetch_uint32_def
      fetch_doubles_def mem_read_ok chassis_decode_def Let_def)

text \<open>If the bytes are a command of the two joints, these are its fields.\<close>

lemma chassis_decode_encoded:
  assumes e: "jc_encodes chassis_cp v bs" and l: "length bs = 100"
  shows "chassis_decode bs = v"
proof -
  have f: "jc_fits chassis_cp 100" by (simp add: jc_fits_def chassis_sizes) (simp add: chassis_cp_def chassis_joints_def)
  obtain ds where d: "jcv_values v = Some ds" "length ds = 2" using e by (auto simp: jc_encodes_def chassis_cp_def)
  have "cc_read JointCommandCodec (jc_ctx chassis_cp) bs 100 v = Some (True, jc_store v v)"
    using joint_command.read_encoded [OF f, of v 100 bs v] e l d
    by (simp add: jc_room_def room_for_def JointCommandCodec_def chassis_sizes) (simp add: chassis_cp_def)
  moreover have "jc_store v v = v" using d by (cases v) (simp add: jc_store_def store_doubles_def)
  ultimately show ?thesis using chassis_read [OF l d, of "[]"] by simp
qed

section \<open>Rounds\<close>

abbreviation rcl_up where "rcl_up kc ops s \<equiv> joint_client.up kc chassis_sp chassis_cp ops s"

definition rcl_step :: "u32 \<Rightarrow> byte list \<Rightarrow> rcl_app \<Rightarrow> rcl_app" where
  "rcl_step now bs app =
     (let report = (1000 \<le> now - ra_last app); polls = ra_polls app + 1
      in \<lparr> ra_pos = f64_add (ra_pos app) position_step, ra_cmd = chassis_decode bs, ra_polls = (if report then 0 else polls),
           ra_last = (if report then now else ra_last app),
           ra_reports = ra_reports app @ (if report then [(polls, jcv_values (chassis_decode bs))] else []) \<rparr>)"

definition rcl_good :: "rcl_app \<Rightarrow> bool" where
  "rcl_good app \<longleftrightarrow> (\<exists>ds. jcv_values (ra_cmd app) = Some ds \<and> length ds = 2)"

lemma rcl_size: "unat (cc_payload_size JointCommandCodec (jc_ctx chassis_cp)) = 100"
    "cc_payload_size JointCommandCodec (jc_ctx chassis_cp) = 100"
  by (simp_all add: JointCommandCodec_def chassis_sizes)

lemma rcl_state_complete: "js_complete chassis_sp (rcl_state p)"
  by (simp add: js_complete_def rcl_state_def chassis_sp_def)

lemma accepted_write [simp]: "accepted tr n (ops @ [Op_Write v]) = accepted tr n ops"
  by simp

lemma rcl_cycle_step:
  assumes g: "rcl_good app" and u: "rcl_up kc ops (cl, t)"
  shows "\<exists>cl' app'. app' = rcl_step now (latest 100 (accepted (cfg_tier (kc_transport kc)) 100 ops)) app \<and>
    rcl_app_cycle kc now (app, cl) = Some (app', cl') \<and> rcl_good app' \<and>
    rcl_up kc (ops @ [Op_Write (rcl_state (ra_pos app'))]) (cl', t)"
proof -
  let ?bs = "latest 100 (accepted (cfg_tier (kc_transport kc)) 100 ops)"
  let ?pos = "f64_add (ra_pos app) position_step"
  obtain ds where ds: "jcv_values (ra_cmd app) = Some ds" "length ds = 2" using g by (auto simp: rcl_good_def)
  obtain cl' where w: "write_state JointStateCodec (rcl_state ?pos) cl = Some cl'"
      "rcl_up kc (ops @ [Op_Write (rcl_state ?pos)]) (cl', t)"
    using joint_client.up_write [OF u rcl_state_complete] by blast
  have "read_command JointCommandCodec kc (ra_cmd app) cl' = Some (True, chassis_decode ?bs)"
    using joint_client.read_command_bytes [OF w(2), of "ra_cmd app"] chassis_read [OF _ ds, of ?bs] by (simp add: rcl_size)
  then have "rcl_app_cycle kc now (app, cl) = Some (rcl_step now ?bs app, cl')"
    using w(1) by (simp add: rcl_app_cycle_def rcl_step_def Let_def)
  moreover have "rcl_good (rcl_step now ?bs app)" by (simp add: rcl_good_def rcl_step_def chassis_decode_def Let_def)
  ultimately show ?thesis using w(2) by (auto simp: rcl_step_def Let_def)
qed

lemma rcl_step_out:
  "ra_pos (rcl_step now bs app) = advance (ra_pos app)" "ra_cmd (rcl_step now bs app) = chassis_decode bs"
  by (simp_all add: rcl_step_def advance_def Let_def)

lemma rcl_fold:
  "length cs = length ios \<Longrightarrow> cs \<noteq> [] \<Longrightarrow>
   ra_pos (fold (\<lambda>(c, io). rcl_step io c) (zip cs ios) app) = (advance ^^ length cs) (ra_pos app) \<and>
   ra_cmd (fold (\<lambda>(c, io). rcl_step io c) (zip cs ios) app) = chassis_decode (last cs)"
proof (induction cs ios arbitrary: app rule: list_induct2')
  case (4 c cs io ios)
  then show ?case by (cases "cs = []") (simp_all add: rcl_step_out funpow_swap1)
qed simp_all

lemma last_heard_bytes:
  "xs \<noteq> [] \<Longrightarrow> last (heard_bytes tr n bss xs) = latest n (bss @ accepted tr n (concat (map fst xs)))"
proof (induction xs arbitrary: bss)
  case (Cons x xs)
  obtain ops io where x: "x = (ops, io)" by fastforce
  show ?case
  proof (cases "xs = []")
    case False
    then have "heard_bytes tr n (bss @ accepted tr n ops) xs \<noteq> []" using length_heard_bytes [of tr n _ xs] by (metis length_0_conv)
    then show ?thesis using Cons.IH [OF False] by (simp add: x)
  qed (simp add: x)
qed simp

section \<open>Properties\<close>

text \<open>C25: The Tier 1 end-to-end node: once started, for every schedule of deliveries of which the last payload of a command's
  size is a joint command, its loop runs without an undefined operation; the command it holds is the joint command that came last; and the next publication is read by a ROS 2
  subscriber as the two joints at the position that the cycles so far have advanced to. The
  publications between the rounds change nothing of this (\<open>run_rounds_quiet\<close>).\<close>

theorem rcl_app_exchanges:
  assumes t: "transport_reachable (kc_transport kc) (ce_zenoh env) t" and n: "\<not> cl_initialized cl"
    and k: "132 \<le> kc_max_state kc" "kc_max_state kc < 2 ^ 32" "100 \<le> kc_max_cmd kc" "kc_max_cmd kc < 2 ^ 32"
    and sc: "length scratch = kc_max_cmd kc"
    and start: "rcl_app_start kc env scratch now (cl, t) = Some (Inr app0, cl1, t1)"
    and xs: "list_all (\<lambda>x. deliveries (fst x)) xs" "xs \<noteq> []"
    and acc: "cmds = accepted (cfg_tier (kc_transport kc)) 100 (concat (map fst xs))" "cmds \<noteq> []"
      "jc_encodes chassis_cp v (last cmds)"
  shows "\<exists>app cl' payload. run_rounds JointStateCodec kc env (rcl_app_cycle kc) xs (app0, cl1, t1) = Some (app, cl', t1) \<and>
    ra_cmd app = v \<and>
    zenoh_publish_state kc env cl' t1 = zenbedded_transport_publish (kc_transport kc) (ce_zenoh env) (cl_pub cl') payload t1 \<and>
    read_joint_state payload =
      Some \<lparr> msg_stamp = (0, 0), msg_frame_id = ''base_link'', msg_name = [''stepper'', ''pendulum''],
             msg_position = [(advance ^^ length xs) 0, 0], msg_velocity = [0, 0], msg_effort = [0, 0] \<rparr>"
proof -
  have f: "js_fits chassis_sp (kc_max_state kc)" "jc_fits chassis_cp (kc_max_cmd kc)"
    using k by (simp_all add: js_fits_def jc_fits_def chassis_sizes) (simp_all add: chassis_sp_def chassis_cp_def chassis_joints_def)
  have i: "client_init JointStateCodec JointCommandCodec kc env 100 chassis_sp chassis_cp scratch cl t = Some (0, cl1, t1)"
      "app0 = rcl_app_new now"
    using start by (auto simp: rcl_app_start_def bind_eq_Some_conv split: if_splits)
  have u: "rcl_up kc [] (cl1, t1)"
    by (rule joint_client.up_init [OF f sc n transport_reachable_inv [OF t] i(1) client_init_zero [OF i(1)]])
  have g: "rcl_good app0" by (simp add: i(2) rcl_good_def rcl_app_new_def)
  let ?cs = "heard_bytes (cfg_tier (kc_transport kc)) 100 [] xs"
  obtain cl' ops' app where r: "run_rounds JointStateCodec kc env (rcl_app_cycle kc) xs (app0, cl1, t1) = Some (app, cl', t1)"
      "app = fold (\<lambda>(c, io). rcl_step io c) (zip ?cs (map snd xs)) app0"
      "rcl_up kc ops' (cl', t1)" "written ops' \<noteq> []" "last (written ops') = rcl_state (ra_pos app)"
    using joint_client.up_run_rounds [OF u xs(1), of rcl_good rcl_step "rcl_app_cycle kc" "\<lambda>a. rcl_state (ra_pos a)" app0 env,
        unfolded rcl_size(1), OF rcl_cycle_step g] xs(2) by auto
  have c: "?cs \<noteq> []" "length ?cs = length (map snd xs)" using xs(2) length_heard_bytes [of _ 100 "[]" xs]
    by (metis length_0_conv, simp)
  have l: "last ?cs = last cmds" "length (last cmds) = 100"
    using last_heard_bytes [OF xs(2)] acc(1,2) accepted_length [OF last_in_set] by (auto simp: latest_def)
  have a: "ra_pos app = (advance ^^ length xs) 0" "ra_cmd app = v"
    using rcl_fold [OF c(2,1), of app0] chassis_decode_encoded [OF acc(3) l(2)] by (simp_all add: r(2) l(1) i(2) rcl_app_new_def)
  show ?thesis
    using r(1,5) a joint_client.publish_up [OF r(3,4), of env] js_wire_read [OF f(1) rcl_state_complete, of "ra_pos app"]
    by (auto simp: chassis_sizes rcl_state_def)
qed

definition chassis_cmd :: jc_value where
  "chassis_cmd = \<lparr> jcv_stamp_sec = 3, jcv_stamp_nanosec = 4, jcv_values = Some [7, 8] \<rparr>"

definition chassis_wire :: "byte list" where
  "chassis_wire = overlay (cdr_joint_command (Some (3, 4)) (jc_frame chassis_cp) (jc_names chassis_cp) (jc_interface chassis_cp)
     (Some [7, 8])) (replicate 100 0)"

lemma chassis_encodes: "jc_encodes chassis_cp chassis_cmd chassis_wire" "length chassis_wire = 100"
proof -
  have "length (cdr_joint_command (Some (3, 4)) (jc_frame chassis_cp) (jc_names chassis_cp) (jc_interface chassis_cp) (Some [7, 8])) = 100"
    by code_simp
  then have "carries chassis_wire (cdr_joint_command (Some (3, 4)) (jc_frame chassis_cp) (jc_names chassis_cp) (jc_interface chassis_cp)
      (Some [7, 8]))"
    unfolding chassis_wire_def by (intro carries_overlay) simp
  then show "jc_encodes chassis_cp chassis_cmd chassis_wire"
    by (simp add: jc_encodes_def chassis_cmd_def) (simp add: chassis_cp_def)
qed (simp add: chassis_wire_def)

theorem rcl_app_exchanges_witness:
  "\<exists>app0 cl1 t1 app cl' payload.
    rcl_app_start (demo_kc tier1_cfg) demo_env (replicate 256 0) 5 (demo_client, transport_static) = Some (Inr app0, cl1, t1) \<and>
    run_rounds JointStateCodec (demo_kc tier1_cfg) demo_env (rcl_app_cycle (demo_kc tier1_cfg))
      [([Op_Receive [1]], 10), ([Op_Receive chassis_wire], 20)] (app0, cl1, t1) = Some (app, cl', t1) \<and>
    ra_cmd app = chassis_cmd \<and>
    zenoh_publish_state (demo_kc tier1_cfg) demo_env cl' t1 =
      zenbedded_transport_publish tier1_cfg quiet_zenoh (cl_pub cl') payload t1 \<and>
    map_option msg_position (read_joint_state payload) = Some [advance (advance 0), 0]"
proof -
  let ?kc = "demo_kc tier1_cfg" and ?xs = "[([Op_Receive [1]], 10), ([Op_Receive chassis_wire], 20)]"
  have f: "js_fits chassis_sp (kc_max_state ?kc)" "jc_fits chassis_cp (kc_max_cmd ?kc)"
    by (simp_all add: js_fits_def jc_fits_def chassis_sizes) (simp_all add: chassis_sp_def chassis_cp_def chassis_joints_def)
  obtain cl1 t1 where "client_init JointStateCodec JointCommandCodec ?kc demo_env 100 chassis_sp chassis_cp (replicate 256 0)
       demo_client transport_static = Some (0, cl1, t1)"
    using joint_client.client_init_accepts [OF f, of "replicate 256 0" transport_static demo_env 100 demo_client] demo_client_fresh
    by auto
  then have s: "rcl_app_start ?kc demo_env (replicate 256 0) 5 (demo_client, transport_static) = Some (Inr (rcl_app_new 5), cl1, t1)"
    by (simp add: rcl_app_start_def)
  have reach: "transport_reachable (kc_transport ?kc) (ce_zenoh demo_env) transport_static" by (rule reach_static)
  have a: "[chassis_wire] = accepted (cfg_tier (kc_transport ?kc)) 100 (concat (map fst ?xs))"
    by (simp add: chassis_encodes deliverable_def tier1_cfg_def)
  show ?thesis
    using rcl_app_exchanges [OF reach demo_client_fresh(1) _ _ _ _ _ s _ _ a] s chassis_encodes(1)
    by (fastforce simp: deliveries_def)
qed

end
