(* ===== verification/Transport_Apps.thy ===== *)
theory Transport_Apps
  imports Tier1_App
begin

text \<open>
  The applications without the client: the Tier 1 node of joint states and commands
  (\<open>demos/zenbedded_test_node/src/main.cpp\<close>); the Tier 2 node that answers every command
  (\<open>demos/zenbedded_tier2_transport_test/zephyr/src/main.cpp\<close>), whose callback and control thread
  share a command and a semaphore and are steps of a relation here; and the node on plain zenoh-pico
  (\<open>demos/zenoh_e2e/src/main.c\<close>). Log output is left out, apart from what a callback is there to print.
\<close>

section \<open>The node of joint states\<close>

text \<open>The one callback, and its user data.\<close>

datatype node_callback = Cmd_1_Rx_Callback

type_synonym node_transport = "(node_callback, zcdr_joint_command_ctx) transport"

record joint_node =
  jn_ctx :: zcdr_joint_state_ctx
  jn_buf :: "byte list"
  jn_pub :: "nat option"
  jn_pos :: f64  \<comment> \<open>\<open>pos_2[0]\<close>; the other values stay zero\<close>
  jn_last :: u32

text \<open>\<open>Inl\<close> is the code that \<open>main\<close> returns with; \<open>now\<close> is the uptime at the end.\<close>

definition joint_node_start ::
    "transport_config \<Rightarrow> zenoh_env \<Rightarrow> u32 \<Rightarrow> string \<Rightarrow> string \<Rightarrow> string option \<Rightarrow> u32 \<Rightarrow> node_transport
       \<Rightarrow> ((int + joint_node) \<times> node_transport) option" where
  "joint_node_start cfg env domain node mode locator now t =
     (case zenbedded_transport_init cfg env domain node mode locator t of (r, t) \<Rightarrow>
        if r \<noteq> 0 then Some (Inl (-1), t)
        else do {
          (ctx, buf) \<leftarrow> zcdr_init_joint_state (Some ''base_link'') chassis_joints 2 (replicate 512 0);
          (sub_ctx, dummy) \<leftarrow> zcdr_init_joint_command (Some ''base_link'') chassis_joints 2 (Some ''position'') (replicate 256 0);
          (pub, t) \<leftarrow> zenbedded_transport_declare_publisher cfg env ''joint_states'' (Some ''sensor_msgs::msg::dds_::JointState_'') t;
          (sub, t) \<leftarrow> zenbedded_transport_declare_subscriber cfg env ''joint_commands''
            (Some ''control_msgs::msg::dds_::JointCommand_'') (Some Cmd_1_Rx_Callback) (Some sub_ctx) t;
          Some (Inr \<lparr> jn_ctx = ctx, jn_buf = buf, jn_pub = pub, jn_pos = 0, jn_last = now \<rparr>, t) })"

definition joint_node_cycle ::
    "transport_config \<Rightarrow> zenoh_env \<Rightarrow> u32 \<Rightarrow> joint_node \<times> node_transport \<Rightarrow> (joint_node \<times> node_transport) option" where
  "joint_node_cycle cfg env current_time = (\<lambda>(jn, t).
     if 10 \<le> current_time - jn_last jn then do {
       buf \<leftarrow> zcdr_serialize_joint_state (jn_ctx jn) 0 0 (Some [jn_pos jn, 0]) (Some [0, 0]) (Some [0, 0]) (jn_buf jn);
       payload \<leftarrow> mem_read buf 0 (unat (js_payload_size (jn_ctx jn)));
       (r, t) \<leftarrow> zenbedded_transport_publish cfg env (jn_pub jn) payload t;
       Some (jn\<lparr> jn_buf := buf, jn_pos := f64_add (jn_pos jn) position_step, jn_last := current_time \<rparr>, t) }
     else Some (jn, t))"

text \<open>The callback's static variables, and what it prints: the rate, and the values if the payload is one.\<close>

record rx_stats =
  rx_count :: u32
  rx_last :: u32

definition cmd_1_rx_callback ::
    "zcdr_joint_command_ctx \<Rightarrow> byte list \<Rightarrow> size_t \<Rightarrow> u32 \<Rightarrow> rx_stats
       \<Rightarrow> (rx_stats \<times> (u32 \<times> f64 list option) option) option" where
  "cmd_1_rx_callback ctx payload buffer_size current_time st =
     do { let count = rx_count st + 1;
          let last = (if rx_last st = 0 then current_time else rx_last st);
          (success, out) \<leftarrow> zcdr_deserialize_joint_command ctx payload buffer_size
            \<lparr> out_cmd_sec = None, out_cmd_nsec = None, out_values = Some [0, 0] \<rparr>;
          if 1000 \<le> current_time - last then
            Some (\<lparr> rx_count = 0, rx_last = current_time \<rparr>, Some (count, if success then out_values out else None))
          else Some (\<lparr> rx_count = count, rx_last = last \<rparr>, None) }"

section \<open>The node that answers commands\<close>

text \<open>Where \<open>main\<close> is, and what the callback and the control thread do. The callback runs in one thread of
  zenoh; its \<open>memcpy\<close> goes byte by byte, in the order of the addresses. \<open>pp_given\<close> and \<open>pp_published\<close> record the
  commands whose callback has finished and the payloads given to the transport.\<close>

datatype pp_stage = PP_Start | PP_Publisher | PP_Running | PP_Returned

record pingpong =
  pp_main :: pp_stage
  pp_pub :: bool  \<comment> \<open>\<open>g_state_pub\<close> is set\<close>
  pp_latest :: "byte list"
  pp_position :: f64
  pp_velocity :: f64
  pp_sem :: nat
  pp_copy :: "(byte list \<times> nat) option"
  pp_awake :: bool
  pp_loops :: u32
  pp_given :: "byte list list"
  pp_published :: "byte list list"

definition pp_init :: pingpong where
  "pp_init = \<lparr> pp_main = PP_Start, pp_pub = False, pp_latest = replicate 8 0, pp_position = 0, pp_velocity = 0, pp_sem = 0, pp_copy = None,
     pp_awake = False, pp_loops = 0, pp_given = [], pp_published = [] \<rparr>"

text \<open>One turn of the control thread after it took the semaphore.\<close>

definition pp_answer :: "pingpong \<Rightarrow> pingpong" where
  "pp_answer s =
     (let pos = f64_add (pp_position s) position_step;
          vel = f64_mul (word_of_le (pp_latest s)) effort_scale
      in s\<lparr> pp_position := pos, pp_velocity := vel, pp_loops := pp_loops s + 1, pp_awake := False,
            pp_published := (if pp_pub s then pp_published s @ [le64 pos @ le64 vel]
                             else pp_published s) \<rparr>)"

inductive pp_step :: "pingpong \<Rightarrow> pingpong \<Rightarrow> bool" where
  main_fails: "pp_main s \<in> {PP_Start, PP_Publisher} \<Longrightarrow> pp_step s (s\<lparr> pp_main := PP_Returned \<rparr>)"
| main_publisher: "pp_main s = PP_Start \<Longrightarrow> pp_step s (s\<lparr> pp_main := PP_Publisher, pp_pub := True \<rparr>)"
| main_subscriber: "pp_main s = PP_Publisher \<Longrightarrow> pp_step s (s\<lparr> pp_main := PP_Running \<rparr>)"
| command_mismatch: "pp_main s = PP_Running \<Longrightarrow> pp_copy s = None \<Longrightarrow> length (bytes :: byte list) \<noteq> 8 \<Longrightarrow> pp_step s s"
| command_begin: "pp_main s = PP_Running \<Longrightarrow> pp_copy s = None \<Longrightarrow> length bytes = 8 \<Longrightarrow>
    pp_step s (s\<lparr> pp_copy := Some (bytes, 0) \<rparr>)"
| command_byte: "pp_copy s = Some (bytes, i) \<Longrightarrow> i < 8 \<Longrightarrow>
    pp_step s (s\<lparr> pp_copy := Some (bytes, Suc i), pp_latest := (pp_latest s)[i := bytes ! i] \<rparr>)"
| command_give: "pp_copy s = Some (bytes, 8) \<Longrightarrow>
    pp_step s (s\<lparr> pp_copy := None, pp_sem := 1, pp_given := pp_given s @ [bytes] \<rparr>)"
| thread_take: "\<not> pp_awake s \<Longrightarrow> 0 < pp_sem s \<Longrightarrow> pp_step s (s\<lparr> pp_sem := pp_sem s - 1, pp_awake := True \<rparr>)"
| thread_answer: "pp_awake s \<Longrightarrow> pp_step s (pp_answer s)"

inductive pp_reachable :: "pingpong \<Rightarrow> bool" where
  pp_start: "pp_reachable pp_init"
| pp_next: "pp_reachable s \<Longrightarrow> pp_step s s' \<Longrightarrow> pp_reachable s'"

section \<open>The node on plain zenoh-pico\<close>

definition zenoh_call :: "zenoh_env \<Rightarrow> zcall \<Rightarrow> zlog \<Rightarrow> bool \<times> zlog" where
  "zenoh_call env c log = (z_ok env log c, log @ [(c, z_ok env log c)])"

definition zenoh_calls :: "zenoh_env \<Rightarrow> zcall list \<Rightarrow> zlog \<Rightarrow> zlog" where
  "zenoh_calls env cs log = fold (\<lambda>c log. snd (zenoh_call env c log)) cs log"

text \<open>The code that \<open>main\<close> returns with, or \<open>None\<close> if it enters its loop; and the calls it has made. The results of
  configuring, stopping and closing are not looked at. The one subscriber has number 0.\<close>

definition zenoh_e2e_main :: "zenoh_env \<Rightarrow> int option \<times> zlog" where
  "zenoh_e2e_main env =
     (let log = zenoh_calls env [Zp_Config_Insert Z_CONFIG_MODE_KEY ''client'',
                  Zp_Config_Insert Z_CONFIG_CONNECT_KEY ''tcp/127.0.0.1:7447''] [];
          (ok, log) = zenoh_call env Z_Open log
      in if \<not> ok then (Some 1, log)
      else let (ok, log) = zenoh_call env Zp_Start_Read_Task log
      in if \<not> ok then (Some 1, zenoh_calls env [Z_Close] log)
      else let (ok, log) = zenoh_call env Zp_Start_Lease_Task log
      in if \<not> ok then (Some 1, zenoh_calls env [Zp_Stop_Read_Task, Z_Close] log)
      else let (ok, log) = zenoh_call env (Z_Declare_Subscriber 0 ''zenbedded/e2e/test'') log
      in if \<not> ok then (Some 1, zenoh_calls env [Zp_Stop_Lease_Task, Zp_Stop_Read_Task, Z_Close] log)
      else (None, log))"

text \<open>What the callback prints; \<open>z_bytes_to_string\<close> is zenoh-pico's, and \<open>%.*s\<close> stops at a NUL.\<close>

definition on_test_message :: "(byte list \<Rightarrow> string option) \<Rightarrow> byte list \<Rightarrow> string" where
  "on_test_message z_bytes_to_string payload =
     (case z_bytes_to_string payload of
        None \<Rightarrow> ''Received test message: <invalid payload>'' @ [CHR 0x0A]
      | Some s \<Rightarrow> ''Received test message: '' @ c_chars s @ [CHR 0x0A])"

end
