(* ===== verification/Transport_Apps_Props.thy ===== *)
theory Transport_Apps_Props
  imports Transport_Apps
begin

text \<open>
  The properties of the applications that use the transport directly: what the Tier 1 node publishes, that its
  callback accepts any payload, what the Tier 2 node answers once it is at rest, and what it may answer before.
\<close>

section \<open>The node of joint states\<close>

abbreviation node_wire :: "(i32 \<times> u32) option \<Rightarrow> f64 list option \<Rightarrow> f64 list option \<Rightarrow> f64 list option \<Rightarrow> cdr_stream" where
  "node_wire st p v e \<equiv> cdr_joint_state st ''base_link'' [''stepper'', ''pendulum''] p v e"

abbreviation node_command :: cdr_stream where
  "node_command \<equiv> cdr_joint_command None ''base_link'' [''stepper'', ''pendulum''] ''position'' None"

lemma node_names:
  "opt_chars (Some ''base_link'') = ''base_link''" "opt_chars (Some ''position'') = ''position''"
  "joint_chars 2 chassis_joints = [''stepper'', ''pendulum'']"
  by code_simp+

lemma node_lengths:
  "length (node_wire None None None None) = 132" "js_written ''base_link'' [''stepper'', ''pendulum''] = 112"
  "length node_command = 100" "jc_written ''base_link'' [''stepper'', ''pendulum''] ''position'' = 80"
  by code_simp+

abbreviation node_js where "node_js \<equiv> js_layout ''base_link'' [''stepper'', ''pendulum'']"
abbreviation node_jc where "node_jc \<equiv> jc_layout ''base_link'' [''stepper'', ''pendulum''] ''position''"

lemma length_chassis: "length chassis_joints = 2"
  by (simp add: chassis_joints_def)

lemma node_init:
  "zcdr_init_joint_state (Some ''base_link'') chassis_joints 2 (replicate 512 0) =
     Some (node_js, overlay (node_wire None None None None) (replicate 512 0))"
  "\<exists>dummy. zcdr_init_joint_command (Some ''base_link'') chassis_joints 2 (Some ''position'') (replicate 256 0) = Some (node_jc, dummy)"
  using zcdr_init_joint_state_eq [of 2 chassis_joints "Some ''base_link''" "replicate 512 0"]
    zcdr_init_joint_command_eq [of 2 chassis_joints "Some ''base_link''" "Some ''position''" "replicate 256 0"]
  unfolding node_names node_lengths by (simp_all add: length_chassis)

lemma node_payload: "unat (js_payload_size node_js) = 132"
  by (simp add: js_layout_payload node_lengths)

definition node_buf :: "byte list \<Rightarrow> bool" where
  "node_buf wire \<longleftrightarrow> (\<exists>st p v e. doubles_ok 2 p \<and> doubles_ok 2 v \<and> doubles_ok 2 e \<and>
     wire = overlay (node_wire st p v e) (replicate 512 0))"

definition node_message :: "f64 \<Rightarrow> joint_state_msg" where
  "node_message p = \<lparr> msg_stamp = (0, 0), msg_frame_id = ''base_link'', msg_name = [''stepper'', ''pendulum''],
     msg_position = [p, 0], msg_velocity = [0, 0], msg_effort = [0, 0] \<rparr>"

lemma two_doubles: "doubles_ok 2 xs = doubles_ok (Suc (Suc 0)) xs" "doubles_ok (Suc (Suc 0)) (Some [x, y])"
  by (simp_all add: doubles_ok_def numeral_2_eq_2)

lemma node_serialize:
  assumes "node_buf wire"
  shows "\<exists>wire' payload. zcdr_serialize_joint_state node_js 0 0 (Some [p, 0]) (Some [0, 0]) (Some [0, 0]) wire = Some wire' \<and>
    node_buf wire' \<and> mem_read wire' 0 132 = Some payload \<and> read_joint_state payload = Some (node_message p)"
proof -
  let ?m = "node_wire (Some (0, 0)) (Some [p, 0]) (Some [0, 0]) (Some [0, 0])"
  let ?b = "overlay ?m (replicate 512 0)"
  have l: "length ?m = 132"
    using length_joint_state_layout [of "[''stepper'', ''pendulum'']" "Some [p, 0]" "Some [0, 0]" "Some [0, 0]"] by (simp add: node_lengths)
  have "carries (take 132 ?b) ?m" using l by (intro carries_take carries_overlay) simp_all
  then have "read_joint_state (take 132 ?b) = Some (node_message p)"
    unfolding node_message_def by (intro read_joint_state_carries) simp_all
  moreover have "node_buf ?b"
    unfolding node_buf_def by (intro exI conjI refl) (simp_all add: two_doubles)
  moreover have "zcdr_serialize_joint_state node_js 0 0 (Some [p, 0]) (Some [0, 0]) (Some [0, 0]) wire = Some ?b"
    using assms zcdr_serialize_joint_state_overlay [of "[''stepper'', ''pendulum'']" "Some [p, 0]" "Some [0, 0]" "Some [0, 0]"
        _ _ _ "''base_link''" "replicate 512 0" 0 0]
    unfolding node_buf_def by (auto simp: two_doubles node_lengths)
  ultimately show ?thesis by (auto simp: mem_read_ok)
qed

lemma node_started:
  assumes "joint_node_start cfg env domain node mode locator now t0 = Some (Inr jn, t)"
  shows "jn_ctx jn = node_js \<and> node_buf (jn_buf jn) \<and> jn_pos jn = 0 \<and> jn_last jn = now"
proof -
  obtain d where "zcdr_init_joint_command (Some ''base_link'') chassis_joints 2 (Some ''position'') (replicate 256 0) = Some (node_jc, d)"
    using node_init(2) by blast
  moreover have "node_buf (overlay (node_wire None None None None) (replicate 512 0))"
    unfolding node_buf_def by (rule exI)+ (auto simp: doubles_ok_def)
  ultimately show ?thesis using assms
    by (auto simp: joint_node_start_def node_init(1) bind_eq_Some_conv split: prod.splits if_splits)
qed

text \<open>On a zenoh that accepts every call the start succeeds.\<close>

lemma joint_node_starts:
  fixes t :: node_transport
  assumes inv: "transport_inv cfg t" and unused: "\<not> tr_initialized t" and ok: "\<And>log c. z_ok env log c"
  shows "\<exists>jn t' i. joint_node_start cfg env domain node mode locator now t = Some (Inr jn, t') \<and> jn_pub jn = Some i"
proof -
  obtain u where u: "zenbedded_transport_init cfg env domain node mode locator t = (0, u)" "tr_initialized u"
    using transport_init_accepts [of env cfg domain node mode locator t] ok by blast
  have iu: "transport_inv cfg u" using transport_init_inv [OF inv, of env domain node mode locator] u by simp
  have un: "used_pubs u = {}" "used_subs u = {}" using transport_init_unused [OF inv unused u(1)] by simp_all
  obtain i v where p: "zenbedded_transport_declare_publisher cfg env ''joint_states'' (Some ''sensor_msgs::msg::dds_::JointState_'') u = Some (Some i, v)"
    using declare_publisher_accepts [OF iu u(2), of env "Some ''sensor_msgs::msg::dds_::JointState_''" "''joint_states''"] ok un
    by (auto simp: MAX_PUBLISHERS_def)
  have v: "transport_inv cfg v" "tr_initialized v" "used_subs v = {}"
    using declare_publisher_session [OF iu p] u(2) un by simp_all
  obtain c d where cd: "zcdr_init_joint_command (Some ''base_link'') chassis_joints 2 (Some ''position'') (replicate 256 0) = Some (c, d)"
    using node_init(2) by blast
  obtain k w where "zenbedded_transport_declare_subscriber cfg env ''joint_commands'' (Some ''control_msgs::msg::dds_::JointCommand_'')
      (Some Cmd_1_Rx_Callback) (Some c) v = Some (Some k, w)"
    using declare_subscriber_accepts [OF v(1,2), of env "Some ''control_msgs::msg::dds_::JointCommand_''" "''joint_commands''"
        "Some Cmd_1_Rx_Callback" "Some c"] ok v(3) by (auto simp: MAX_SUBSCRIBERS_def)
  then show ?thesis using u p cd by (simp add: joint_node_start_def node_init(1))
qed

text \<open>The wake-ups of a run at the given ticks that publish.\<close>

fun due_cycles :: "u32 \<Rightarrow> u32 list \<Rightarrow> nat" where
  "due_cycles prev [] = 0"
| "due_cycles prev (now # ticks) = (if 10 \<le> now - prev then Suc (due_cycles now ticks) else due_cycles prev ticks)"

fun joint_node_run ::
    "transport_config \<Rightarrow> zenoh_env \<Rightarrow> u32 list \<Rightarrow> joint_node \<times> node_transport \<Rightarrow> (joint_node \<times> node_transport) option" where
  "joint_node_run cfg env [] s = Some s"
| "joint_node_run cfg env (now # ticks) s = do { s \<leftarrow> joint_node_cycle cfg env now s; joint_node_run cfg env ticks s }"

lemma node_cycle_due:
  assumes j: "jn_ctx jn = node_js" "node_buf (jn_buf jn)" "jn_pub jn = Some i" and due: "10 \<le> now - jn_last jn"
  shows "\<exists>wire p. node_buf wire \<and> read_joint_state p = Some (node_message (jn_pos jn)) \<and>
    (\<forall>t. joint_node_cycle cfg env now (jn, t) =
      map_option (\<lambda>(r, t). (jn\<lparr> jn_buf := wire, jn_pos := advance (jn_pos jn), jn_last := now \<rparr>, t))
        (zenbedded_transport_publish cfg env (Some i) p t))"
proof -
  obtain wire p where p: "zcdr_serialize_joint_state node_js 0 0 (Some [jn_pos jn, 0]) (Some [0, 0]) (Some [0, 0]) (jn_buf jn) = Some wire"
      "node_buf wire" "mem_read wire 0 132 = Some p" "read_joint_state p = Some (node_message (jn_pos jn))"
    using node_serialize [OF j(2)] by blast
  have "joint_node_cycle cfg env now (jn, t) =
      map_option (\<lambda>(r, t). (jn\<lparr> jn_buf := wire, jn_pos := advance (jn_pos jn), jn_last := now \<rparr>, t))
        (zenbedded_transport_publish cfg env (Some i) p t)" for t
    using p due j
    by (cases "zenbedded_transport_publish cfg env (Some i) p t")
      (auto simp: joint_node_cycle_def node_payload advance_def split: prod.splits)
  then show ?thesis using p by blast
qed

lemma node_run:
  assumes "jn_ctx jn = node_js" "node_buf (jn_buf jn)" "jn_pub jn = Some i"
  shows "\<exists>payloads. map read_joint_state payloads =
      map (\<lambda>k. Some (node_message ((advance ^^ k) (jn_pos jn)))) [0..<due_cycles (jn_last jn) ticks] \<and>
    (\<forall>t. map_option snd (joint_node_run cfg env ticks (jn, t)) = publish_all cfg env i payloads t)"
  using assms
proof (induction ticks arbitrary: jn)
  case (Cons now ticks)
  show ?case
  proof (cases "10 \<le> now - jn_last jn")
    case due: True
    obtain wire p where p: "node_buf wire" "read_joint_state p = Some (node_message (jn_pos jn))"
        "\<And>t. joint_node_cycle cfg env now (jn, t) =
          map_option (\<lambda>(r, t). (jn\<lparr> jn_buf := wire, jn_pos := advance (jn_pos jn), jn_last := now \<rparr>, t))
            (zenbedded_transport_publish cfg env (Some i) p t)"
      using node_cycle_due [OF Cons.prems due] by blast
    obtain ps where ps: "map read_joint_state ps =
        map (\<lambda>k. Some (node_message ((advance ^^ k) (advance (jn_pos jn))))) [0..<due_cycles now ticks]"
        "\<And>u. map_option snd (joint_node_run cfg env ticks
          (jn\<lparr> jn_buf := wire, jn_pos := advance (jn_pos jn), jn_last := now \<rparr>, u)) = publish_all cfg env i ps u"
      using Cons.IH [of "jn\<lparr> jn_buf := wire, jn_pos := advance (jn_pos jn), jn_last := now \<rparr>"] Cons.prems p(1) by auto
    have "map read_joint_state (p # ps) =
        map (\<lambda>k. Some (node_message ((advance ^^ k) (jn_pos jn)))) [0..<due_cycles (jn_last jn) (now # ticks)]"
      using due p(2) ps(1) by (simp add: upt_conv_Cons map_Suc_upt [symmetric] funpow_swap1 o_def del: upt_Suc)
    moreover have "map_option snd (joint_node_run cfg env (now # ticks) (jn, t)) = publish_all cfg env i (p # ps) t" for t
      using p(3) ps(2) by (cases "zenbedded_transport_publish cfg env (Some i) p t") auto
    ultimately show ?thesis by blast
  next
    case False
    then have "joint_node_cycle cfg env now (jn, t) = Some (jn, t)" for t by (simp add: joint_node_cycle_def)
    then show ?thesis using False Cons by simp
  qed
qed simp

lemma deserialized_values:
  "zcdr_deserialize_joint_command ctx payload n out = Some (ok, out') \<Longrightarrow> out_values out \<noteq> None \<Longrightarrow> out_values out' \<noteq> None"
  by (auto simp: zcdr_deserialize_joint_command_def fetch_doubles_def bind_eq_Some_conv Let_def split: if_splits)

text \<open>The callback accepts whatever arrives: it only reads inside of the payload, counts it, and reports once per
  second how many payloads came and, if the last one is long enough, two values.\<close>

lemma node_callback:
  assumes "unat n \<le> length payload"
  shows "\<exists>values. cmd_1_rx_callback node_jc payload n now st =
    (let first = (if rx_last st = 0 then now else rx_last st)
     in if 1000 \<le> now - first
        then Some (\<lparr> rx_count = 0, rx_last = now \<rparr>, Some (rx_count st + 1, values))
        else Some (\<lparr> rx_count = rx_count st + 1, rx_last = first \<rparr>, None)) \<and>
    (values = None \<longleftrightarrow> unat n < 100)"
proof -
  let ?o = "\<lparr> out_cmd_sec = None, out_cmd_nsec = None, out_values = Some [0, 0] \<rparr>"
  have "\<exists>r. zcdr_deserialize_joint_command node_jc payload n ?o = Some r \<and> (fst r \<longleftrightarrow> \<not> unat n < 100) \<and>
      out_values (snd r) \<noteq> None"
    using zcdr_deserialize_joint_command_total [of "[''stepper'', ''pendulum'']" "''base_link''" "''position''" n payload ?o]
      assms deserialized_values [of node_jc payload n ?o]
    by (auto simp: node_lengths room_for_def split: if_splits)
  then obtain ok out where o: "zcdr_deserialize_joint_command node_jc payload n ?o = Some (ok, out)"
      "ok \<longleftrightarrow> \<not> unat n < 100" "out_values out \<noteq> None" by force
  show ?thesis
    by (rule exI [of _ "if ok then out_values out else None"]) (use o in \<open>simp add: cmd_1_rx_callback_def Let_def\<close>)
qed

section \<open>The node that answers commands\<close>

definition half_effort :: "byte list \<Rightarrow> f64" where
  "half_effort bytes = f64_mul (word_of_le bytes) effort_scale"

definition pp_reply :: "nat \<Rightarrow> byte list \<Rightarrow> byte list" where
  "pp_reply n bytes = le64 ((advance ^^ n) 0) @ le64 (half_effort bytes)"

definition pp_pending :: "pingpong \<Rightarrow> nat" where
  "pp_pending s = pp_sem s + of_bool (pp_awake s)"

definition pp_ok :: "pingpong \<Rightarrow> bool" where
  "pp_ok s \<longleftrightarrow> pp_sem s \<le> 1 \<and> length (pp_latest s) = 8 \<and>
     (pp_given s \<noteq> [] \<or> pp_copy s \<noteq> None \<longrightarrow> pp_main s = PP_Running) \<and>
     (pp_main s \<in> {PP_Publisher, PP_Running} \<longrightarrow> pp_pub s) \<and>
     length (pp_published s) + pp_pending s \<le> length (pp_given s) \<and>
     pp_position s = (advance ^^ length (pp_published s)) 0 \<and> pp_loops s = of_nat (length (pp_published s))"

definition pp_fresh :: "pingpong \<Rightarrow> bool" where
  "pp_fresh s \<longleftrightarrow>
     (case pp_copy s of
        None \<Rightarrow> pp_given s \<noteq> [] \<longrightarrow> pp_latest s = last (pp_given s)
      | Some (bytes, i) \<Rightarrow> i \<le> 8 \<and> length bytes = 8 \<and> take i (pp_latest s) = take i bytes) \<and>
     (pp_copy s = None \<and> pp_pending s = 0 \<and> pp_given s \<noteq> [] \<longrightarrow>
        pp_published s \<noteq> [] \<and> last (pp_published s) = pp_reply (length (pp_published s)) (last (pp_given s)))"

lemmas pp_defs = pp_ok_def pp_fresh_def pp_pending_def

lemma take_Suc_update:
  assumes "i < length xs" "i < length ys" "take i xs = take i ys"
  shows "take (Suc i) (xs[i := ys ! i]) = take (Suc i) ys"
  using assms by (simp add: take_Suc_conv_app_nth)

lemma pp_step_ok: "pp_step s s' \<Longrightarrow> pp_ok s \<Longrightarrow> pp_ok s'"
proof (induction rule: pp_step.induct)
  case (thread_answer s)
  then have "pp_given s \<noteq> []" by (auto simp: pp_ok_def pp_pending_def)
  then have "pp_main s = PP_Running" using thread_answer by (simp add: pp_ok_def)
  then show ?case using thread_answer
    by (auto simp: pp_ok_def pp_pending_def pp_answer_def Let_def advance_def)
qed (auto simp: pp_ok_def pp_pending_def)

lemma pp_step_fresh: "pp_step s s' \<Longrightarrow> pp_ok s \<Longrightarrow> pp_fresh s \<Longrightarrow> pp_fresh s'"
proof (induction rule: pp_step.induct)
  case (command_byte s bytes i)
  then show ?case using take_Suc_update [of i "pp_latest s" bytes] by (auto simp: pp_ok_def pp_fresh_def)
next
  case (thread_answer s)
  then have "pp_given s \<noteq> []" by (auto simp: pp_ok_def pp_pending_def)
  then have "pp_main s = PP_Running" using thread_answer by (simp add: pp_ok_def)
  then show ?case using thread_answer
    by (auto simp: pp_ok_def pp_fresh_def pp_pending_def pp_answer_def Let_def pp_reply_def half_effort_def advance_def split: option.splits)
qed (auto simp: pp_ok_def pp_fresh_def pp_pending_def split: option.splits)

lemma pp_reachable_ok: "pp_reachable s \<Longrightarrow> pp_ok s \<and> pp_fresh s"
proof (induction rule: pp_reachable.induct)
  case pp_start
  show ?case by (simp add: pp_init_def pp_ok_def pp_fresh_def pp_pending_def)
qed (blast intro: pp_step_ok pp_step_fresh)

text \<open>A run in which a command arrives, and the next one while the thread answers the first.\<close>

definition pp_two :: "byte list \<Rightarrow> byte list \<Rightarrow> nat \<Rightarrow> pingpong" where
  "pp_two a b i = pp_init\<lparr> pp_main := PP_Running, pp_pub := True, pp_latest := take i b @ drop i a, pp_awake := True, pp_copy := Some (b, i),
     pp_given := [a] \<rparr>"

lemma pp_reach_copy:
  fixes s :: pingpong
  assumes "pp_reachable (s\<lparr> pp_copy := Some (b, 0), pp_latest := a \<rparr>)" "length a = 8" "length b = 8" "i \<le> 8"
  shows "pp_reachable (s\<lparr> pp_copy := Some (b, i), pp_latest := take i b @ drop i a \<rparr>)"
  using assms(4)
proof (induction i)
  case (Suc i)
  let ?s = "s\<lparr> pp_copy := Some (b, i), pp_latest := take i b @ drop i a \<rparr>"
  have "(take i b @ drop i a)[i := b ! i] = take (Suc i) b @ drop (Suc i) a"
    using Suc.prems assms(2,3)
    by (simp add: list_update_append take_Suc_conv_app_nth) (simp add: Cons_nth_drop_Suc [symmetric])
  then have "?s\<lparr> pp_copy := Some (b, Suc i), pp_latest := (pp_latest ?s)[i := b ! i] \<rparr> =
      s\<lparr> pp_copy := Some (b, Suc i), pp_latest := take (Suc i) b @ drop (Suc i) a \<rparr>"
    by simp
  moreover have "pp_reachable ?s" using Suc by simp
  ultimately show ?case
    using pp_next [OF _ command_byte [of ?s b i]] Suc.prems by simp
qed (use assms in simp)

definition pp_one :: "byte list \<Rightarrow> pingpong" where
  "pp_one a = pp_init\<lparr> pp_main := PP_Running, pp_pub := True, pp_latest := a, pp_awake := True, pp_given := [a] \<rparr>"

lemma pp_reach_one:
  assumes "length a = 8"
  shows "pp_reachable (pp_one a)"
proof -
  let ?r = "pp_init\<lparr> pp_main := PP_Running, pp_pub := True \<rparr>"
  have "pp_reachable ?r"
    using pp_next [OF pp_next [OF pp_start main_publisher] main_subscriber] by (simp add: pp_init_def)
  from pp_next [OF this command_begin [of ?r a]]
  have "pp_reachable (?r\<lparr> pp_copy := Some (a, 0), pp_latest := replicate 8 0 \<rparr>)"
    using assms by (simp add: pp_init_def)
  from pp_next [OF pp_reach_copy [OF this _ assms, of 8] command_give [of _ a]]
  have "pp_reachable (?r\<lparr> pp_latest := a, pp_sem := 1, pp_given := [a] \<rparr>)"
    using assms by (simp add: pp_init_def)
  from pp_next [OF this thread_take] show ?thesis by (simp add: pp_one_def pp_init_def)
qed

lemma pp_reach_two:
  assumes "length a = 8" "length b = 8" "i \<le> 8"
  shows "pp_reachable (pp_two a b i)"
proof -
  from pp_next [OF pp_reach_one [OF assms(1)] command_begin [of _ b]]
  have "pp_reachable ((pp_one a)\<lparr> pp_copy := Some (b, 0), pp_latest := a \<rparr>)"
    using assms(2) by (simp add: pp_one_def pp_init_def)
  from pp_reach_copy [OF this assms] show ?thesis by (simp add: pp_two_def pp_one_def pp_init_def)
qed

lemma pp_answer_two:
  "pp_published (pp_answer (pp_two a b i)) = [pp_reply 1 (take i b @ drop i a)]"
  "pp_given (pp_answer (pp_two a b i)) = [a]"
  by (simp_all add: pp_answer_def pp_two_def pp_init_def pp_reply_def half_effort_def advance_def Let_def)

section \<open>The node on plain zenoh-pico\<close>

text \<open>The session automaton for a caller that looks at the results of starting the tasks: a task that did not start
  does not run.\<close>

definition z_apply_checked :: "zcall \<Rightarrow> bool \<Rightarrow> zsession \<Rightarrow> zsession" where
  "z_apply_checked c ok s = (if \<not> ok \<and> c \<in> {Zp_Start_Read_Task, Zp_Start_Lease_Task} then s else z_apply c ok s)"

fun z_run_checked :: "zlog \<Rightarrow> zsession \<Rightarrow> zsession option" where
  "z_run_checked [] s = Some s"
| "z_run_checked ((c, ok) # log) s = (if z_legal c s then z_run_checked log (z_apply_checked c ok s) else None)"

section \<open>Properties\<close>

text \<open>C26: The Tier 1 node, once started: whenever it wakes up, the payloads that its run so far has put are one for each
  wake-up that came 10 milliseconds or more after the last one, in order, and a ROS 2 subscriber reads the
  \<open>k\<close>-th as a message of the two joints whose first position is \<open>k\<close> steps of 0.01 and whose other values are zero.\<close>

theorem joint_node_publishes:
  assumes "joint_node_start cfg env domain node mode locator start t0 = Some (Inr jn, t)" and "jn_pub jn = Some i"
  shows "\<exists>payloads. map read_joint_state payloads =
      map (\<lambda>k. Some \<lparr> msg_stamp = (0, 0), msg_frame_id = ''base_link'', msg_name = [''stepper'', ''pendulum''],
        msg_position = [(advance ^^ k) 0, 0], msg_velocity = [0, 0], msg_effort = [0, 0] \<rparr>) [0..<due_cycles start ticks] \<and>
    map_option snd (joint_node_run cfg env ticks (jn, t)) = publish_all cfg env i payloads t"
  using node_run [of jn i ticks cfg env] node_started [OF assms(1)] assms(2) by (auto simp: node_message_def)

text \<open>C21: The Tier 2 node: in every reachable state it has published at most one payload per command received; and whenever
  the callback and the control thread are both at rest, the payload published last carries half of the command
  received last, although commands may have been dropped, torn or answered together before.\<close>

theorem pingpong_answers_last:
  assumes "pp_reachable s"
  shows "length (pp_published s) \<le> length (pp_given s) \<and>
    (pp_copy s = None \<and> pp_sem s = 0 \<and> \<not> pp_awake s \<and> pp_given s \<noteq> [] \<longrightarrow>
      last (pp_published s) = le64 ((advance ^^ length (pp_published s)) 0) @
        le64 (f64_mul (word_of_le (last (pp_given s))) effort_scale))"
  using pp_reachable_ok [OF assms] by (auto simp: pp_ok_def pp_fresh_def pp_pending_def pp_reply_def half_effort_def)

text \<open>C35: Until then it may answer a command that nobody sent: for any two commands \<open>a\<close>, \<open>b\<close> and any \<open>i\<close> there is a run in
  which only \<open>a\<close> has been received and the payload published carries half of the first \<open>i\<close> bytes of \<open>b\<close> followed by the
  last bytes of \<open>a\<close>.\<close>

theorem pingpong_may_answer_torn:
  assumes "length a = 8" and "length b = 8" and "i \<le> 8"
  shows "\<exists>s. pp_reachable s \<and> pp_given s = [a] \<and>
    pp_published s = [le64 (advance 0) @ le64 (f64_mul (word_of_le (take i b @ drop i a)) effort_scale)]"
proof -
  have "pp_reachable (pp_answer (pp_two a b i))"
    using pp_next [OF pp_reach_two [OF assms] thread_answer] by (simp add: pp_two_def)
  then show ?thesis using pp_answer_two [of a b i] unfolding pp_reply_def half_effort_def by auto
qed

text \<open>C34: The node on plain zenoh-pico: whatever zenoh-pico answers, the calls respect the life cycle of a session; either
  every call of the start-up was accepted, and the node runs with its session open, both tasks running and the
  subscriber declared; or one was refused, and \<open>main\<close> returns 1 with the tasks stopped and the session closed.\<close>

theorem zenoh_e2e_cleans_up:
  "case zenoh_e2e_main env of
     (None, log) \<Rightarrow> list_all snd (drop 2 log) \<and> z_run_checked log z_closed =
       Some \<lparr> zs_open = True, zs_reading = True, zs_leasing = True, zs_pubs = {}, zs_subs = {0}, zs_tokens = {} \<rparr>
   | (Some r, log) \<Rightarrow> r = 1 \<and> \<not> list_all snd (drop 2 log) \<and> z_run_checked log z_closed = Some z_closed"
  by (simp add: zenoh_e2e_main_def zenoh_calls_def zenoh_call_def Let_def z_apply_checked_def z_closed_def)

section \<open>Witnesses\<close>

theorem pingpong_answers_last_witness:
  "\<exists>s. pp_reachable s \<and> pp_given s = [le64 0x4008000000000000] \<and> length (pp_published s) = 1 \<and>
     last (pp_published s) = le64 (advance 0) @ le64 (f64_mul 0x4008000000000000 effort_scale)"
proof -
  let ?a = "le64 0x4008000000000000"
  let ?s = "pp_answer (pp_one ?a)"
  have r: "pp_reachable ?s" using pp_next [OF pp_reach_one [of ?a] thread_answer] by (simp add: pp_one_def)
  have s: "pp_copy ?s = None" "pp_sem ?s = 0" "\<not> pp_awake ?s" "pp_given ?s = [?a]" "length (pp_published ?s) = 1"
    by (simp_all add: pp_answer_def pp_one_def pp_init_def Let_def)
  show ?thesis using pingpong_answers_last [OF r] r s by (intro exI [of _ ?s]) simp
qed

theorem pingpong_may_answer_torn_witness:
  "\<exists>s. pp_reachable s \<and> pp_given s = [[0, 0, 0, 0, 0, 0, 8, 0x40]] \<and>
     pp_published s = [le64 (advance 0) @ le64 (f64_mul 0x4008000001020304 effort_scale)]"
proof -
  have w: "word_of_le [4, 3, 2, 1, 0, 0, 8, 0x40] = (0x4008000001020304 :: u64)" by (simp add: word_of_le_def)
  show ?thesis
    using pingpong_may_answer_torn [of "[0, 0, 0, 0, 0, 0, 8, 0x40]" "[4, 3, 2, 1, 0, 0, 0, 0xC0]" 4] w by simp
qed

text \<open>A start of the Tier 1 node on a zenoh that accepts every call.\<close>

theorem joint_node_publishes_witness:
  "\<exists>jn t i payloads. joint_node_start tier1_cfg quiet_zenoh 0 ''n'' ''client'' None 0 transport_static = Some (Inr jn, t) \<and>
     jn_pub jn = Some i \<and> map read_joint_state payloads =
       [Some \<lparr> msg_stamp = (0, 0), msg_frame_id = ''base_link'', msg_name = [''stepper'', ''pendulum''],
          msg_position = [0, 0], msg_velocity = [0, 0], msg_effort = [0, 0] \<rparr>,
        Some \<lparr> msg_stamp = (0, 0), msg_frame_id = ''base_link'', msg_name = [''stepper'', ''pendulum''],
          msg_position = [advance 0, 0], msg_velocity = [0, 0], msg_effort = [0, 0] \<rparr>] \<and>
     map_option snd (joint_node_run tier1_cfg quiet_zenoh [4, 10, 11, 25] (jn, t)) = publish_all tier1_cfg quiet_zenoh i payloads t"
proof -
  obtain jn t i where s: "joint_node_start tier1_cfg quiet_zenoh 0 ''n'' ''client'' None 0 transport_static = Some (Inr jn, t)"
      "jn_pub jn = Some i"
    using joint_node_starts [OF transport_reachable_inv [OF reach_static], of quiet_zenoh tier1_cfg 0 "''n''" "''client''" None 0]
    by (auto simp: quiet_zenoh_def transport_static_def)
  have "map (\<lambda>k. Some \<lparr> msg_stamp = (0, 0), msg_frame_id = ''base_link'', msg_name = [''stepper'', ''pendulum''],
      msg_position = [(advance ^^ k) 0, 0], msg_velocity = [0, 0], msg_effort = [0, 0] \<rparr>) [0..<due_cycles 0 [4, 10, 11, 25]] =
    [Some \<lparr> msg_stamp = (0, 0), msg_frame_id = ''base_link'', msg_name = [''stepper'', ''pendulum''],
          msg_position = [0, 0], msg_velocity = [0, 0], msg_effort = [0, 0] \<rparr>,
        Some \<lparr> msg_stamp = (0, 0), msg_frame_id = ''base_link'', msg_name = [''stepper'', ''pendulum''],
          msg_position = [advance 0, 0], msg_velocity = [0, 0], msg_effort = [0, 0] \<rparr>]"
    by (simp add: upt_rec word_le_nat_alt)
  then show ?thesis using joint_node_publishes [OF s, of "[4, 10, 11, 25]"] s by auto
qed

end
