(* ===== verification/Interface_Schema.thy ===== *)
theory Interface_Schema
  imports Ieee
begin

text \<open>
  The Tier 2 interface schema (\<open>zenbedded_hardware_interface/src/interface_schema.cpp\<close> and its
  header): parsing a YAML document into flat lists of typed fields at consecutive byte offsets,
  generating the C header of the same layout for the firmware, and reading and writing single fields
  of a buffer. yaml-cpp is outside of the repository and is the parameter \<open>yaml\<close>: a document type
  with the operations used, of which loading, subscripting and conversion to a string may throw.
  \<open>size_t\<close> counts bytes of fields that are in memory and is a natural number here.
\<close>

section \<open>Field types\<close>

datatype field_type = FLOAT32 | FLOAT64 | INT32 | UINT64 | INT16 | UINT8

instantiation field_type :: enum
begin

definition "enum_field_type = [FLOAT32, FLOAT64, INT32, UINT64, INT16, UINT8]"

definition "enum_all_field_type P = list_all P [FLOAT32, FLOAT64, INT32, UINT64, INT16, UINT8]"

definition "enum_ex_field_type P = list_ex P [FLOAT32, FLOAT64, INT32, UINT64, INT16, UINT8]"

instance
proof
  show univ: "(UNIV :: field_type set) = set enum_class.enum"
    unfolding enum_field_type_def by (auto intro: field_type.exhaust)
  show "distinct (enum_class.enum :: field_type list)" by (simp add: enum_field_type_def)
  show "enum_class.enum_all P \<longleftrightarrow> Ball UNIV P" for P :: "field_type \<Rightarrow> bool"
    unfolding enum_all_field_type_def univ enum_field_type_def by simp
  show "enum_class.enum_ex P \<longleftrightarrow> Bex UNIV P" for P :: "field_type \<Rightarrow> bool"
    unfolding enum_ex_field_type_def univ enum_field_type_def by simp
qed

end

text \<open>The result type and the \<open>error\<close> out-parameter; an error leaves the type at enumerator 0.\<close>

definition parse_field_type :: "string \<Rightarrow> string \<Rightarrow> field_type \<times> string" where
  "parse_field_type type_str error =
     (if type_str = ''float32'' then (FLOAT32, error)
      else if type_str = ''float64'' \<or> type_str = ''double'' then (FLOAT64, error)
      else if type_str = ''int32'' then (INT32, error)
      else if type_str = ''uint64'' then (UINT64, error)
      else if type_str = ''int16'' then (INT16, error)
      else if type_str = ''uint8'' then (UINT8, error)
      else (FLOAT32, ''Unknown type: '' @ type_str))"

fun field_byte_size :: "field_type \<Rightarrow> nat" where
  "field_byte_size FLOAT32 = 4"
| "field_byte_size FLOAT64 = 8"
| "field_byte_size INT32 = 4"
| "field_byte_size UINT64 = 8"
| "field_byte_size INT16 = 2"
| "field_byte_size UINT8 = 1"

fun field_type_to_c_type :: "field_type \<Rightarrow> string" where
  "field_type_to_c_type FLOAT32 = ''float''"
| "field_type_to_c_type FLOAT64 = ''double''"
| "field_type_to_c_type INT32 = ''int32_t''"
| "field_type_to_c_type UINT64 = ''uint64_t''"
| "field_type_to_c_type INT16 = ''int16_t''"
| "field_type_to_c_type UINT8 = ''uint8_t''"

section \<open>Parsing\<close>

record flat_field =
  ff_component :: string
  ff_field :: string
  ff_type :: field_type
  ff_offset :: nat

record interface_schema =
  sch_valid :: bool
  sch_error :: string
  sch_state_size :: nat
  sch_command_size :: nat
  sch_state_fields :: "flat_field list"
  sch_command_fields :: "flat_field list"

definition schema_empty :: interface_schema where
  "schema_empty = \<lparr> sch_valid = False, sch_error = [], sch_state_size = 0, sch_command_size = 0,
     sch_state_fields = [], sch_command_fields = [] \<rparr>"

text \<open>\<open>Inl\<close> is a \<open>YAML::Exception\<close> with its message.\<close>

record 'n yaml =
  y_load :: "string \<Rightarrow> string + 'n"
  y_get :: "'n \<Rightarrow> string \<Rightarrow> string + 'n option"  \<comment> \<open>\<open>None\<close>: the node is not defined\<close>
  y_entries :: "'n \<Rightarrow> ('n \<times> 'n) list"
  y_string :: "'n \<Rightarrow> string + string"

text \<open>How parsing ends: \<open>true\<close>, \<open>false\<close> with an error, or an exception on its way out.\<close>

datatype parse_result = P_True | P_False string | P_Throw string

type_synonym layout = "flat_field list \<times> nat"

fun parse_component_fields ::
    "'n yaml \<Rightarrow> ('n \<times> 'n) list \<Rightarrow> string \<Rightarrow> layout \<Rightarrow> layout \<times> parse_result" where
  "parse_component_fields Y [] component_name lay = (lay, P_True)"
| "parse_component_fields Y ((key, val) # rest) component_name (flat_fields, buffer_size) =
     (case y_string Y key of
        Inl e \<Rightarrow> ((flat_fields, buffer_size), P_Throw e)
      | Inr field_name \<Rightarrow>
          (case y_string Y val of
             Inl e \<Rightarrow> ((flat_fields, buffer_size), P_Throw e)
           | Inr type_str \<Rightarrow>
               (case parse_field_type type_str [] of (ty, type_error) \<Rightarrow>
                  if type_error \<noteq> [] then
                    ((flat_fields, buffer_size),
                     P_False (''Field '' @ [CHR 0x27] @ field_name @ [CHR 0x27] @ '' in component '' @ [CHR 0x27] @
                       component_name @ [CHR 0x27] @ '': '' @ type_error))
                  else
                    parse_component_fields Y rest component_name
                      (flat_fields @ [\<lparr> ff_component = component_name, ff_field = field_name, ff_type = ty,
                                   ff_offset = buffer_size \<rparr>],
                       buffer_size + field_byte_size ty))))"

text \<open>The loop over the components of one section.\<close>

fun parse_section :: "'n yaml \<Rightarrow> ('n \<times> 'n) list \<Rightarrow> layout \<Rightarrow> layout \<times> parse_result" where
  "parse_section Y [] lay = (lay, P_True)"
| "parse_section Y ((key, val) # rest) lay =
     (case y_string Y key of
        Inl e \<Rightarrow> (lay, P_Throw e)
      | Inr name \<Rightarrow>
          (case parse_component_fields Y (y_entries Y val) name lay of
             (lay, P_True) \<Rightarrow> parse_section Y rest lay
           | (lay, res) \<Rightarrow> (lay, res)))"

definition yaml_failed :: "string \<Rightarrow> interface_schema \<Rightarrow> interface_schema" where
  "yaml_failed e s = s\<lparr> sch_error := ''YAML parse error: '' @ e \<rparr>"

definition from_yaml :: "'n yaml \<Rightarrow> string \<Rightarrow> interface_schema" where
  "from_yaml Y yaml_text =
     (case y_load Y yaml_text of
        Inl e \<Rightarrow> yaml_failed e schema_empty
      | Inr root \<Rightarrow>
     (case y_get Y root ''state_interfaces'' of
        Inl e \<Rightarrow> yaml_failed e schema_empty
      | Inr None \<Rightarrow> schema_empty\<lparr> sch_error := ''Missing '' @ [CHR 0x27] @ ''state_interfaces'' @ [CHR 0x27] @ '' in schema'' \<rparr>
      | Inr (Some states) \<Rightarrow>
     (case y_get Y root ''command_interfaces'' of
        Inl e \<Rightarrow> yaml_failed e schema_empty
      | Inr None \<Rightarrow> schema_empty\<lparr> sch_error := ''Missing '' @ [CHR 0x27] @ ''command_interfaces'' @ [CHR 0x27] @ '' in schema'' \<rparr>
      | Inr (Some commands) \<Rightarrow>
     (case parse_section Y (y_entries Y states) ([], 0) of
        ((sf, ss), res) \<Rightarrow>
          let schema = schema_empty\<lparr> sch_state_fields := sf, sch_state_size := ss \<rparr>
          in (case res of
                P_False e \<Rightarrow> schema\<lparr> sch_error := e \<rparr>
              | P_Throw e \<Rightarrow> yaml_failed e schema
              | P_True \<Rightarrow>
     (case parse_section Y (y_entries Y commands) ([], 0) of
        ((cf, cs), res) \<Rightarrow>
          let schema = schema\<lparr> sch_command_fields := cf, sch_command_size := cs \<rparr>
          in (case res of
                P_False e \<Rightarrow> schema\<lparr> sch_error := e \<rparr>
              | P_Throw e \<Rightarrow> yaml_failed e schema
              | P_True \<Rightarrow> schema\<lparr> sch_valid := True \<rparr>)))))))"

text \<open>\<open>None\<close>: the file cannot be opened.\<close>

definition from_yaml_file :: "'n yaml \<Rightarrow> (string \<Rightarrow> string option) \<Rightarrow> string \<Rightarrow> interface_schema" where
  "from_yaml_file Y read_file file_path =
     (case read_file file_path of
        None \<Rightarrow> schema_empty\<lparr> sch_error := ''Cannot open file: '' @ file_path \<rparr>
      | Some content \<Rightarrow> from_yaml Y content)"

section \<open>The generated header\<close>

definition nl :: string where "nl = [CHR 0x0A]"

definition member_line :: "flat_field \<Rightarrow> string" where
  "member_line f = ''  '' @ field_type_to_c_type (ff_type f) @ '' '' @ ff_component f @ ''_'' @ ff_field f @ '';'' @ nl"

definition header_guard :: string where
  "header_guard = ''ZENBEDDED_SCHEMA__GENERATED__INTERFACE_DATA_H_''"

definition c_header :: "interface_schema \<Rightarrow> string" where
  "c_header s =
     ''#ifndef '' @ header_guard @ nl @
     ''#define '' @ header_guard @ nl @ nl @
     ''#include <stdint.h>'' @ nl @ nl @
     ''#define ZENBEDDED_STATE_BYTE_SIZE '' @ dec_of_nat (sch_state_size s) @ nl @
     ''#define ZENBEDDED_COMMAND_BYTE_SIZE '' @ dec_of_nat (sch_command_size s) @ nl @ nl @
     ''#pragma pack(push, 1)'' @ nl @
     ''typedef struct'' @ nl @ ''{'' @ nl @
     concat (map member_line (sch_state_fields s)) @
     ''} zenbedded_state_t;'' @ nl @ nl @
     ''typedef struct'' @ nl @ ''{'' @ nl @
     concat (map member_line (sch_command_fields s)) @
     ''} zenbedded_command_t;'' @ nl @
     ''#pragma pack(pop)'' @ nl @ nl @
     ''#endif  // '' @ header_guard @ nl"

text \<open>The result, and what is written to the file, if it can be opened.\<close>

definition write_c_header :: "bool \<Rightarrow> interface_schema \<Rightarrow> bool \<times> string option" where
  "write_c_header can_open s =
     (if \<not> sch_valid s then (False, None)
      else if \<not> can_open then (False, None)
      else (True, Some (c_header s)))"

section \<open>Fields of a buffer\<close>

text \<open>The bytes of one field as a \<open>double\<close>, and back. Integers are two's complement.\<close>

fun load_value :: "field_type \<Rightarrow> byte list \<Rightarrow> f64" where
  "load_value FLOAT32 bs = f32_to_f64 (word_of_le bs)"
| "load_value FLOAT64 bs = word_of_le bs"
| "load_value INT32 bs = f64_of_int (sint (word_of_le bs :: 32 word))"
| "load_value UINT64 bs = f64_of_int (uint (word_of_le bs :: 64 word))"
| "load_value INT16 bs = f64_of_int (sint (word_of_le bs :: 16 word))"
| "load_value UINT8 bs = f64_of_int (uint (word_of_le bs :: 8 word))"

fun store_value :: "field_type \<Rightarrow> f64 \<Rightarrow> byte list option" where
  "store_value FLOAT32 v = Some (le32 (f64_to_f32 v))"
| "store_value FLOAT64 v = Some (le64 v)"
| "store_value INT32 v = map_option (\<lambda>i. le32 (word_of_int i)) (f64_to_int (- (2 ^ 31)) (2 ^ 31 - 1) v)"
| "store_value UINT64 v = map_option (\<lambda>i. le64 (word_of_int i)) (f64_to_int 0 (2 ^ 64 - 1) v)"
| "store_value INT16 v = map_option (\<lambda>i. le16 (word_of_int i)) (f64_to_int (- (2 ^ 15)) (2 ^ 15 - 1) v)"
| "store_value UINT8 v = map_option (\<lambda>i. le_bytes 1 (unat (word_of_int i :: byte))) (f64_to_int 0 255 v)"

definition read_field :: "flat_field list \<Rightarrow> byte list \<Rightarrow> nat \<Rightarrow> f64 option" where
  "read_field flat_fields buffer field_index =
     (if length flat_fields \<le> field_index then Some 0
      else let f = flat_fields ! field_index
           in map_option (load_value (ff_type f)) (mem_read buffer (ff_offset f) (field_byte_size (ff_type f))))"

definition read_state_field :: "interface_schema \<Rightarrow> byte list \<Rightarrow> nat \<Rightarrow> f64 option" where
  "read_state_field s buffer field_index = read_field (sch_state_fields s) buffer field_index"

definition read_command_field :: "interface_schema \<Rightarrow> byte list \<Rightarrow> nat \<Rightarrow> f64 option" where
  "read_command_field s buffer field_index = read_field (sch_command_fields s) buffer field_index"

definition write_command_field :: "interface_schema \<Rightarrow> byte list \<Rightarrow> nat \<Rightarrow> f64 \<Rightarrow> byte list option" where
  "write_command_field s buffer field_index value =
     (if length (sch_command_fields s) \<le> field_index then Some buffer
      else let f = sch_command_fields s ! field_index
           in do { bs \<leftarrow> store_value (ff_type f) value; mem_write buffer (ff_offset f) bs })"

end
