(* ===== verification/Schema_Layout.thy ===== *)
theory Schema_Layout
  imports Interface_Schema
begin

text \<open>
  The contract of the schema: a document declares a list of typed fields for each direction, and the
  fields lie in this order, without gaps, from offset 0. The parser computes exactly this layout, and
  says why when it does not.
\<close>

section \<open>The layout of a list of declared fields\<close>

type_synonym decl = "string \<times> string \<times> field_type"

fun place :: "nat \<Rightarrow> decl list \<Rightarrow> flat_field list" where
  "place off [] = []"
| "place off ((c, f, ty) # ds) =
     \<lparr> ff_component = c, ff_field = f, ff_type = ty, ff_offset = off \<rparr> # place (off + field_byte_size ty) ds"

definition decls_size :: "decl list \<Rightarrow> nat" where
  "decls_size ds = (\<Sum>(c, f, ty) \<leftarrow> ds. field_byte_size ty)"

lemma decls_size_simps [simp]:
  "decls_size [] = 0" "decls_size ((c, f, ty) # ds) = field_byte_size ty + decls_size ds"
  "decls_size (ds @ es) = decls_size ds + decls_size es"
  by (simp_all add: decls_size_def)

lemma place_append: "place off (ds @ es) = place off ds @ place (off + decls_size ds) es"
  by (induction off ds rule: place.induct) (simp_all add: add.assoc)

lemma length_place [simp]: "length (place off ds) = length ds"
  by (induction off ds rule: place.induct) simp_all

definition field_end :: "flat_field \<Rightarrow> nat" where
  "field_end f = ff_offset f + field_byte_size (ff_type f)"

lemma field_byte_size_pos [simp]: "0 < field_byte_size ty"
  by (cases ty) simp_all

text \<open>Fields in order, the first at \<open>off\<close>, each at the end of its predecessor, the last ending at \<open>n\<close>.\<close>

fun packed :: "nat \<Rightarrow> flat_field list \<Rightarrow> nat \<Rightarrow> bool" where
  "packed off [] n \<longleftrightarrow> off = n"
| "packed off (f # fs) n \<longleftrightarrow> ff_offset f = off \<and> packed (field_end f) fs n"

lemma packed_place: "packed off (place off ds) (off + decls_size ds)"
  by (induction off ds rule: place.induct) (simp_all add: field_end_def add.assoc)

lemma packed_append: "packed off (fs @ gs) n \<longleftrightarrow> (\<exists>m. packed off fs m \<and> packed m gs n)"
  by (induction off fs n rule: packed.induct) auto

lemma packed_mono: "packed off fs n \<Longrightarrow> off \<le> n"
  by (induction off fs n rule: packed.induct) (auto simp: field_end_def)

lemma packed_bounds:
  assumes "packed off fs n" and "f \<in> set fs"
  shows "off \<le> ff_offset f \<and> field_end f \<le> n"
  using assms
proof (induction off fs n rule: packed.induct)
  case (2 off g gs n)
  then show ?case using packed_mono [of "field_end g" gs n] by (auto simp: field_end_def)
qed simp

lemma packed_ordered:
  assumes "packed off fs n" and "i < j" and "j < length fs"
  shows "field_end (fs ! i) \<le> ff_offset (fs ! j)"
  using assms
proof (induction off fs n arbitrary: i j rule: packed.induct)
  case (2 off g gs n)
  obtain k where k: "j = Suc k" "k < length gs" using 2(3,4) by (cases j) auto
  show ?case
  proof (cases i)
    case 0
    then show ?thesis using 2(2) k packed_bounds [of "field_end g" gs n "gs ! k"] by simp
  next
    case (Suc l)
    then show ?thesis using 2 k by simp
  qed
qed simp

lemma packed_disjoint:
  assumes "packed off fs n" and "i \<noteq> j" and "i < length fs" and "j < length fs"
  shows "field_end (fs ! i) \<le> ff_offset (fs ! j) \<or> field_end (fs ! j) \<le> ff_offset (fs ! i)"
  using assms packed_ordered [of off fs n i j] packed_ordered [of off fs n j i] by (cases i j rule: linorder_cases) auto

lemma packed_sizes: "packed off fs n \<Longrightarrow> n = off + (\<Sum>f \<leftarrow> fs. field_byte_size (ff_type f))"
  by (induction off fs n rule: packed.induct) (auto simp: field_end_def)

section \<open>What a document declares\<close>

fun opt :: "'e + 'a \<Rightarrow> 'a option" where
  "opt (Inl e) = None"
| "opt (Inr x) = Some x"

lemma opt_Some_iff [simp]: "opt x = Some y \<longleftrightarrow> x = Inr y"
  by (cases x) simp_all

definition type_named :: "string \<Rightarrow> field_type option" where
  "type_named s = map_of
     [(''float32'', FLOAT32), (''float64'', FLOAT64), (''double'', FLOAT64), (''int32'', INT32),
      (''uint64'', UINT64), (''int16'', INT16), (''uint8'', UINT8)] s"

definition component_decls :: "'n yaml \<Rightarrow> string \<Rightarrow> ('n \<times> 'n) list \<Rightarrow> decl list option" where
  "component_decls Y c kvs =
     those (map (\<lambda>(k, v). do {
       f \<leftarrow> opt (y_string Y k); s \<leftarrow> opt (y_string Y v); ty \<leftarrow> type_named s; Some (c, f, ty) }) kvs)"

definition section_decls :: "'n yaml \<Rightarrow> ('n \<times> 'n) list \<Rightarrow> decl list option" where
  "section_decls Y comps = map_option concat (those (map (\<lambda>(k, v). do {
     c \<leftarrow> opt (y_string Y k); component_decls Y c (y_entries Y v) }) comps))"

definition document_decls :: "'n yaml \<Rightarrow> string \<Rightarrow> (decl list \<times> decl list) option" where
  "document_decls Y doc = do {
     root \<leftarrow> opt (y_load Y doc);
     st \<leftarrow> opt (y_get Y root ''state_interfaces''); st \<leftarrow> st;
     cm \<leftarrow> opt (y_get Y root ''command_interfaces''); cm \<leftarrow> cm;
     ss \<leftarrow> section_decls Y (y_entries Y st);
     cs \<leftarrow> section_decls Y (y_entries Y cm);
     Some (ss, cs) }"

lemma parse_field_type_named:
  "parse_field_type s e = (case type_named s of Some ty \<Rightarrow> (ty, e) | None \<Rightarrow> (FLOAT32, ''Unknown type: '' @ s))"
  by (simp add: parse_field_type_def type_named_def)

lemma component_decls_simps:
  "component_decls Y c [] = Some []"
  "component_decls Y c ((k, v) # kvs) = do {
     f \<leftarrow> opt (y_string Y k); s \<leftarrow> opt (y_string Y v); ty \<leftarrow> type_named s;
     ds \<leftarrow> component_decls Y c kvs; Some ((c, f, ty) # ds) }"
  by (auto simp: component_decls_def split: option.splits Option.bind_splits)

lemma section_decls_simps:
  "section_decls Y [] = Some []"
  "section_decls Y ((k, v) # comps) = do {
     c \<leftarrow> opt (y_string Y k); ds \<leftarrow> component_decls Y c (y_entries Y v);
     es \<leftarrow> section_decls Y comps; Some (ds @ es) }"
  by (auto simp: section_decls_def split: option.splits Option.bind_splits)

text \<open>The loops either place every declared field, or stop with an error after a prefix.\<close>

lemma parse_component_fields_spec:
  assumes "parse_component_fields Y kvs c (fs, n) = ((gs, m), res)"
  shows "\<exists>ds. gs = fs @ place n ds \<and> m = n + decls_size ds \<and>
    (case res of P_True \<Rightarrow> component_decls Y c kvs = Some ds
     | P_False e \<Rightarrow> component_decls Y c kvs = None \<and> e \<noteq> []
     | P_Throw e \<Rightarrow> component_decls Y c kvs = None)"
  using assms
proof (induction kvs arbitrary: fs n)
  case Nil
  then show ?case by (auto simp: component_decls_simps intro!: exI [of _ "[]"])
next
  case (Cons kv kvs)
  obtain k v where kv: "kv = (k, v)" by fastforce
  show ?case
  proof (cases "\<exists>f s ty. y_string Y k = Inr f \<and> y_string Y v = Inr s \<and> type_named s = Some ty")
    case True
    then obtain f s ty where t: "y_string Y k = Inr f" "y_string Y v = Inr s" "type_named s = Some ty" by blast
    have "parse_component_fields Y kvs c
        (fs @ [\<lparr> ff_component = c, ff_field = f, ff_type = ty, ff_offset = n \<rparr>], n + field_byte_size ty) = ((gs, m), res)"
      using Cons.prems t by (simp add: kv parse_field_type_named)
    from Cons.IH [OF this] obtain ds where
      "gs = fs @ place n ((c, f, ty) # ds) \<and> m = n + decls_size ((c, f, ty) # ds)"
      "case res of P_True \<Rightarrow> component_decls Y c kvs = Some ds
       | P_False e \<Rightarrow> component_decls Y c kvs = None \<and> e \<noteq> []
       | P_Throw e \<Rightarrow> component_decls Y c kvs = None" by auto
    then show ?thesis using t
      by (intro exI [of _ "(c, f, ty) # ds"]) (simp add: kv component_decls_simps split: parse_result.splits)
  next
    case False
    then have "component_decls Y c (kv # kvs) = None"
      by (auto simp: kv component_decls_simps split: Option.bind_splits)
    moreover have "gs = fs" "m = n" "res \<noteq> P_True" "res \<noteq> P_False []"
      using Cons.prems False by (auto simp: kv parse_field_type_named split: sum.splits option.splits)
    ultimately show ?thesis by (intro exI [of _ "[]"]) (auto split: parse_result.splits)
  qed
qed

lemma parse_section_spec:
  assumes "parse_section Y comps (fs, n) = ((gs, m), res)"
  shows "\<exists>ds. gs = fs @ place n ds \<and> m = n + decls_size ds \<and>
    (case res of P_True \<Rightarrow> section_decls Y comps = Some ds
     | P_False e \<Rightarrow> section_decls Y comps = None \<and> e \<noteq> []
     | P_Throw e \<Rightarrow> section_decls Y comps = None)"
  using assms
proof (induction comps arbitrary: fs n)
  case Nil
  then show ?case by (auto simp: section_decls_simps intro!: exI [of _ "[]"])
next
  case (Cons kv comps)
  obtain k v where kv: "kv = (k, v)" by fastforce
  show ?case
  proof (cases "y_string Y k")
    case (Inl e)
    then show ?thesis using Cons.prems by (auto simp: kv section_decls_simps intro!: exI [of _ "[]"])
  next
    case (Inr c)
    obtain hs l r where p: "parse_component_fields Y (y_entries Y v) c (fs, n) = ((hs, l), r)"
      by (metis surj_pair)
    from parse_component_fields_spec [OF this] obtain ds where ds: "hs = fs @ place n ds" "l = n + decls_size ds"
      "case r of P_True \<Rightarrow> component_decls Y c (y_entries Y v) = Some ds
       | P_False e \<Rightarrow> component_decls Y c (y_entries Y v) = None \<and> e \<noteq> []
       | P_Throw e \<Rightarrow> component_decls Y c (y_entries Y v) = None" by blast
    show ?thesis
    proof (cases "r = P_True")
      case True
      then have "parse_section Y comps (hs, l) = ((gs, m), res)" using Cons.prems Inr p by (simp add: kv)
      from Cons.IH [OF this] obtain es where
        "gs = fs @ place n (ds @ es) \<and> m = n + decls_size (ds @ es)"
        "case res of P_True \<Rightarrow> section_decls Y comps = Some es
         | P_False e \<Rightarrow> section_decls Y comps = None \<and> e \<noteq> []
         | P_Throw e \<Rightarrow> section_decls Y comps = None" by (auto simp: ds place_append add.assoc)
      then show ?thesis using ds(3) True Inr
        by (intro exI [of _ "ds @ es"]) (simp add: kv section_decls_simps split: parse_result.splits)
    next
      case False
      then have "gs = hs" "m = l" "res = r" using Cons.prems Inr p by (auto simp: kv split: parse_result.splits)
      then show ?thesis using ds False Inr
        by (intro exI [of _ ds]) (auto simp: kv section_decls_simps split: parse_result.splits)
    qed
  qed
qed

lemmas parse_section_from_start = parse_section_spec [where fs = "[]" and n = 0, simplified]

definition layout_wf :: "interface_schema \<Rightarrow> bool" where
  "layout_wf s \<longleftrightarrow> packed 0 (sch_state_fields s) (sch_state_size s) \<and>
     packed 0 (sch_command_fields s) (sch_command_size s)"

lemma layout_wf_empty [simp]: "layout_wf schema_empty"
  by (simp add: layout_wf_def schema_empty_def)

lemma layout_wf_error [simp]:
  "layout_wf (s\<lparr> sch_error := e \<rparr>) = layout_wf s" "layout_wf (yaml_failed e s) = layout_wf s"
  "layout_wf (s\<lparr> sch_valid := b \<rparr>) = layout_wf s"
  by (simp_all add: layout_wf_def yaml_failed_def)

end
