(* ===== verification/Schema_Fields.thy ===== *)
theory Schema_Fields
  imports Schema_Layout
begin

text \<open>
  Fields of a buffer: what a stored value reads back as, and the interface \<open>field_store\<close> between the
  schema and its client, the hardware component, which fills a buffer field by field. The interface is
  interpreted on the schema's own operations.
\<close>

section \<open>Values\<close>

text \<open>What a \<open>double\<close> becomes in a field of a type; \<open>None\<close> where the conversion is undefined.\<close>

definition int_field :: "int \<Rightarrow> int \<Rightarrow> f64 \<Rightarrow> f64 option" where
  "int_field lo hi v = map_option f64_of_int (f64_to_int lo hi v)"

fun stored_value :: "field_type \<Rightarrow> f64 \<Rightarrow> f64 option" where
  "stored_value FLOAT32 v = Some (f32_to_f64 (f64_to_f32 v))"
| "stored_value FLOAT64 v = Some v"
| "stored_value INT32 v = int_field (- (2 ^ 31)) (2 ^ 31 - 1) v"
| "stored_value UINT64 v = int_field 0 (2 ^ 64 - 1) v"
| "stored_value INT16 v = int_field (- (2 ^ 15)) (2 ^ 15 - 1) v"
| "stored_value UINT8 v = int_field 0 255 v"

lemma f64_to_int_range: "f64_to_int lo hi v = Some i \<Longrightarrow> lo \<le> i \<and> i \<le> hi"
  by (auto simp: f64_to_int_def Let_def split: if_splits prod.splits)

lemma le_bytes_1_byte: "le_bytes 1 (unat (b :: byte)) = [b]"
  by simp

lemma store_value_length: "store_value ty v = Some bs \<Longrightarrow> length bs = field_byte_size ty"
  by (cases ty) auto

lemma sint_of_int: "- (2 ^ (LENGTH('a) - 1)) \<le> i \<Longrightarrow> i < 2 ^ (LENGTH('a) - 1) \<Longrightarrow> sint (word_of_int i :: 'a::len word) = i"
  by (simp add: signed_of_int signed_take_bit_int_eq_self)

lemma uint_of_int: "0 \<le> i \<Longrightarrow> i < 2 ^ LENGTH('a) \<Longrightarrow> uint (word_of_int i :: 'a::len word) = i"
  by (simp add: unsigned_of_int take_bit_int_eq_self)

lemma load_store_value: "map_option (load_value ty) (store_value ty v) = stored_value ty v"
proof (cases ty)
  case INT32
  then show ?thesis using f64_to_int_range [of "- (2 ^ 31)" "2 ^ 31 - 1" v] sint_of_int [where 'a = 32]
    by (auto simp: int_field_def option.map_comp comp_def intro!: option.map_cong)
next
  case UINT64
  then show ?thesis using f64_to_int_range [of 0 "2 ^ 64 - 1" v] uint_of_int [where 'a = 64]
    by (auto simp: int_field_def option.map_comp comp_def intro!: option.map_cong)
next
  case INT16
  then show ?thesis using f64_to_int_range [of "- (2 ^ 15)" "2 ^ 15 - 1" v] sint_of_int [where 'a = 16]
    by (auto simp: int_field_def option.map_comp comp_def intro!: option.map_cong)
next
  case UINT8
  then show ?thesis using f64_to_int_range [of 0 255 v] uint_of_int [where 'a = 8]
    by (auto simp: int_field_def option.map_comp comp_def word_of_le_def intro!: option.map_cong)
qed simp_all

text \<open>Field contents that survive the way through a \<open>double\<close>.\<close>

fun lossless :: "field_type \<Rightarrow> byte list \<Rightarrow> bool" where
  "lossless FLOAT32 bs \<longleftrightarrow> \<not> f32_isnan (word_of_le bs)"
| "lossless UINT64 bs \<longleftrightarrow> of_le bs < 2 ^ 53"
| "lossless _ bs \<longleftrightarrow> True"

lemma word_of_le_inv:
  "length bs = 2 \<Longrightarrow> le16 (word_of_le bs) = bs"
  "length bs = 1 \<Longrightarrow> [word_of_le bs] = bs"
proof -
  show "le16 (word_of_le bs) = bs" if "length bs = 2"
    using that of_le_less [of bs] by (simp add: le16_def word_of_le_def unat_of_nat le_bytes_of_le)
  show "[word_of_le bs] = bs" if "length bs = 1"
    using that by (cases bs) (auto simp: word_of_le_def)
qed

lemma store_load_value:
  assumes len: "length bs = field_byte_size ty" and ll: "lossless ty bs"
  shows "store_value ty (load_value ty bs) = Some bs"
proof (cases ty)
  case INT32
  define w :: "32 word" where "w = word_of_le bs"
  have "- (2 ^ 31) \<le> sint w" "sint w < 2 ^ 31" using sint_greater_eq [of w] sint_less [of w] by simp_all
  then have "f64_to_int (- (2 ^ 31)) (2 ^ 31 - 1) (f64_of_int (sint w)) = Some (sint w)"
    by (intro f64_to_int_of_int) auto
  then show ?thesis using INT32 len by (simp flip: w_def) (simp add: w_def le32_of_le)
next
  case UINT64
  define w :: "64 word" where "w = word_of_le bs"
  have "unat w = of_le bs" using of_le_less [of bs] len UINT64 by (simp add: w_def word_of_le_def unat_of_nat)
  then have "0 \<le> uint w" "uint w < 2 ^ 53" using ll UINT64 by (simp_all flip: uint_nat) (metis of_nat_less_iff of_nat_numeral of_nat_power uint_nat)
  then have "f64_to_int 0 (2 ^ 64 - 1) (f64_of_int (uint w)) = Some (uint w)"
    by (intro f64_to_int_of_int) auto
  then show ?thesis using UINT64 len by (simp flip: w_def) (simp add: w_def le64_of_le)
next
  case INT16
  define w :: "16 word" where "w = word_of_le bs"
  have "- (2 ^ 15) \<le> sint w" "sint w < 2 ^ 15" using sint_greater_eq [of w] sint_less [of w] by simp_all
  then have "f64_to_int (- (2 ^ 15)) (2 ^ 15 - 1) (f64_of_int (sint w)) = Some (sint w)"
    by (intro f64_to_int_of_int) auto
  then show ?thesis using INT16 len by (simp flip: w_def) (simp add: w_def word_of_le_inv)
next
  case UINT8
  define w :: byte where "w = word_of_le bs"
  have "0 \<le> uint w" "uint w < 2 ^ 8" using uint_lt2p [of w] by simp_all
  then have "f64_to_int 0 255 (f64_of_int (uint w)) = Some (uint w)"
    by (intro f64_to_int_of_int) auto
  then show ?thesis using UINT8 len by (simp flip: w_def) (simp add: w_def word_of_le_inv)
qed (use len ll in \<open>auto simp: f64_to_f32_to_f64 le32_of_le le64_of_le\<close>)

section \<open>The interface to a store of typed fields\<close>

text \<open>\<open>ok\<close> is the client's side of the contract, \<open>cnt\<close> the number of fields, \<open>conv i\<close> what a value becomes
  in field \<open>i\<close>, which is what \<open>rd\<close> observes of it: its value, or its bytes.\<close>

locale field_store =
  fixes ok :: "'s \<Rightarrow> bool"
    and cnt :: "'s \<Rightarrow> nat"
    and conv :: "'s \<Rightarrow> nat \<Rightarrow> 'v \<Rightarrow> 'r option"
    and rd :: "'s \<Rightarrow> nat \<Rightarrow> 'r option"
    and wr :: "'s \<Rightarrow> nat \<Rightarrow> 'v \<Rightarrow> 's option"
  assumes wr_None: "ok s \<Longrightarrow> i < cnt s \<Longrightarrow> wr s i v = None \<longleftrightarrow> conv s i v = None"
    and wr_ok: "ok s \<Longrightarrow> i < cnt s \<Longrightarrow> wr s i v = Some t \<Longrightarrow> ok t \<and> cnt t = cnt s \<and> conv t = conv s"
    and wr_same: "ok s \<Longrightarrow> i < cnt s \<Longrightarrow> wr s i v = Some t \<Longrightarrow> rd t i = conv s i v"
    and wr_other: "ok s \<Longrightarrow> i < cnt s \<Longrightarrow> wr s i v = Some t \<Longrightarrow> j \<noteq> i \<Longrightarrow> rd t j = rd s j"
begin

fun wr_all :: "'s \<Rightarrow> nat \<Rightarrow> 'v list \<Rightarrow> 's option" where
  "wr_all s i [] = Some s"
| "wr_all s i (v # vs) = Option.bind (wr s i v) (\<lambda>t. wr_all t (Suc i) vs)"

lemma wr_all_None:
  assumes "ok s" and "i + length vs \<le> cnt s"
  shows "wr_all s i vs = None \<longleftrightarrow> (\<exists>j < length vs. conv s (i + j) (vs ! j) = None)"
  using assms
proof (induction vs arbitrary: s i)
  case (Cons v vs)
  have split: "(\<exists>j < length (v # vs). conv s (i + j) ((v # vs) ! j) = None) \<longleftrightarrow>
      conv s i v = None \<or> (\<exists>j < length vs. conv s (Suc i + j) (vs ! j) = None)"
    by (auto simp: less_Suc_eq_0_disj)
  show ?case
  proof (cases "wr s i v")
    case None
    then show ?thesis using wr_None [of s i v] Cons.prems unfolding split by simp
  next
    case (Some t)
    then have t: "ok t" "cnt t = cnt s" "conv t = conv s" and c: "conv s i v \<noteq> None"
      using wr_ok [of s i v t] wr_None [of s i v] Cons.prems by auto
    show ?thesis using Cons.IH [of t "Suc i"] t c Some Cons.prems(2) unfolding split by auto
  qed
qed simp

lemma wr_all_Some:
  assumes "ok s" and "i + length vs \<le> cnt s" and "wr_all s i vs = Some t"
  shows "ok t \<and> cnt t = cnt s \<and> conv t = conv s \<and>
    (\<forall>j. rd t j = (if i \<le> j \<and> j < i + length vs then conv s j (vs ! (j - i)) else rd s j))"
  using assms
proof (induction vs arbitrary: s i)
  case (Cons v vs)
  from Cons.prems(3) obtain u where u: "wr s i v = Some u" "wr_all u (Suc i) vs = Some t"
    by (auto split: Option.bind_splits)
  have i: "i < cnt s" using Cons.prems(2) by simp
  have ok: "ok u" "cnt u = cnt s" "conv u = conv s" using wr_ok [OF Cons.prems(1) i u(1)] by simp_all
  have ih: "ok t" "cnt t = cnt u" "conv t = conv u"
    "\<And>j. rd t j = (if Suc i \<le> j \<and> j < Suc i + length vs then conv u j (vs ! (j - Suc i)) else rd u j)"
    using Cons.IH [OF ok(1) _ u(2)] Cons.prems(2) ok(2) by simp_all
  have "rd t j = (if i \<le> j \<and> j < i + length (v # vs) then conv s j ((v # vs) ! (j - i)) else rd s j)" for j
  proof (cases "j = i")
    case True
    then show ?thesis using ih(4) [of j] wr_same [OF Cons.prems(1) i u(1)] by simp
  next
    case False
    then show ?thesis using ih(4) [of j] wr_other [OF Cons.prems(1) i u(1) False] ok(3)
      by (auto simp: nth_Cons' Suc_le_eq)
  qed
  then show ?case using ih ok by simp
qed auto

end

section \<open>The schema as a store\<close>

lemma write_command_field_cases:
  assumes "layout_wf s" and "length buf = sch_command_size s" and "i < length (sch_command_fields s)"
  defines "f \<equiv> sch_command_fields s ! i"
  shows "case store_value (ff_type f) v of None \<Rightarrow> write_command_field s buf i v = None
     | Some bs \<Rightarrow> (\<exists>buf'. write_command_field s buf i v = Some buf' \<and> mem_write buf (ff_offset f) bs = Some buf')"
proof (cases "store_value (ff_type f) v")
  case (Some bs)
  have "f \<in> set (sch_command_fields s)" using assms(3) by (simp add: f_def)
  then have "field_end f \<le> length buf" using assms(1,2) packed_bounds [of 0] by (auto simp: layout_wf_def)
  then obtain buf' where "mem_write buf (ff_offset f) bs = Some buf'"
    using store_value_length [OF Some] by (cases "mem_write buf (ff_offset f) bs") (auto simp: field_end_def)
  then show ?thesis using Some assms(3) by (auto simp: write_command_field_def simp flip: f_def)
qed (use assms(3) in \<open>simp add: write_command_field_def flip: f_def\<close>)

definition field_bytes :: "interface_schema \<Rightarrow> byte list \<Rightarrow> nat \<Rightarrow> byte list option" where
  "field_bytes s buf i =
     (if i < length (sch_command_fields s)
      then let f = sch_command_fields s ! i in mem_read buf (ff_offset f) (field_byte_size (ff_type f))
      else None)"

lemma read_command_field_bytes:
  "i < length (sch_command_fields s) \<Longrightarrow>
     read_command_field s buf i = map_option (load_value (ff_type (sch_command_fields s ! i))) (field_bytes s buf i)"
  by (simp add: read_command_field_def read_field_def field_bytes_def Let_def)

lemma write_command_field_bytes:
  assumes wf: "layout_wf s" and len: "length buf = sch_command_size s" and i: "i < length (sch_command_fields s)"
    and w: "write_command_field s buf i v = Some buf'"
  shows "length buf' = length buf \<and> field_bytes s buf' i = store_value (ff_type (sch_command_fields s ! i)) v \<and>
    (\<forall>j. j \<noteq> i \<longrightarrow> field_bytes s buf' j = field_bytes s buf j)"
proof -
  let ?f = "sch_command_fields s ! i"
  obtain bs where bs: "store_value (ff_type ?f) v = Some bs" "mem_write buf (ff_offset ?f) bs = Some buf'"
    using write_command_field_cases [OF wf len i, of v] w by (auto split: option.splits)
  have l: "length bs = field_byte_size (ff_type ?f)" using bs(1) by (rule store_value_length)
  have "field_bytes s buf' i = store_value (ff_type ?f) v"
    using mem_read_write_same [OF bs(2)] i bs(1) by (simp add: field_bytes_def Let_def l)
  moreover have "field_bytes s buf' j = field_bytes s buf j" if "j \<noteq> i" for j
  proof (cases "j < length (sch_command_fields s)")
    case True
    let ?g = "sch_command_fields s ! j"
    have "field_end ?g \<le> ff_offset ?f \<or> field_end ?f \<le> ff_offset ?g"
      using packed_disjoint [of 0 "sch_command_fields s" "sch_command_size s" j i] wf that True i
      by (auto simp: layout_wf_def)
    then have "mem_read buf' (ff_offset ?g) (field_byte_size (ff_type ?g)) =
        mem_read buf (ff_offset ?g) (field_byte_size (ff_type ?g))"
      by (intro mem_read_write_disjoint [OF bs(2)]) (simp add: field_end_def l)
    then show ?thesis by (simp add: field_bytes_def)
  qed (simp add: field_bytes_def)
  ultimately show ?thesis using length_mem_write [OF bs(2)] by simp
qed

lemma write_command_field_frame:
  assumes wf: "layout_wf s" and len: "length buf = sch_command_size s" and i: "i < length (sch_command_fields s)"
    and w: "write_command_field s buf i v = Some buf'"
  shows "length buf' = length buf \<and> read_command_field s buf' i = stored_value (ff_type (sch_command_fields s ! i)) v \<and>
    (\<forall>j. j \<noteq> i \<longrightarrow> read_command_field s buf' j = read_command_field s buf j)"
proof -
  note b = write_command_field_bytes [OF assms]
  have "read_command_field s buf' j = read_command_field s buf j" if "j \<noteq> i" for j
    using b that read_command_field_bytes [of j s]
    by (cases "j < length (sch_command_fields s)") (simp_all add: read_command_field_def read_field_def)
  then show ?thesis using b i by (simp add: read_command_field_bytes load_store_value)
qed

lemma write_command_field_None:
  assumes "layout_wf s" and "length buf = sch_command_size s" and "i < length (sch_command_fields s)"
  shows "write_command_field s buf i v = None \<longleftrightarrow> store_value (ff_type (sch_command_fields s ! i)) v = None"
  using write_command_field_cases [OF assms, of v] by (auto split: option.splits)

lemma stored_value_None: "stored_value ty v = None \<longleftrightarrow> store_value ty v = None"
  by (simp flip: load_store_value)

text \<open>A store is a schema and a command buffer of its size, seen through values or through bytes.\<close>

type_synonym command_store = "interface_schema \<times> byte list"

definition cs_ok :: "command_store \<Rightarrow> bool" where
  "cs_ok st \<longleftrightarrow> layout_wf (fst st) \<and> length (snd st) = sch_command_size (fst st)"

definition cs_cnt :: "command_store \<Rightarrow> nat" where
  "cs_cnt st = length (sch_command_fields (fst st))"

definition cs_type :: "command_store \<Rightarrow> nat \<Rightarrow> field_type" where
  "cs_type st i = ff_type (sch_command_fields (fst st) ! i)"

definition cs_write :: "command_store \<Rightarrow> nat \<Rightarrow> f64 \<Rightarrow> command_store option" where
  "cs_write st i v = map_option (Pair (fst st)) (write_command_field (fst st) (snd st) i v)"

lemma cs_write_pair: "cs_write (s, buf) i v = map_option (Pair s) (write_command_field s buf i v)"
  by (simp add: cs_write_def)

lemmas cs_defs = cs_ok_def cs_cnt_def cs_type_def cs_write_def

interpretation cs: field_store cs_ok cs_cnt "\<lambda>st i. stored_value (cs_type st i)"
    "\<lambda>st. read_command_field (fst st) (snd st)" cs_write
proof (unfold_locales, goal_cases)
  case (1 s i v)
  then show ?case using write_command_field_None [of "fst s" "snd s" i v] by (simp add: cs_defs stored_value_None)
next
  case (2 s i v t)
  then show ?case using write_command_field_frame [of "fst s" "snd s" i v] by (auto simp: cs_defs fun_eq_iff)
next
  case (3 s i v t)
  then show ?case using write_command_field_frame [of "fst s" "snd s" i v] by (auto simp: cs_defs)
next
  case (4 s i v t j)
  then show ?case using write_command_field_frame [of "fst s" "snd s" i v] by (auto simp: cs_defs)
qed

interpretation csb: field_store cs_ok cs_cnt "\<lambda>st i. store_value (cs_type st i)"
    "\<lambda>st. field_bytes (fst st) (snd st)" cs_write
proof (unfold_locales, goal_cases)
  case (1 s i v)
  then show ?case using write_command_field_None [of "fst s" "snd s" i v] by (simp add: cs_defs)
next
  case (2 s i v t)
  then show ?case using write_command_field_bytes [of "fst s" "snd s" i v] by (auto simp: cs_defs fun_eq_iff)
next
  case (3 s i v t)
  then show ?case using write_command_field_bytes [of "fst s" "snd s" i v] by (auto simp: cs_defs)
next
  case (4 s i v t j)
  then show ?case using write_command_field_bytes [of "fst s" "snd s" i v] by (auto simp: cs_defs)
qed

end
