(* ===== verification/Zenbedded_Hardware.thy ===== *)
theory Zenbedded_Hardware
  imports Schema_Fields Ieee_Arith
begin

text \<open>
  The \<open>ros2_control\<close> hardware component of the host
  (\<open>zenbedded_hardware_interface/src/zenbedded_hardware.cpp\<close> and its header). The Zenoh C++ API and
  \<open>realtime_tools::RealtimeBuffer\<close> are outside of the repository: the record \<open>zenoh_cpp\<close> says which calls
  return and which throw, and the record \<open>rt_buffer\<close> has the two operations of the buffer, of which the
  reader's takes whether it got the lock. An access outside of a vector, and an undefined conversion, is
  \<open>None\<close>. Log output and the registration for introspection are left out.
\<close>

section \<open>What the component uses\<close>

type_synonym config = "(string \<times> string) list"

record zenoh_cpp =
  zc_insert :: "config \<Rightarrow> string \<Rightarrow> string \<Rightarrow> bool"
  zc_open :: "config \<Rightarrow> bool"
  zc_subscriber :: "string \<Rightarrow> bool"
  zc_publisher :: "string \<Rightarrow> bool"
  zc_put :: "byte list \<Rightarrow> bool"

record 'b rt_buffer =
  rb_write :: "byte list \<Rightarrow> 'b \<Rightarrow> 'b"
  rb_read :: "bool \<Rightarrow> 'b \<Rightarrow> byte list option \<times> 'b"

section \<open>State\<close>

record 'b hardware =
  hw_session :: "config option"
  hw_schema :: interface_schema
  hw_state_buffer :: 'b
  hw_command_buffer :: "byte list"
  hw_state_sub :: "string option"
  hw_command_pub :: "string option"
  hw_commands :: "f64 list"
  hw_states :: "f64 list"
  hw_zenoh_endpoint :: string
  hw_zenoh_mode :: string
  hw_state_topic :: string
  hw_command_topic :: string
  hw_sent :: "(string \<times> byte list) list"  \<comment> \<open>the payloads put so far, with their keys\<close>

definition hw_new :: "'b \<Rightarrow> 'b hardware" where
  "hw_new b = \<lparr> hw_session = None, hw_schema = schema_empty, hw_state_buffer = b, hw_command_buffer = [],
     hw_state_sub = None, hw_command_pub = None, hw_commands = [], hw_states = [], hw_zenoh_endpoint = [],
     hw_zenoh_mode = [], hw_state_topic = [], hw_command_topic = [], hw_sent = [] \<rparr>"

datatype callback_return = CB_SUCCESS | CB_ERROR

definition resize :: "nat \<Rightarrow> 'a \<Rightarrow> 'a list \<Rightarrow> 'a list" where
  "resize n v xs = take n xs @ replicate (n - length xs) v"

section \<open>Initialisation\<close>

text \<open>\<open>at\<close> throws on a missing key, after which the earlier assignments stay.\<close>

definition read_parameters :: "(string \<Rightarrow> string option) \<Rightarrow> 'b hardware \<Rightarrow> bool \<times> 'b hardware" where
  "read_parameters params hw =
     (case params ''zenoh_endpoint'' of
        None \<Rightarrow> (False, hw)
      | Some e \<Rightarrow>
          let hw = hw\<lparr> hw_zenoh_endpoint := e \<rparr>
          in (case params ''state_topic'' of
                None \<Rightarrow> (False, hw)
              | Some st \<Rightarrow>
                  let hw = hw\<lparr> hw_state_topic := st \<rparr>
                  in (case params ''command_topic'' of
                        None \<Rightarrow> (False, hw)
                      | Some ct \<Rightarrow>
                          (True, hw\<lparr> hw_command_topic := ct,
                                     hw_zenoh_mode := (case params ''zenoh_mode'' of Some m \<Rightarrow> m | None \<Rightarrow> ''client'') \<rparr>))))"

definition on_init ::
    "'b rt_buffer \<Rightarrow> 'n yaml \<Rightarrow> (string \<Rightarrow> string option) \<Rightarrow> bool \<Rightarrow> (string \<Rightarrow> string option) \<Rightarrow> 'b hardware
      \<Rightarrow> callback_return \<times> 'b hardware" where
  "on_init RB Y read_file base_ok params hw =
     (if \<not> base_ok then (CB_ERROR, hw)
      else
        case read_parameters params hw of (ok, hw) \<Rightarrow>
        if \<not> ok then (CB_ERROR, hw)
        else
          case params ''schema_path'' of
            None \<Rightarrow> (CB_ERROR, hw)
          | Some path \<Rightarrow>
              let s = from_yaml_file Y read_file path;
                  hw = hw\<lparr> hw_schema := s \<rparr>
              in if \<not> sch_valid s then (CB_ERROR, hw)
                 else
                   (CB_SUCCESS,
                    hw\<lparr> hw_states := resize (length (sch_state_fields s)) quiet_NaN (hw_states hw),
                        hw_commands := resize (length (sch_command_fields s)) quiet_NaN (hw_commands hw),
                        hw_state_buffer := rb_write RB (replicate (sch_state_size s) 0) (hw_state_buffer hw),
                        hw_command_buffer := resize (sch_command_size s) 0 (hw_command_buffer hw) \<rparr>))"

text \<open>An interface names a component and a field, and points to an element of the value vector.\<close>

definition export_interfaces :: "flat_field list \<Rightarrow> (string \<times> string \<times> nat) list" where
  "export_interfaces fs = map (\<lambda>i. (ff_component (fs ! i), ff_field (fs ! i), i)) [0..<length fs]"

definition export_state_interfaces :: "'b hardware \<Rightarrow> (string \<times> string \<times> nat) list" where
  "export_state_interfaces hw = export_interfaces (sch_state_fields (hw_schema hw))"

definition export_command_interfaces :: "'b hardware \<Rightarrow> (string \<times> string \<times> nat) list" where
  "export_command_interfaces hw = export_interfaces (sch_command_fields (hw_schema hw))"

section \<open>Activation\<close>

definition nan_to_zero :: "f64 \<Rightarrow> f64" where
  "nan_to_zero v = (if f64_isnan v then 0 else v)"

definition json_string :: "string \<Rightarrow> string" where
  "json_string s = [CHR 0x22] @ s @ [CHR 0x22]"

definition on_activate :: "zenoh_cpp \<Rightarrow> 'b hardware \<Rightarrow> callback_return \<times> 'b hardware" where
  "on_activate Z hw =
     (let endpoints = ''['' @ json_string (hw_zenoh_endpoint hw) @ '']'';
          mode = json_string (hw_zenoh_mode hw);
          c1 = [(''connect/endpoints'', endpoints)];
          config = c1 @ [(''mode'', mode)]
      in if \<not> zc_insert Z [] ''connect/endpoints'' endpoints then (CB_ERROR, hw)
         else if \<not> zc_insert Z c1 ''mode'' mode then (CB_ERROR, hw)
         else if \<not> zc_open Z config then (CB_ERROR, hw)
         else
           let hw = hw\<lparr> hw_session := Some config \<rparr>
           in if \<not> zc_subscriber Z (hw_state_topic hw) then (CB_ERROR, hw)
              else
                let hw = hw\<lparr> hw_state_sub := Some (hw_state_topic hw) \<rparr>
                in if \<not> zc_publisher Z (hw_command_topic hw) then (CB_ERROR, hw)
                   else
                     (CB_SUCCESS,
                      hw\<lparr> hw_command_pub := Some (hw_command_topic hw),
                          hw_states := map nan_to_zero (hw_states hw),
                          hw_commands := map nan_to_zero (hw_commands hw) \<rparr>))"

definition on_deactivate :: "'b hardware \<Rightarrow> callback_return \<times> 'b hardware" where
  "on_deactivate hw = (CB_SUCCESS, hw\<lparr> hw_state_sub := None, hw_command_pub := None, hw_session := None \<rparr>)"

section \<open>Messages and cycles\<close>

text \<open>The subscriber's callback.\<close>

definition on_state_sample :: "'b rt_buffer \<Rightarrow> byte list \<Rightarrow> 'b hardware \<Rightarrow> 'b hardware" where
  "on_state_sample RB bytes hw =
     (if length bytes \<noteq> sch_state_size (hw_schema hw) then hw
      else hw\<lparr> hw_state_buffer := rb_write RB bytes (hw_state_buffer hw) \<rparr>)"

fun read_states :: "interface_schema \<Rightarrow> byte list \<Rightarrow> nat list \<Rightarrow> f64 list \<Rightarrow> f64 list option" where
  "read_states s buf [] states = Some states"
| "read_states s buf (i # js) states =
     (if length states \<le> i then None
      else do { v \<leftarrow> read_state_field s buf i; read_states s buf js (states[i := v]) })"

text \<open>\<open>got_lock\<close>: whether the reader of the buffer got its lock.\<close>

definition hw_read :: "'b rt_buffer \<Rightarrow> bool \<Rightarrow> 'b hardware \<Rightarrow> 'b hardware option" where
  "hw_read RB got_lock hw =
     (case rb_read RB got_lock (hw_state_buffer hw) of (buf, b) \<Rightarrow>
        let hw = hw\<lparr> hw_state_buffer := b \<rparr>; s = hw_schema hw
        in (case buf of
              None \<Rightarrow> Some hw
            | Some bytes \<Rightarrow>
                if length bytes \<noteq> sch_state_size s then Some hw
                else map_option (\<lambda>states. hw\<lparr> hw_states := states \<rparr>)
                       (read_states s bytes [0..<length (sch_state_fields s)] (hw_states hw))))"

fun write_commands :: "interface_schema \<Rightarrow> f64 list \<Rightarrow> nat list \<Rightarrow> byte list \<Rightarrow> byte list option" where
  "write_commands s commands [] buf = Some buf"
| "write_commands s commands (i # js) buf =
     (if length commands \<le> i then None
      else do { buf \<leftarrow> write_command_field s buf i (commands ! i); write_commands s commands js buf })"

text \<open>The result is \<open>False\<close> when \<open>put\<close> throws; the exception leaves \<open>write\<close>.\<close>

definition hw_write :: "zenoh_cpp \<Rightarrow> 'b hardware \<Rightarrow> (bool \<times> 'b hardware) option" where
  "hw_write Z hw =
     (case hw_command_pub hw of
        None \<Rightarrow> Some (True, hw)
      | Some key \<Rightarrow>
          do { buf \<leftarrow> write_commands (hw_schema hw) (hw_commands hw)
                        [0..<length (sch_command_fields (hw_schema hw))] (hw_command_buffer hw);
               let hw = hw\<lparr> hw_command_buffer := buf \<rparr>;
               if zc_put Z buf then Some (True, hw\<lparr> hw_sent := hw_sent hw @ [(key, buf)] \<rparr>)
               else Some (False, hw) })"

section \<open>Runs\<close>

text \<open>What the outside does to an initialised component: the controller manager activates, deactivates and
  cycles it, controllers set commands, and its subscriber delivers samples.\<close>

datatype hw_event =
  Ev_Activate zenoh_cpp | Ev_Deactivate | Ev_Read bool | Ev_Write zenoh_cpp | Ev_Sample "byte list" | Ev_Command nat f64

inductive hw_step :: "'b rt_buffer \<Rightarrow> 'b hardware \<Rightarrow> hw_event \<Rightarrow> 'b hardware \<Rightarrow> bool" for RB where
  activate: "on_activate Z hw = (r, hw') \<Longrightarrow> hw_step RB hw (Ev_Activate Z) hw'"
| deactivate: "on_deactivate hw = (r, hw') \<Longrightarrow> hw_step RB hw Ev_Deactivate hw'"
| cycle_read: "hw_read RB l hw = Some hw' \<Longrightarrow> hw_step RB hw (Ev_Read l) hw'"
| cycle_write: "hw_write Z hw = Some (r, hw') \<Longrightarrow> hw_step RB hw (Ev_Write Z) hw'"
| sample: "hw_state_sub hw \<noteq> None \<Longrightarrow> hw_step RB hw (Ev_Sample bytes) (on_state_sample RB bytes hw)"
| command: "i < length (hw_commands hw) \<Longrightarrow>
    hw_step RB hw (Ev_Command i v) (hw\<lparr> hw_commands := (hw_commands hw)[i := v] \<rparr>)"

inductive hw_reachable :: "'b rt_buffer \<Rightarrow> 'n yaml \<Rightarrow> (string \<Rightarrow> string option) \<Rightarrow> 'b \<Rightarrow> hw_event list \<Rightarrow> 'b hardware \<Rightarrow> bool"
  for RB Y read_file b0 where
  start: "on_init RB Y read_file True params (hw_new b0) = (CB_SUCCESS, hw) \<Longrightarrow> hw_reachable RB Y read_file b0 [] hw"
| more: "hw_reachable RB Y read_file b0 es hw \<Longrightarrow> hw_step RB hw e hw' \<Longrightarrow> hw_reachable RB Y read_file b0 (es @ [e]) hw'"

inductive_cases hw_step_cases [elim!]:
  "hw_step RB hw (Ev_Activate Z) hw'"
  "hw_step RB hw Ev_Deactivate hw'"
  "hw_step RB hw (Ev_Read l) hw'"
  "hw_step RB hw (Ev_Write Z) hw'"
  "hw_step RB hw (Ev_Sample bytes) hw'"
  "hw_step RB hw (Ev_Command i v) hw'"

inductive_simps hw_reachable_start: "hw_reachable RB Y read_file b0 [] hw"

end
