(* ===== verification/Schema_Header.thy ===== *)
theory Schema_Header
  imports Schema_Layout
begin

text \<open>
  What a C compiler reads in the generated header: the lines between braces are the members of the two
  structs, which \<open>#pragma pack(1)\<close> lays out without padding.
\<close>

section \<open>Reading the header\<close>

fun split_lines :: "string \<Rightarrow> string list" where
  "split_lines [] = []"
| "split_lines (c # cs) =
     (if c = CHR 0x0A then [] # split_lines cs
      else case split_lines cs of [] \<Rightarrow> [[c]] | l # ls \<Rightarrow> (c # l) # ls)"

text \<open>A member line is \<open>  T name;\<close>.\<close>

definition read_member :: "string \<Rightarrow> string \<times> string" where
  "read_member l = (takeWhile (\<lambda>c. c \<noteq> CHR '' '') (drop 2 l), butlast (tl (dropWhile (\<lambda>c. c \<noteq> CHR '' '') (drop 2 l))))"

fun read_structs :: "string list \<Rightarrow> (string \<times> string) list option \<Rightarrow> (string \<times> string) list list" where
  "read_structs [] _ = []"
| "read_structs (l # ls) None = (if l = ''{'' then read_structs ls (Some []) else read_structs ls None)"
| "read_structs (l # ls) (Some ms) =
     (if take 1 l = ''}'' then ms # read_structs ls None else read_structs ls (Some (ms @ [read_member l])))"

definition header_structs :: "string \<Rightarrow> (string \<times> string) list list" where
  "header_structs doc = read_structs (split_lines doc) None"

text \<open>The sizes of the C types, and the offsets in a packed struct.\<close>

definition c_sizeof :: "string \<Rightarrow> nat" where
  "c_sizeof t = the (map_of
     [(''float'', 4), (''double'', 8), (''int32_t'', 4), (''uint64_t'', 8), (''int16_t'', 2), (''uint8_t'', 1)] t)"

fun packed_offsets :: "nat \<Rightarrow> (string \<times> string) list \<Rightarrow> (string \<times> nat) list" where
  "packed_offsets off [] = []"
| "packed_offsets off ((t, m) # ms) = (m, off) # packed_offsets (off + c_sizeof t) ms"

definition packed_sizeof :: "(string \<times> string) list \<Rightarrow> nat" where
  "packed_sizeof ms = sum_list (map (c_sizeof \<circ> fst) ms)"

definition member_name :: "flat_field \<Rightarrow> string" where
  "member_name f = ff_component f @ ''_'' @ ff_field f"

definition single_line :: "flat_field \<Rightarrow> bool" where
  "single_line f \<longleftrightarrow> CHR 0x0A \<notin> set (ff_component f) \<and> CHR 0x0A \<notin> set (ff_field f)"

lemma split_lines_line: "CHR 0x0A \<notin> set l \<Longrightarrow> split_lines (l @ CHR 0x0A # t) = l # split_lines t"
  by (induction l) auto

lemma split_lines_nl: "CHR 0x0A \<notin> set l \<Longrightarrow> split_lines (l @ nl @ t) = l # split_lines t"
  using split_lines_line by (simp add: nl_def)

lemma read_structs_append:
  assumes "\<forall>l \<in> set ls. l \<noteq> ''{''"
  shows "read_structs (ls @ ms) None = read_structs ms None"
  using assms by (induction ls) auto

definition member_text :: "flat_field \<Rightarrow> string" where
  "member_text f = ''  '' @ field_type_to_c_type (ff_type f) @ '' '' @ member_name f @ '';''"

lemma member_line_text: "member_line f = member_text f @ nl"
  by (simp add: member_line_def member_text_def member_name_def)

lemma member_text_no_nl: "single_line f \<Longrightarrow> CHR 0x0A \<notin> set (member_text f)"
  by (cases "ff_type f") (auto simp: single_line_def member_text_def member_name_def)

lemma read_member_text: "read_member (member_text f) = (field_type_to_c_type (ff_type f), member_name f)"
  by (cases "ff_type f") (simp_all add: read_member_def member_text_def butlast_append)

lemma split_lines_members:
  "\<forall>f \<in> set fs. single_line f \<Longrightarrow> split_lines (concat (map member_line fs) @ t) = map member_text fs @ split_lines t"
  by (induction fs) (simp_all add: member_line_text split_lines_nl member_text_no_nl)

lemma read_structs_members:
  "read_structs (map member_text fs @ ls) (Some ms) =
     read_structs ls (Some (ms @ map (\<lambda>f. (field_type_to_c_type (ff_type f), member_name f)) fs))"
proof (induction fs arbitrary: ms)
  case (Cons f fs)
  have "take 1 (member_text f) \<noteq> ''}''" by (simp add: member_text_def)
  then show ?case using Cons by (simp add: read_member_text)
qed simp

definition members :: "flat_field list \<Rightarrow> (string \<times> string) list" where
  "members fs = map (\<lambda>f. (field_type_to_c_type (ff_type f), member_name f)) fs"

section \<open>The lines of the generated header\<close>

definition header_lines :: "interface_schema \<Rightarrow> string list" where
  "header_lines s =
     (''#ifndef '' @ header_guard) # (''#define '' @ header_guard) # [] # ''#include <stdint.h>'' # [] #
     (''#define ZENBEDDED_STATE_BYTE_SIZE '' @ dec_of_nat (sch_state_size s)) #
     (''#define ZENBEDDED_COMMAND_BYTE_SIZE '' @ dec_of_nat (sch_command_size s)) # [] #
     ''#pragma pack(push, 1)'' # ''typedef struct'' # ''{'' #
     map member_text (sch_state_fields s) @
     ''} zenbedded_state_t;'' # [] # ''typedef struct'' # ''{'' #
     map member_text (sch_command_fields s) @
     [''} zenbedded_command_t;'', ''#pragma pack(pop)'', [], ''#endif  // '' @ header_guard]"

lemma split_lines_line2:
  "CHR 0x0A \<notin> set a \<Longrightarrow> CHR 0x0A \<notin> set l \<Longrightarrow> split_lines (a @ l @ nl @ t) = (a @ l) # split_lines t"
  using split_lines_nl [of "a @ l" t] by simp

lemma split_lines_empty: "split_lines (nl @ t) = [] # split_lines t"
  by (simp add: nl_def)

lemma header_guard_no_nl: "CHR 0x0A \<notin> set header_guard"
  by (simp add: header_guard_def)

lemma digits_no_nl: "CHR 0x0A \<notin> set (dec_of_nat n)"
  by (rule dec_of_nat_no_char) simp

text \<open>Each line printed by hand; the strings are not to be unfolded into characters.\<close>

lemma no_nl_literals:
  "CHR 0x0A \<notin> set ''#ifndef ''" "CHR 0x0A \<notin> set ''#define ''" "CHR 0x0A \<notin> set ''#include <stdint.h>''"
  "CHR 0x0A \<notin> set ''#define ZENBEDDED_STATE_BYTE_SIZE ''" "CHR 0x0A \<notin> set ''#define ZENBEDDED_COMMAND_BYTE_SIZE ''"
  "CHR 0x0A \<notin> set ''#pragma pack(push, 1)''" "CHR 0x0A \<notin> set ''typedef struct''" "CHR 0x0A \<notin> set ''{''"
  "CHR 0x0A \<notin> set ''} zenbedded_state_t;''" "CHR 0x0A \<notin> set ''} zenbedded_command_t;''"
  "CHR 0x0A \<notin> set ''#pragma pack(pop)''" "CHR 0x0A \<notin> set ''#endif  // ''"
  by simp_all

lemma split_lines_last: "CHR 0x0A \<notin> set a \<Longrightarrow> CHR 0x0A \<notin> set l \<Longrightarrow> split_lines (a @ l @ nl) = [a @ l]"
  using split_lines_line2 [of a l "[]"] by simp

lemma split_c_header:
  assumes st: "\<forall>f \<in> set (sch_state_fields s). single_line f" and cm: "\<forall>f \<in> set (sch_command_fields s). single_line f"
  shows "split_lines (c_header s) = header_lines s"
  unfolding c_header_def header_lines_def
  by (simp only: split_lines_line2 split_lines_nl split_lines_empty split_lines_last no_nl_literals header_guard_no_nl
      digits_no_nl split_lines_members [OF st] split_lines_members [OF cm] not_False_eq_True)

lemma read_structs_header:
  "read_structs (header_lines s) None = [members (sch_state_fields s), members (sch_command_fields s)]"
proof -
  have end_of: "read_structs (map member_text fs @ (CHR ''}'' # l) # ls) (Some []) = members fs # read_structs ls None" for fs l ls
    by (simp add: read_structs_members members_def)
  have guard: "''#endif  // '' @ header_guard \<noteq> ''{''" "''#ifndef '' @ header_guard \<noteq> ''{''" "''#define '' @ header_guard \<noteq> ''{''"
    "''#define ZENBEDDED_STATE_BYTE_SIZE '' @ l \<noteq> ''{''" "''#define ZENBEDDED_COMMAND_BYTE_SIZE '' @ l \<noteq> ''{''" for l
    by simp_all
  show ?thesis unfolding header_lines_def
    by (simp add: end_of guard)
qed

lemma c_sizeof_type [simp]: "c_sizeof (field_type_to_c_type ty) = field_byte_size ty"
  by (cases ty) (simp_all add: c_sizeof_def)

lemma packed_members:
  "packed off fs n \<Longrightarrow>
     packed_offsets off (members fs) = map (\<lambda>f. (member_name f, ff_offset f)) fs \<and> n = off + packed_sizeof (members fs)"
  by (induction off fs n rule: packed.induct) (auto simp: members_def packed_sizeof_def field_end_def)

end
