(* ===== verification/Schema_Props.thy ===== *)
theory Schema_Props
  imports Schema_Fields Schema_Header
begin

text \<open>
  The properties of the interface schema, and two documents on which they are instantiated. For these
  yaml-cpp is a tree of maps and scalars, whose texts are names of trees.
\<close>

section \<open>Every parsed schema is laid out\<close>

lemma from_yaml_spec:
  "(case document_decls Y doc of
      Some (ss, cs) \<Rightarrow> from_yaml Y doc =
        \<lparr> sch_valid = True, sch_error = [], sch_state_size = decls_size ss, sch_command_size = decls_size cs,
          sch_state_fields = place 0 ss, sch_command_fields = place 0 cs \<rparr>
    | None \<Rightarrow> \<not> sch_valid (from_yaml Y doc) \<and> sch_error (from_yaml Y doc) \<noteq> [] \<and> layout_wf (from_yaml Y doc))"
proof (cases "\<exists>root st cm. y_load Y doc = Inr root \<and> y_get Y root ''state_interfaces'' = Inr (Some st) \<and>
    y_get Y root ''command_interfaces'' = Inr (Some cm)")
  case False
  then have "document_decls Y doc = None"
    by (auto simp: document_decls_def split: Option.bind_splits)
  moreover have "\<not> sch_valid (from_yaml Y doc) \<and> sch_error (from_yaml Y doc) \<noteq> [] \<and> layout_wf (from_yaml Y doc)"
    using False by (auto simp: from_yaml_def yaml_failed_def schema_empty_def layout_wf_def split: sum.splits option.splits)
  ultimately show ?thesis by simp
next
  case True
  then obtain root st cm where r: "y_load Y doc = Inr root" "y_get Y root ''state_interfaces'' = Inr (Some st)"
    "y_get Y root ''command_interfaces'' = Inr (Some cm)" by blast
  obtain sf sn sr where s: "parse_section Y (y_entries Y st) ([], 0) = ((sf, sn), sr)" by (metis surj_pair)
  obtain cf cn cr where c: "parse_section Y (y_entries Y cm) ([], 0) = ((cf, cn), cr)" by (metis surj_pair)
  obtain ss where ss: "sf = place 0 ss" "sn = decls_size ss"
    "case sr of P_True \<Rightarrow> section_decls Y (y_entries Y st) = Some ss
     | P_False e \<Rightarrow> section_decls Y (y_entries Y st) = None \<and> e \<noteq> []
     | P_Throw e \<Rightarrow> section_decls Y (y_entries Y st) = None"
    using parse_section_from_start [OF s] by blast
  obtain cs where cs: "cf = place 0 cs" "cn = decls_size cs"
    "case cr of P_True \<Rightarrow> section_decls Y (y_entries Y cm) = Some cs
     | P_False e \<Rightarrow> section_decls Y (y_entries Y cm) = None \<and> e \<noteq> []
     | P_Throw e \<Rightarrow> section_decls Y (y_entries Y cm) = None"
    using parse_section_from_start [OF c] by blast
  have d: "document_decls Y doc =
      do { ss \<leftarrow> section_decls Y (y_entries Y st); cs \<leftarrow> section_decls Y (y_entries Y cm); Some (ss, cs) }"
    using r by (simp add: document_decls_def)
  have p: "packed 0 sf sn" "packed 0 cf cn"
    using packed_place [of 0 ss] packed_place [of 0 cs] ss(1,2) cs(1,2) by simp_all
  show ?thesis
    using r s c ss(3) cs(3) p ss(1,2) cs(1,2)
    by (cases sr; cases cr)
      (auto simp: d from_yaml_def Let_def layout_wf_def schema_empty_def yaml_failed_def split: Option.bind_splits)
qed

lemma layout_wf_from_yaml [simp]: "layout_wf (from_yaml Y doc)"
  using from_yaml_spec [of Y doc] packed_place [of 0]
  by (fastforce simp: layout_wf_def split: option.splits)

lemma packed_offsets_prefix:
  "packed off fs n \<Longrightarrow>
     map ff_offset fs = map (\<lambda>i. off + sum_list (map (field_byte_size \<circ> ff_type) (take i fs))) [0..<length fs]"
proof (induction off fs n rule: packed.induct)
  case (2 off f fs n)
  then show ?case by (auto simp: upt_conv_Cons field_end_def map_Suc_upt [symmetric] add.assoc comp_def simp del: upt_Suc)
qed simp

lemma layout_wf_from_yaml_file: "layout_wf (from_yaml_file Y read_file path)"
  by (auto simp: from_yaml_file_def split: option.splits)

lemma read_field_in_bounds: "packed 0 fs (length buf) \<Longrightarrow> read_field fs buf i \<noteq> None"
  using packed_bounds [of 0 fs "length buf" "fs ! i"] nth_mem [of i fs]
  by (auto simp: read_field_def Let_def field_end_def simp del: not_None_eq)

section \<open>Example documents\<close>

datatype ynode = Scalar string | Tree "(ynode \<times> ynode) list"

definition tree_yaml :: "(string \<Rightarrow> ynode option) \<Rightarrow> ynode yaml" where
  "tree_yaml texts = \<lparr>
     y_load = (\<lambda>t. case texts t of None \<Rightarrow> Inl ''bad document'' | Some n \<Rightarrow> Inr n),
     y_get = (\<lambda>n k. case n of Scalar s \<Rightarrow> Inl ''not a map'' | Tree kvs \<Rightarrow> Inr (map_of kvs (Scalar k))),
     y_entries = (\<lambda>n. case n of Scalar s \<Rightarrow> [] | Tree kvs \<Rightarrow> kvs),
     y_string = (\<lambda>n. case n of Scalar s \<Rightarrow> Inr s | Tree kvs \<Rightarrow> Inl ''bad conversion'') \<rparr>"

text \<open>A gripper, and a document in which two different fields have the same C name.\<close>

definition gripper_doc :: ynode where
  "gripper_doc = Tree
     [(Scalar ''state_interfaces'', Tree [(Scalar ''grip'', Tree [(Scalar ''pos'', Scalar ''float32''), (Scalar ''n'', Scalar ''int32'')])]),
      (Scalar ''command_interfaces'', Tree [(Scalar ''grip'', Tree [(Scalar ''pos'', Scalar ''float32''), (Scalar ''n'', Scalar ''int32'')])])]"

definition clash_doc :: ynode where
  "clash_doc = Tree
     [(Scalar ''state_interfaces'', Tree [(Scalar ''a'', Tree [(Scalar ''b_c'', Scalar ''uint8'')]),
                                        (Scalar ''a_b'', Tree [(Scalar ''c'', Scalar ''int16'')])]),
      (Scalar ''command_interfaces'', Tree [])]"

definition bad_doc :: ynode where
  "bad_doc = Tree
     [(Scalar ''state_interfaces'', Tree [(Scalar ''j'', Tree [(Scalar ''n'', Scalar ''uint8''), (Scalar ''p'', Scalar ''float33'')])]),
      (Scalar ''command_interfaces'', Tree [])]"

definition demo_yaml :: "ynode yaml" where
  "demo_yaml = tree_yaml [''gripper'' \<mapsto> gripper_doc, ''clash'' \<mapsto> clash_doc, ''bad'' \<mapsto> bad_doc]"

lemmas demo_yaml_defs = demo_yaml_def tree_yaml_def gripper_doc_def clash_doc_def bad_doc_def

lemma gripper_schema:
  "from_yaml demo_yaml ''gripper'' =
     \<lparr> sch_valid = True, sch_error = [], sch_state_size = 8, sch_command_size = 8,
       sch_state_fields = [\<lparr> ff_component = ''grip'', ff_field = ''pos'', ff_type = FLOAT32, ff_offset = 0 \<rparr>,
                         \<lparr> ff_component = ''grip'', ff_field = ''n'', ff_type = INT32, ff_offset = 4 \<rparr>],
       sch_command_fields = [\<lparr> ff_component = ''grip'', ff_field = ''pos'', ff_type = FLOAT32, ff_offset = 0 \<rparr>,
                           \<lparr> ff_component = ''grip'', ff_field = ''n'', ff_type = INT32, ff_offset = 4 \<rparr>] \<rparr>"
  by (simp add: from_yaml_def demo_yaml_defs parse_field_type_def schema_empty_def)

lemma clash_schema:
  "from_yaml demo_yaml ''clash'' =
     \<lparr> sch_valid = True, sch_error = [], sch_state_size = 3, sch_command_size = 0,
       sch_state_fields = [\<lparr> ff_component = ''a'', ff_field = ''b_c'', ff_type = UINT8, ff_offset = 0 \<rparr>,
                         \<lparr> ff_component = ''a_b'', ff_field = ''c'', ff_type = INT16, ff_offset = 1 \<rparr>],
       sch_command_fields = [] \<rparr>"
  by (simp add: from_yaml_def demo_yaml_defs parse_field_type_def schema_empty_def)

section \<open>Properties\<close>

text \<open>C16: Parsing computes the layout a document declares: when both sections and all their keys and
  type names are readable, the schema is valid, has no error text, and holds the declared fields of each
  section in document order, placed one after the other; otherwise it is not valid and says why.\<close>

theorem schema_parse_refines:
  "(case document_decls Y doc of
      Some (ss, cs) \<Rightarrow> from_yaml Y doc =
        \<lparr> sch_valid = True, sch_error = [], sch_state_size = decls_size ss, sch_command_size = decls_size cs,
          sch_state_fields = place 0 ss, sch_command_fields = place 0 cs \<rparr>
    | None \<Rightarrow> \<not> sch_valid (from_yaml Y doc) \<and> sch_error (from_yaml Y doc) \<noteq> [])"
  using from_yaml_spec [of Y doc] by (auto split: option.splits)

text \<open>C17: Whatever the file holds, and even if parsing stops halfway, the fields of the resulting schema
  lie at consecutive offsets: the offset of a field is the total size of the fields before it, and the
  buffer size is the total size of all.\<close>

theorem schema_layout_contiguous:
  "(let s = from_yaml_file Y read_file path; sz = field_byte_size \<circ> ff_type
    in map ff_offset (sch_state_fields s) =
         map (\<lambda>i. sum_list (map sz (take i (sch_state_fields s)))) [0..<length (sch_state_fields s)] \<and>
       sch_state_size s = sum_list (map sz (sch_state_fields s)) \<and>
       map ff_offset (sch_command_fields s) =
         map (\<lambda>i. sum_list (map sz (take i (sch_command_fields s)))) [0..<length (sch_command_fields s)] \<and>
       sch_command_size s = sum_list (map sz (sch_command_fields s)))"
proof -
  have wf: "layout_wf (from_yaml_file Y read_file path)" by (rule layout_wf_from_yaml_file)
  then have p: "packed 0 (sch_state_fields (from_yaml_file Y read_file path)) (sch_state_size (from_yaml_file Y read_file path))"
    "packed 0 (sch_command_fields (from_yaml_file Y read_file path)) (sch_command_size (from_yaml_file Y read_file path))"
    by (simp_all add: layout_wf_def)
  show ?thesis
    unfolding Let_def using packed_offsets_prefix [OF p(1)] packed_sizes [OF p(1)]
      packed_offsets_prefix [OF p(2)] packed_sizes [OF p(2)]
    by (simp add: comp_def)
qed

text \<open>C18: Writing a command field of a buffer of the schema's size stays in the buffer, makes exactly that
  field read back as the value its type can hold, and leaves what every other field reads; the only way
  it can fail is a conversion that C++ leaves undefined.\<close>

theorem command_field_write_read:
  assumes "length buf = sch_command_size (from_yaml Y doc)"
    and "i < length (sch_command_fields (from_yaml Y doc))"
  shows "case write_command_field (from_yaml Y doc) buf i v of
      None \<Rightarrow> stored_value (ff_type (sch_command_fields (from_yaml Y doc) ! i)) v = None
    | Some buf' \<Rightarrow> length buf' = length buf \<and>
        read_command_field (from_yaml Y doc) buf' i = stored_value (ff_type (sch_command_fields (from_yaml Y doc) ! i)) v \<and>
        (\<forall>j. j \<noteq> i \<longrightarrow> read_command_field (from_yaml Y doc) buf' j = read_command_field (from_yaml Y doc) buf j)"
  using write_command_field_None [OF layout_wf_from_yaml assms, of v] write_command_field_frame [OF layout_wf_from_yaml assms, of v]
  by (auto simp: stored_value_None split: option.splits)

theorem command_field_write_read_witness:
  "\<exists>buf'. write_command_field (from_yaml demo_yaml ''gripper'') [1, 2, 3, 4, 5, 6, 7, 8] 1 (f64_of_int (-2)) = Some buf' \<and>
     length buf' = 8 \<and> read_command_field (from_yaml demo_yaml ''gripper'') buf' 1 = Some (f64_of_int (-2)) \<and>
     read_command_field (from_yaml demo_yaml ''gripper'') buf' 0 =
       read_command_field (from_yaml demo_yaml ''gripper'') [1, 2, 3, 4, 5, 6, 7, 8] 0"
proof -
  have len: "length [1, 2, 3, 4, 5, 6, 7, 8 :: byte] = sch_command_size (from_yaml demo_yaml ''gripper'')"
    "1 < length (sch_command_fields (from_yaml demo_yaml ''gripper''))" by (simp_all add: gripper_schema)
  have "stored_value INT32 (f64_of_int (-2)) = Some (f64_of_int (-2))"
    by (simp add: int_field_def f64_to_int_of_int)
  then have v: "stored_value (ff_type (sch_command_fields (from_yaml demo_yaml ''gripper'') ! 1)) (f64_of_int (-2)) = Some (f64_of_int (-2))"
    by (simp add: gripper_schema)
  show ?thesis
    using command_field_write_read [OF len, of "f64_of_int (-2)"] v by (auto split: option.splits)
qed

text \<open>Reading a field never leaves a buffer of the schema's size, for any index; an index without a
  field reads as zero.\<close>

theorem field_reads_in_bounds:
  assumes "length buf = sch_state_size (from_yaml Y doc)" and "length cbuf = sch_command_size (from_yaml Y doc)"
  shows "read_state_field (from_yaml Y doc) buf i \<noteq> None \<and> read_command_field (from_yaml Y doc) cbuf i \<noteq> None \<and>
    (length (sch_state_fields (from_yaml Y doc)) \<le> i \<longrightarrow> read_state_field (from_yaml Y doc) buf i = Some 0) \<and>
    (length (sch_command_fields (from_yaml Y doc)) \<le> i \<longrightarrow> read_command_field (from_yaml Y doc) cbuf i = Some 0)"
proof -
  show ?thesis
    using layout_wf_from_yaml [of Y doc] read_field_in_bounds assms
    by (auto simp: layout_wf_def read_state_field_def read_command_field_def) (simp_all add: read_field_def)
qed

theorem field_reads_in_bounds_witness:
  "read_state_field (from_yaml demo_yaml ''gripper'') (replicate 8 7) 2 \<noteq> None \<and>
   read_command_field (from_yaml demo_yaml ''gripper'') (replicate 8 9) 2 \<noteq> None \<and>
   (length (sch_state_fields (from_yaml demo_yaml ''gripper'')) \<le> 2 \<longrightarrow>
      read_state_field (from_yaml demo_yaml ''gripper'') (replicate 8 7) 2 = Some 0) \<and>
   (length (sch_command_fields (from_yaml demo_yaml ''gripper'')) \<le> 2 \<longrightarrow>
      read_command_field (from_yaml demo_yaml ''gripper'') (replicate 8 9) 2 = Some 0)"
  by (rule field_reads_in_bounds) (simp_all add: gripper_schema)

text \<open>C33: A state field that is read and written to a command field of the same type arrives with the same
  bytes, unless it is a NaN of single precision or an unsigned 64-bit number of more than 53 bits.\<close>

theorem state_relayed_exactly:
  assumes "length cbuf = sch_command_size (from_yaml Y doc)"
    and "i < length (sch_state_fields (from_yaml Y doc))" and "j < length (sch_command_fields (from_yaml Y doc))"
    and "ff_type (sch_command_fields (from_yaml Y doc) ! j) = ff_type (sch_state_fields (from_yaml Y doc) ! i)"
    and "mem_read buf (ff_offset (sch_state_fields (from_yaml Y doc) ! i))
           (field_byte_size (ff_type (sch_state_fields (from_yaml Y doc) ! i))) = Some bs"
    and "lossless (ff_type (sch_state_fields (from_yaml Y doc) ! i)) bs"
  shows "\<exists>cbuf'. Option.bind (read_state_field (from_yaml Y doc) buf i) (write_command_field (from_yaml Y doc) cbuf j) = Some cbuf' \<and>
    mem_read cbuf' (ff_offset (sch_command_fields (from_yaml Y doc) ! j))
      (field_byte_size (ff_type (sch_command_fields (from_yaml Y doc) ! j))) = Some bs"
proof -
  let ?ty = "ff_type (sch_state_fields (from_yaml Y doc) ! i)"
  have len: "length bs = field_byte_size ?ty" using mem_read_length [OF assms(5)] .
  have rd: "read_state_field (from_yaml Y doc) buf i = Some (load_value ?ty bs)"
    using assms(2,5) by (simp add: read_state_field_def read_field_def Let_def)
  have "store_value ?ty (load_value ?ty bs) = Some bs" using len assms(6) by (rule store_load_value)
  then obtain cbuf' where "write_command_field (from_yaml Y doc) cbuf j (load_value ?ty bs) = Some cbuf'"
      "mem_write cbuf (ff_offset (sch_command_fields (from_yaml Y doc) ! j)) bs = Some cbuf'"
    using write_command_field_cases [OF layout_wf_from_yaml assms(1,3), of "load_value ?ty bs"] assms(4) by auto
  then show ?thesis using rd mem_read_write_same [of cbuf _ bs cbuf'] len assms(4) by simp
qed

theorem state_relayed_exactly_witness:
  "\<exists>cbuf'. Option.bind (read_state_field (from_yaml demo_yaml ''gripper'') [0, 0, 128, 63, 255, 255, 255, 255] 1)
      (write_command_field (from_yaml demo_yaml ''gripper'') (replicate 8 0) 1) = Some cbuf' \<and>
    mem_read cbuf' (ff_offset (sch_command_fields (from_yaml demo_yaml ''gripper'') ! 1))
      (field_byte_size (ff_type (sch_command_fields (from_yaml demo_yaml ''gripper'') ! 1))) = Some [255, 255, 255, 255]"
  by (rule state_relayed_exactly [of _ demo_yaml "''gripper''" 1]) (simp_all add: gripper_schema mem_read_def)

text \<open>A command that is not a number, or is infinite, has no defined value in an integer field: writing
  it is undefined behaviour, and the code has no check that would prevent it.\<close>

theorem nonfinite_command_undefined:
  assumes "i < length (sch_command_fields s)" and "F64_INF \<le> f64_mag v"
    and "ff_type (sch_command_fields s ! i) \<noteq> FLOAT32" and "ff_type (sch_command_fields s ! i) \<noteq> FLOAT64"
  shows "write_command_field s buf i v = None"
  using assms by (cases "ff_type (sch_command_fields s ! i)") (simp_all add: write_command_field_def f64_to_int_def)

theorem nonfinite_command_undefined_witness:
  "write_command_field (from_yaml demo_yaml ''gripper'') (replicate 8 0) 1 (f64_make False (F64_INF + 2 ^ 51)) = None"
  by (rule nonfinite_command_undefined) (simp_all add: gripper_schema F64_INF_def)

text \<open>The generated header and the schema agree: the two packed structs that a C compiler reads in the
  text of the file have one member per field, at the field's offset in the buffer, and the size that the
  schema and the size macros give.\<close>

theorem header_struct_layout:
  assumes "\<forall>f \<in> set (sch_state_fields (from_yaml Y doc) @ sch_command_fields (from_yaml Y doc)). single_line f"
    and "write_c_header can_open (from_yaml Y doc) = (True, Some hdr)"
  shows "\<exists>st cm. header_structs hdr = [st, cm] \<and>
    packed_offsets 0 st = map (\<lambda>f. (member_name f, ff_offset f)) (sch_state_fields (from_yaml Y doc)) \<and>
    packed_sizeof st = sch_state_size (from_yaml Y doc) \<and>
    packed_offsets 0 cm = map (\<lambda>f. (member_name f, ff_offset f)) (sch_command_fields (from_yaml Y doc)) \<and>
    packed_sizeof cm = sch_command_size (from_yaml Y doc) \<and>
    ''#define ZENBEDDED_STATE_BYTE_SIZE '' @ dec_of_nat (packed_sizeof st) \<in> set (split_lines hdr) \<and>
    ''#define ZENBEDDED_COMMAND_BYTE_SIZE '' @ dec_of_nat (packed_sizeof cm) \<in> set (split_lines hdr)"
proof -
  let ?s = "from_yaml Y doc"
  have hdr: "hdr = c_header ?s" using assms(2) by (simp add: write_c_header_def split: if_splits)
  have lines: "split_lines hdr = header_lines ?s" using assms(1) unfolding hdr by (intro split_c_header) auto
  have "packed 0 (sch_state_fields ?s) (sch_state_size ?s)" "packed 0 (sch_command_fields ?s) (sch_command_size ?s)"
    using layout_wf_from_yaml [of Y doc] by (simp_all add: layout_wf_def)
  from this [THEN packed_members] have
    p: "packed_offsets 0 (members (sch_state_fields ?s)) = map (\<lambda>f. (member_name f, ff_offset f)) (sch_state_fields ?s)"
      "packed_sizeof (members (sch_state_fields ?s)) = sch_state_size ?s"
      "packed_offsets 0 (members (sch_command_fields ?s)) = map (\<lambda>f. (member_name f, ff_offset f)) (sch_command_fields ?s)"
      "packed_sizeof (members (sch_command_fields ?s)) = sch_command_size ?s" by simp_all
  show ?thesis
    unfolding header_structs_def lines
    by (rule exI [of _ "members (sch_state_fields ?s)"], rule exI [of _ "members (sch_command_fields ?s)"])
      (simp only: read_structs_header p, simp only: header_lines_def list.set insert_iff simp_thms)
qed

theorem header_struct_layout_witness:
  "\<exists>st cm. header_structs (c_header (from_yaml demo_yaml ''gripper'')) = [st, cm] \<and>
    packed_offsets 0 st = map (\<lambda>f. (member_name f, ff_offset f)) (sch_state_fields (from_yaml demo_yaml ''gripper'')) \<and>
    packed_sizeof st = sch_state_size (from_yaml demo_yaml ''gripper'') \<and>
    packed_offsets 0 cm = map (\<lambda>f. (member_name f, ff_offset f)) (sch_command_fields (from_yaml demo_yaml ''gripper'')) \<and>
    packed_sizeof cm = sch_command_size (from_yaml demo_yaml ''gripper'') \<and>
    ''#define ZENBEDDED_STATE_BYTE_SIZE '' @ dec_of_nat (packed_sizeof st) \<in> set (split_lines (c_header (from_yaml demo_yaml ''gripper''))) \<and>
    ''#define ZENBEDDED_COMMAND_BYTE_SIZE '' @ dec_of_nat (packed_sizeof cm) \<in> set (split_lines (c_header (from_yaml demo_yaml ''gripper'')))"
  by (rule header_struct_layout [where can_open = True]) (simp_all add: gripper_schema single_line_def write_c_header_def)

text \<open>Two fields of different components can get the same member name, as component and field are
  joined by an underscore: the schema is valid, and the struct in the header declares a member twice,
  which no C compiler accepts.\<close>

theorem header_member_clash:
  "sch_valid (from_yaml demo_yaml ''clash'') \<and>
   distinct (map (\<lambda>f. (ff_component f, ff_field f)) (sch_state_fields (from_yaml demo_yaml ''clash''))) \<and>
   \<not> distinct (map snd (hd (header_structs (c_header (from_yaml demo_yaml ''clash'')))))"
proof -
  let ?s = "from_yaml demo_yaml ''clash''"
  have "header_structs (c_header ?s) = [members (sch_state_fields ?s), members (sch_command_fields ?s)]"
    unfolding header_structs_def by (subst split_c_header) (simp_all add: clash_schema single_line_def read_structs_header)
  then show ?thesis by (simp add: clash_schema members_def member_name_def)
qed

end
