(* ===== verification/Hardware_Proofs.thy ===== *)
theory Hardware_Proofs
  imports Zenbedded_Hardware Schema_Props
begin

text \<open>
  The hardware component, step by step. The loops over the fields of a buffer are instances of the
  \<open>field_store\<close> interface that the schema provides; the invariant ties the value vectors and the buffers
  to the schema; a ghost list of the accepted samples says what the state buffer holds.
\<close>

section \<open>The loops\<close>

lemma write_commands_store:
  assumes "length commands = n" and "i \<le> n"
  shows "map_option (Pair s) (write_commands s commands [i..<n] buf) = cs.wr_all (s, buf) i (drop i commands)"
  using assms(2)
proof (induction i arbitrary: buf rule: inc_induct)
  case base
  then show ?case using assms(1) by simp
next
  case (step i)
  have "[i..<n] = i # [Suc i..<n]" "drop i commands = commands ! i # drop (Suc i) commands"
    using step.hyps assms(1) by (simp_all add: upt_conv_Cons Cons_nth_drop_Suc)
  then show ?case using step.hyps step.IH assms(1)
    by (cases "write_command_field s buf i (commands ! i)") (simp_all add: cs_write_pair)
qed

lemma write_commands_None:
  assumes "layout_wf s" and "length buf = sch_command_size s" and "length commands = length (sch_command_fields s)"
  shows "write_commands s commands [0..<length (sch_command_fields s)] buf = None \<longleftrightarrow>
    (\<exists>i < length (sch_command_fields s). stored_value (ff_type (sch_command_fields s ! i)) (commands ! i) = None)"
proof -
  have "cs_ok (s, buf)" "0 + length commands \<le> cs_cnt (s, buf)" using assms by (simp_all add: cs_defs)
  from cs.wr_all_None [OF this] show ?thesis
    using write_commands_store [OF assms(3), of 0 s buf] assms(3)
    by (auto simp: cs_type_def)
qed

lemma write_commands_Some:
  assumes "layout_wf s" and "length buf = sch_command_size s" and "length commands = length (sch_command_fields s)"
    and "write_commands s commands [0..<length (sch_command_fields s)] buf = Some buf'"
  shows "length buf' = sch_command_size s \<and>
    (\<forall>i < length (sch_command_fields s).
       read_command_field s buf' i = stored_value (ff_type (sch_command_fields s ! i)) (commands ! i) \<and>
       field_bytes s buf' i = store_value (ff_type (sch_command_fields s ! i)) (commands ! i))"
proof -
  have ok: "cs_ok (s, buf)" "0 + length commands \<le> cs_cnt (s, buf)" using assms by (simp_all add: cs_defs)
  have w: "cs.wr_all (s, buf) 0 commands = Some (s, buf')"
    using write_commands_store [OF assms(3), of 0 s buf] assms(4) by simp
  show ?thesis
    using cs.wr_all_Some [OF ok w] csb.wr_all_Some [OF ok w] assms(3) by (simp add: cs_ok_def cs_type_def)
qed

lemma read_states_map:
  assumes "\<And>i. read_state_field s buf i \<noteq> None" and "length states = n" and "i \<le> n"
  shows "read_states s buf [i..<n] states = Some (take i states @ map (\<lambda>j. the (read_state_field s buf j)) [i..<n])"
  using assms(3,2)
proof (induction i arbitrary: states rule: inc_induct)
  case base
  then show ?case by simp
next
  case (step i)
  obtain v where v: "read_state_field s buf i = Some v" using assms(1) by blast
  have "[i..<n] = i # [Suc i..<n]" using step.hyps by (simp add: upt_conv_Cons)
  then show ?case using step.hyps step.prems step.IH [of "states[i := v]"] v
    by (simp add: take_Suc_conv_app_nth)
qed

section \<open>The invariant\<close>

definition hw_inv :: "'b hardware \<Rightarrow> bool" where
  "hw_inv hw \<longleftrightarrow> layout_wf (hw_schema hw) \<and>
     length (hw_states hw) = length (sch_state_fields (hw_schema hw)) \<and>
     length (hw_commands hw) = length (sch_command_fields (hw_schema hw)) \<and>
     length (hw_command_buffer hw) = sch_command_size (hw_schema hw)"

lemma length_resize [simp]: "length (resize n v xs) = n"
  by (simp add: resize_def)

lemma resize_Nil [simp]: "resize n v [] = replicate n v"
  by (simp add: resize_def)

lemma read_parameters_frame:
  assumes "read_parameters params hw = (ok, hw')"
  shows "hw_schema hw' = hw_schema hw \<and> hw_states hw' = hw_states hw \<and> hw_commands hw' = hw_commands hw \<and>
    hw_state_buffer hw' = hw_state_buffer hw \<and> hw_command_buffer hw' = hw_command_buffer hw \<and>
    hw_session hw' = hw_session hw \<and> hw_state_sub hw' = hw_state_sub hw \<and> hw_command_pub hw' = hw_command_pub hw \<and>
    hw_sent hw' = hw_sent hw \<and>
    (ok \<longleftrightarrow> params ''zenoh_endpoint'' \<noteq> None \<and> params ''state_topic'' \<noteq> None \<and> params ''command_topic'' \<noteq> None) \<and>
    (ok \<longrightarrow> params ''zenoh_endpoint'' = Some (hw_zenoh_endpoint hw') \<and> params ''state_topic'' = Some (hw_state_topic hw') \<and>
       params ''command_topic'' = Some (hw_command_topic hw') \<and>
       hw_zenoh_mode hw' = (case params ''zenoh_mode'' of Some m \<Rightarrow> m | None \<Rightarrow> ''client''))"
  using assms by (auto simp: read_parameters_def Let_def split: option.splits)

text \<open>The component after a successful initialisation of a new object.\<close>

lemma on_init_success:
  assumes "on_init RB Y read_file base_ok params (hw_new b) = (CB_SUCCESS, hw)"
  obtains path where "base_ok" "params ''schema_path'' = Some path" "hw_schema hw = from_yaml_file Y read_file path"
    "sch_valid (hw_schema hw)"
    "hw_states hw = replicate (length (sch_state_fields (hw_schema hw))) quiet_NaN"
    "hw_commands hw = replicate (length (sch_command_fields (hw_schema hw))) quiet_NaN"
    "hw_state_buffer hw = rb_write RB (replicate (sch_state_size (hw_schema hw)) 0) b"
    "hw_command_buffer hw = replicate (sch_command_size (hw_schema hw)) 0"
    "hw_session hw = None" "hw_state_sub hw = None" "hw_command_pub hw = None" "hw_sent hw = []"
    "params ''zenoh_endpoint'' = Some (hw_zenoh_endpoint hw)" "params ''state_topic'' = Some (hw_state_topic hw)"
    "params ''command_topic'' = Some (hw_command_topic hw)"
    "hw_zenoh_mode hw = (case params ''zenoh_mode'' of Some m \<Rightarrow> m | None \<Rightarrow> ''client'')"
proof -
  obtain ok h where p: "read_parameters params (hw_new b) = (ok, h)" by (metis surj_pair)
  note f = read_parameters_frame [OF p]
  have bo: "base_ok" "ok" using assms p by (auto simp: on_init_def split: if_splits)
  then obtain path where path: "params ''schema_path'' = Some path"
    using assms p by (auto simp: on_init_def split: option.splits)
  have valid: "sch_valid (from_yaml_file Y read_file path)"
    using assms p bo path by (simp add: on_init_def Let_def split: if_splits)
  have hw: "hw = h\<lparr> hw_schema := from_yaml_file Y read_file path,
      hw_states := resize (length (sch_state_fields (from_yaml_file Y read_file path))) quiet_NaN (hw_states h),
      hw_commands := resize (length (sch_command_fields (from_yaml_file Y read_file path))) quiet_NaN (hw_commands h),
      hw_state_buffer := rb_write RB (replicate (sch_state_size (from_yaml_file Y read_file path)) 0) (hw_state_buffer h),
      hw_command_buffer := resize (sch_command_size (from_yaml_file Y read_file path)) 0 (hw_command_buffer h) \<rparr>"
    using assms p bo path valid by (simp add: on_init_def Let_def)
  have h: "hw_states h = []" "hw_commands h = []" "hw_state_buffer h = b" "hw_command_buffer h = []"
    "hw_session h = None" "hw_state_sub h = None" "hw_command_pub h = None" "hw_sent h = []"
    using f by (simp_all add: hw_new_def)
  show thesis
    by (rule that [OF bo(1) path]) (use f bo(2) valid in \<open>simp_all add: hw h\<close>)
qed

lemma hw_inv_init: "on_init RB Y read_file base_ok params (hw_new b) = (CB_SUCCESS, hw) \<Longrightarrow> hw_inv hw"
  by (elim on_init_success) (simp add: hw_inv_def layout_wf_from_yaml_file)

lemma on_activate_frame:
  assumes "on_activate Z hw = (r, hw')"
  shows "hw_schema hw' = hw_schema hw \<and> hw_state_buffer hw' = hw_state_buffer hw \<and>
    hw_command_buffer hw' = hw_command_buffer hw \<and> hw_sent hw' = hw_sent hw \<and>
    hw_state_topic hw' = hw_state_topic hw \<and> hw_command_topic hw' = hw_command_topic hw \<and>
    length (hw_states hw') = length (hw_states hw) \<and> length (hw_commands hw') = length (hw_commands hw)"
  using assms by (auto simp: on_activate_def Let_def split: if_splits)

lemma hw_read_result:
  assumes inv: "hw_inv hw"
  obtains buf b where "rb_read RB l (hw_state_buffer hw) = (buf, b)"
    "hw_read RB l hw = Some (hw\<lparr> hw_state_buffer := b, hw_states :=
       (case buf of Some bytes \<Rightarrow>
          if length bytes = sch_state_size (hw_schema hw)
          then map (\<lambda>i. the (read_state_field (hw_schema hw) bytes i)) [0..<length (sch_state_fields (hw_schema hw))]
          else hw_states hw
        | None \<Rightarrow> hw_states hw) \<rparr>)"
proof -
  obtain buf b where rb: "rb_read RB l (hw_state_buffer hw) = (buf, b)" by (metis surj_pair)
  have wf: "packed 0 (sch_state_fields (hw_schema hw)) (sch_state_size (hw_schema hw))"
    using inv by (simp add: hw_inv_def layout_wf_def)
  have rd: "read_state_field (hw_schema hw) bytes i \<noteq> None" if "length bytes = sch_state_size (hw_schema hw)" for bytes i
    using read_field_in_bounds [of _ bytes i] wf that by (simp add: read_state_field_def)
  have rs: "read_states (hw_schema hw) bytes [0..<length (sch_state_fields (hw_schema hw))] (hw_states hw) =
      Some (map (\<lambda>i. the (read_state_field (hw_schema hw) bytes i)) [0..<length (sch_state_fields (hw_schema hw))])"
    if "length bytes = sch_state_size (hw_schema hw)" for bytes
    using read_states_map [where i = 0] rd [OF that] inv by (simp add: hw_inv_def)
  show thesis
    by (rule that [OF rb]) (auto simp: hw_read_def rb Let_def rs split: option.splits)
qed

text \<open>The states after a read that returned \<open>buf\<close>.\<close>

lemma hw_read_frame:
  assumes "hw_inv hw" and "hw_read RB l hw = Some hw'"
  shows "hw_inv hw' \<and> hw_schema hw' = hw_schema hw \<and> rb_read RB l (hw_state_buffer hw) = (fst (rb_read RB l (hw_state_buffer hw)), hw_state_buffer hw') \<and>
    hw_command_pub hw' = hw_command_pub hw \<and> hw_state_sub hw' = hw_state_sub hw \<and>
    hw_command_topic hw' = hw_command_topic hw \<and> hw_state_topic hw' = hw_state_topic hw \<and>
    hw_commands hw' = hw_commands hw \<and> hw_sent hw' = hw_sent hw"
  by (rule hw_read_result [OF assms(1), of RB l]) (use assms in \<open>auto simp: hw_inv_def split: option.splits\<close>)

section \<open>What reachable states satisfy\<close>

fun accepted_samples :: "nat \<Rightarrow> hw_event list \<Rightarrow> byte list list" where
  "accepted_samples n [] = []"
| "accepted_samples n (e # es) =
     (case e of Ev_Sample bytes \<Rightarrow> if length bytes = n then bytes # accepted_samples n es else accepted_samples n es
      | _ \<Rightarrow> accepted_samples n es)"

lemma accepted_samples_append [simp]: "accepted_samples n (es @ fs) = accepted_samples n es @ accepted_samples n fs"
  by (induction n es rule: accepted_samples.induct) (auto split: hw_event.splits)

lemma accepted_samples_size: "bs \<in> set (accepted_samples n es) \<Longrightarrow> length bs = n"
proof (induction es)
  case (Cons e es)
  then show ?case by (cases e) (auto split: if_splits)
qed simp

text \<open>The documented behaviour of the buffer: it holds values that were written, a reader that gets the lock
  reads the newest, and one that does not reads an older one or nothing. A new buffer holds the empty
  vector.\<close>

definition rt_buffer_laws :: "'b rt_buffer \<Rightarrow> 'b \<Rightarrow> ('b \<Rightarrow> byte list set) \<Rightarrow> ('b \<Rightarrow> byte list) \<Rightarrow> bool" where
  "rt_buffer_laws RB b0 contents latest \<longleftrightarrow>
     contents b0 \<subseteq> {[]} \<and>
     (\<forall>v b. contents (rb_write RB v b) \<subseteq> insert v (contents b) \<and> latest (rb_write RB v b) = v) \<and>
     (\<forall>l b r b'. rb_read RB l b = (r, b') \<longrightarrow>
        contents b' \<subseteq> contents b \<and> latest b' = latest b \<and>
        (case r of None \<Rightarrow> \<not> l | Some v \<Rightarrow> v \<in> contents b \<and> (l \<longrightarrow> v = latest b)))"

lemma rt_buffer_writeD:
  "rt_buffer_laws RB b0 contents latest \<Longrightarrow>
     contents (rb_write RB v b) \<subseteq> insert v (contents b) \<and> latest (rb_write RB v b) = v"
  by (simp add: rt_buffer_laws_def)

lemma rt_buffer_readD:
  "rt_buffer_laws RB b0 contents latest \<Longrightarrow> rb_read RB l b = (r, b') \<Longrightarrow>
     contents b' \<subseteq> contents b \<and> latest b' = latest b \<and>
     (case r of None \<Rightarrow> \<not> l | Some v \<Rightarrow> v \<in> contents b \<and> (l \<longrightarrow> v = latest b))"
  by (simp add: rt_buffer_laws_def)

lemma hw_write_frame:
  assumes "hw_inv hw" and "hw_write Z hw = Some (r, hw')"
  shows "hw_inv hw' \<and> hw_schema hw' = hw_schema hw \<and> hw_state_buffer hw' = hw_state_buffer hw \<and>
    hw_command_pub hw' = hw_command_pub hw \<and> hw_state_sub hw' = hw_state_sub hw \<and>
    hw_command_topic hw' = hw_command_topic hw \<and> hw_state_topic hw' = hw_state_topic hw \<and>
    hw_commands hw' = hw_commands hw \<and> hw_states hw' = hw_states hw"
  using assms write_commands_Some [of "hw_schema hw" "hw_command_buffer hw" "hw_commands hw"]
  by (auto simp: hw_write_def Let_def hw_inv_def split: option.splits Option.bind_splits if_splits)

text \<open>What no event changes, and the invariant.\<close>

lemma hw_step_inv:
  assumes "hw_step RB hw e hw'" and "hw_inv hw"
  shows "hw_inv hw' \<and> hw_schema hw' = hw_schema hw \<and> hw_command_topic hw' = hw_command_topic hw \<and>
    hw_state_topic hw' = hw_state_topic hw"
  using assms
proof (cases rule: hw_step.cases)
  case (activate Z r)
  then show ?thesis using on_activate_frame [of Z hw r hw'] assms(2) by (simp add: hw_inv_def)
next
  case (deactivate r)
  then show ?thesis using assms(2) by (auto simp: on_deactivate_def hw_inv_def)
next
  case (cycle_read l)
  show ?thesis using hw_read_frame [OF assms(2) cycle_read(2)] by simp
next
  case (cycle_write Z r)
  then show ?thesis using hw_write_frame [OF assms(2)] by simp
next
  case (sample bytes)
  then show ?thesis using assms(2) by (simp add: on_state_sample_def hw_inv_def)
next
  case (command i v)
  then show ?thesis using assms(2) by (simp add: hw_inv_def)
qed

lemma hw_reachable_inv:
  "hw_reachable RB Y read_file b0 es hw \<Longrightarrow>
     hw_inv hw \<and> (\<exists>path. hw_schema hw = from_yaml_file Y read_file path) \<and> sch_valid (hw_schema hw)"
proof (induction rule: hw_reachable.induct)
  case (start params hw)
  then show ?case using hw_inv_init by (metis on_init_success)
next
  case (more es hw e hw')
  then show ?case using hw_step_inv by metis
qed

text \<open>The subscriber and the publisher have the configured keys, and exist only after an activation that
  declared them.\<close>

lemma on_activate_publisher:
  assumes "on_activate Z hw = (r, hw')"
  shows "(r = CB_SUCCESS \<and> zc_publisher Z (hw_command_topic hw) \<and> hw_command_pub hw' = Some (hw_command_topic hw)) \<or>
    (r = CB_ERROR \<and> hw_command_pub hw' = hw_command_pub hw \<and> hw_states hw' = hw_states hw \<and> hw_commands hw' = hw_commands hw)"
  using assms by (auto simp: on_activate_def Let_def split: if_splits)

lemma hw_reachable_publisher:
  assumes "hw_reachable RB Y read_file b0 es hw"
  shows "hw_command_pub hw = None \<or>
    (hw_command_pub hw = Some (hw_command_topic hw) \<and>
     (\<exists>es1 Z es2. es = es1 @ Ev_Activate Z # es2 \<and> zc_publisher Z (hw_command_topic hw) \<and> Ev_Deactivate \<notin> set es2))"
  using assms
proof (induction rule: hw_reachable.induct)
  case (start params hw)
  then show ?case by (metis on_init_success)
next
  case (more es hw e hw')
  have inv: "hw_inv hw" using hw_reachable_inv [OF more.hyps(1)] by simp
  have keep: ?case if "hw_command_pub hw' = hw_command_pub hw" "hw_command_topic hw' = hw_command_topic hw" "e \<noteq> Ev_Deactivate"
    using more.IH that by (auto intro: exI [of _ "_ @ [e]"]) (metis append_Cons append_assoc insert_iff empty_iff list.set set_append Un_iff)
  show ?case using more.hyps(2)
  proof (cases rule: hw_step.cases)
    case (activate Z r)
    show ?thesis
    proof (cases "r = CB_SUCCESS")
      case True
      then have "hw_command_pub hw' = Some (hw_command_topic hw) \<and> zc_publisher Z (hw_command_topic hw)"
        using on_activate_publisher [OF activate(2)] by auto
      moreover have "hw_command_topic hw' = hw_command_topic hw" using on_activate_frame [OF activate(2)] by simp
      ultimately show ?thesis using activate(1) by (metis append_Nil2 empty_iff list.set(1))
    next
      case False
      then show ?thesis using keep on_activate_publisher [OF activate(2)] on_activate_frame [OF activate(2)] activate(1) by auto
    qed
  next
    case (deactivate r)
    then show ?thesis by (auto simp: on_deactivate_def)
  next
    case (cycle_read l)
    show ?thesis using keep cycle_read(1) hw_read_frame [OF inv cycle_read(2)] by simp
  next
    case (cycle_write Z r)
    then show ?thesis using keep hw_write_frame [OF inv cycle_write(2)] by simp
  next
    case (sample bytes)
    then show ?thesis using keep by (simp add: on_state_sample_def)
  next
    case (command i v)
    then show ?thesis using keep by simp
  qed
qed

text \<open>The state buffer holds the samples that were accepted.\<close>

lemma hw_reachable_buffer:
  assumes laws: "rt_buffer_laws RB b0 contents latest" and "hw_reachable RB Y read_file b0 es hw"
  defines "n \<equiv> sch_state_size (hw_schema hw)"
  shows "latest (hw_state_buffer hw) = last (replicate n 0 # accepted_samples n es) \<and>
    contents (hw_state_buffer hw) \<subseteq> {[]} \<union> set (replicate n 0 # accepted_samples n es)"
  using assms(2) unfolding n_def
proof (induction rule: hw_reachable.induct)
  case (start params hw)
  then obtain "hw_state_buffer hw = rb_write RB (replicate (sch_state_size (hw_schema hw)) 0) b0"
    by (elim on_init_success)
  moreover have "contents b0 \<subseteq> {[]}" using laws by (simp add: rt_buffer_laws_def)
  ultimately show ?case using rt_buffer_writeD [OF laws, of "replicate (sch_state_size (hw_schema hw)) 0" b0] by auto
next
  case (more es hw e hw')
  have inv: "hw_inv hw" using hw_reachable_inv [OF more.hyps(1)] by simp
  have s: "hw_schema hw' = hw_schema hw" using hw_step_inv [OF more.hyps(2) inv] by simp
  have keep: ?case if "contents (hw_state_buffer hw') \<subseteq> contents (hw_state_buffer hw)"
      "latest (hw_state_buffer hw') = latest (hw_state_buffer hw)" "\<And>bytes. e \<noteq> Ev_Sample bytes"
    using more.IH that unfolding s by (cases e) auto
  show ?case using more.hyps(2)
  proof (cases rule: hw_step.cases)
    case (activate Z r)
    then show ?thesis using keep on_activate_frame [OF activate(2)] by simp
  next
    case (deactivate r)
    then show ?thesis using keep by (auto simp: on_deactivate_def)
  next
    case (cycle_read l)
    then obtain buf where "rb_read RB l (hw_state_buffer hw) = (buf, hw_state_buffer hw')"
      using hw_read_frame [OF inv cycle_read(2)] by blast
    then show ?thesis using keep cycle_read(1) rt_buffer_readD [OF laws] by blast
  next
    case (cycle_write Z r)
    then show ?thesis using keep hw_write_frame [OF inv cycle_write(2)] by simp
  next
    case (sample bytes)
    then show ?thesis using more.IH rt_buffer_writeD [OF laws, of bytes "hw_state_buffer hw"]
      by (auto simp: on_state_sample_def)
  next
    case (command i v)
    then show ?thesis using keep by simp
  qed
qed

abbreviation all_commands :: "'b hardware \<Rightarrow> byte list option" where
  "all_commands hw \<equiv> write_commands (hw_schema hw) (hw_commands hw)
     [0..<length (sch_command_fields (hw_schema hw))] (hw_command_buffer hw)"

lemma hw_write_None: "hw_write Z hw = None \<longleftrightarrow> hw_command_pub hw \<noteq> None \<and> all_commands hw = None"
  by (cases "hw_command_pub hw"; cases "all_commands hw") (auto simp: hw_write_def Let_def)

lemma hw_write_Some:
  assumes "hw_command_pub hw = Some key" and "hw_write Z hw = Some (True, hw')"
  obtains payload where "all_commands hw = Some payload" "zc_put Z payload" "hw_sent hw' = hw_sent hw @ [(key, payload)]"
  using assms by (cases "all_commands hw") (auto simp: hw_write_def Let_def split: if_splits)

end
