(* ===== verification/Hardware_Props.thy ===== *)
theory Hardware_Props
  imports Hardware_Proofs
begin

text \<open>
  The properties of the hardware component, over all runs of it, and a component for a gripper with a
  buffer and a Zenoh of its own on which they are instantiated.
\<close>

section \<open>A concrete component\<close>

text \<open>A buffer of two vectors that a reader with the lock swaps when the second one is new, parameters of a
  gripper, and a Zenoh that accepts everything, or refuses publishers.\<close>

type_synonym two_slots = "byte list \<times> byte list \<times> bool"

definition two_slot_buffer :: "two_slots rt_buffer" where
  "two_slot_buffer = \<lparr>
     rb_write = (\<lambda>v (rt, _, _). (rt, v, True)),
     rb_read = (\<lambda>l (rt, nrt, new). if l \<and> new then (Some nrt, (nrt, rt, False)) else (Some rt, (rt, nrt, new))) \<rparr>"

definition two_slot_contents :: "two_slots \<Rightarrow> byte list set" where
  "two_slot_contents = (\<lambda>(rt, nrt, new). {rt, nrt})"

definition two_slot_latest :: "two_slots \<Rightarrow> byte list" where
  "two_slot_latest = (\<lambda>(rt, nrt, new). if new then nrt else rt)"

definition two_slot_empty :: two_slots where "two_slot_empty = ([], [], False)"

lemma two_slot_laws: "rt_buffer_laws two_slot_buffer two_slot_empty two_slot_contents two_slot_latest"
  by (auto simp: rt_buffer_laws_def two_slot_buffer_def two_slot_contents_def two_slot_latest_def two_slot_empty_def
      split: if_splits)

definition gripper_params :: "string \<Rightarrow> string option" where
  "gripper_params = [''zenoh_endpoint'' \<mapsto> ''tcp/h:1'', ''state_topic'' \<mapsto> ''st'', ''command_topic'' \<mapsto> ''cmd'',
     ''schema_path'' \<mapsto> ''f'']"

definition gripper_files :: "string \<Rightarrow> string option" where
  "gripper_files = [''f'' \<mapsto> ''gripper'']"

definition open_zenoh :: zenoh_cpp where
  "open_zenoh = \<lparr> zc_insert = \<lambda>_ _ _. True, zc_open = \<lambda>_. True, zc_subscriber = \<lambda>_. True, zc_publisher = \<lambda>_. True,
     zc_put = \<lambda>_. True \<rparr>"

definition gripper_init :: "two_slots hardware" where
  "gripper_init = snd (on_init two_slot_buffer demo_yaml gripper_files True gripper_params (hw_new two_slot_empty))"

definition gripper_active :: "two_slots hardware" where
  "gripper_active = snd (on_activate open_zenoh gripper_init)"

definition gripper_sampled :: "two_slots hardware" where
  "gripper_sampled = on_state_sample two_slot_buffer [0, 0, 128, 63, 7, 0, 0, 0] gripper_active"

lemmas gripper_defs = gripper_sampled_def gripper_active_def gripper_init_def gripper_params_def gripper_files_def
  on_init_def read_parameters_def from_yaml_file_def gripper_schema two_slot_buffer_def two_slot_empty_def hw_new_def
  on_activate_def open_zenoh_def on_state_sample_def

lemma gripper_init_ok:
  "on_init two_slot_buffer demo_yaml gripper_files True gripper_params (hw_new two_slot_empty) = (CB_SUCCESS, gripper_init)"
  by (simp add: gripper_defs)

lemma gripper_schema_of:
  "hw_schema gripper_init = from_yaml demo_yaml ''gripper''" "hw_schema gripper_active = from_yaml demo_yaml ''gripper''"
  "hw_schema gripper_sampled = from_yaml demo_yaml ''gripper''"
  by (simp_all add: gripper_defs)

lemma gripper_reachable:
  "hw_reachable two_slot_buffer demo_yaml gripper_files two_slot_empty [] gripper_init"
  "hw_reachable two_slot_buffer demo_yaml gripper_files two_slot_empty [Ev_Activate open_zenoh] gripper_active"
  "hw_reachable two_slot_buffer demo_yaml gripper_files two_slot_empty
     [Ev_Activate open_zenoh, Ev_Sample [0, 0, 128, 63, 7, 0, 0, 0]] gripper_sampled"
proof -
  show i: "hw_reachable two_slot_buffer demo_yaml gripper_files two_slot_empty [] gripper_init"
    by (rule hw_reachable.start [OF gripper_init_ok])
  have "on_activate open_zenoh gripper_init = (CB_SUCCESS, gripper_active)" by (simp add: gripper_defs)
  from hw_reachable.more [OF i hw_step.activate [OF this]]
  show a: "hw_reachable two_slot_buffer demo_yaml gripper_files two_slot_empty [Ev_Activate open_zenoh] gripper_active" by simp
  have "hw_state_sub gripper_active \<noteq> None" by (simp add: gripper_defs)
  from hw_reachable.more [OF a hw_step.sample [OF this]]
  show "hw_reachable two_slot_buffer demo_yaml gripper_files two_slot_empty
     [Ev_Activate open_zenoh, Ev_Sample [0, 0, 128, 63, 7, 0, 0, 0]] gripper_sampled"
    by (simp add: gripper_sampled_def)
qed

text \<open>The first command of an activated component is zero, which every type of field holds.\<close>

lemma store_zero: "store_value ty 0 = Some (replicate (field_byte_size ty) 0)"
proof -
  have b: "le_bytes n 0 = replicate n 0" for n by (induction n) simp_all
  have z: "f64_to_int lo hi 0 = Some 0" if "lo \<le> 0" "0 \<le> hi" for lo hi
    using that by (simp add: f64_to_int_def f64_mag_def f64_sign_def F64_INF_def fmt_decode_def)
  have "f64_to_f32 0 = 0"
    by (simp add: f64_to_f32_def f64_mag_def f64_sign_def F64_INF_def fmt_decode_def f32_round_def fmt_round_def f32_make_def F32_INF_def)
  then show ?thesis by (cases ty) (simp_all add: z le32_def le64_def le16_def b del: le_bytes.simps)
qed

lemma gripper_commands: "hw_commands gripper_active = [0, 0]" "hw_command_pub gripper_active = Some ''cmd''"
    "hw_command_buffer gripper_active = replicate 8 0"
  by (simp_all add: gripper_defs nan_to_zero_def quiet_NaN_def f64_isnan_def F64_INF_def)

lemma gripper_write: "hw_write open_zenoh gripper_active = Some (True, snd (the (hw_write open_zenoh gripper_active)))"
  by (simp add: hw_write_def gripper_commands gripper_schema_of gripper_schema upt_conv_Cons write_command_field_def
      store_zero mem_write_def open_zenoh_def Let_def)

section \<open>Properties\<close>

lemma hw_write_undefined:
  assumes "hw_inv hw"
  shows "hw_write Z hw = None \<longleftrightarrow> hw_command_pub hw \<noteq> None \<and>
       (\<exists>i < length (sch_command_fields (hw_schema hw)).
          stored_value (ff_type (sch_command_fields (hw_schema hw) ! i)) (hw_commands hw ! i) = None)"
proof -
  have "all_commands hw = None \<longleftrightarrow>
      (\<exists>i < length (sch_command_fields (hw_schema hw)).
          stored_value (ff_type (sch_command_fields (hw_schema hw) ! i)) (hw_commands hw ! i) = None)"
    by (rule write_commands_None) (use assms in \<open>simp_all add: hw_inv_def\<close>)
  then show ?thesis unfolding hw_write_None by blast
qed

text \<open>C28: In every reachable state, \<open>read\<close> never leaves a buffer or a vector, and \<open>write\<close> is defined unless
  the component has a publisher and some command has no value in the type of its field.\<close>

theorem hw_cycle_memory_safe:
  assumes "hw_reachable RB Y read_file b0 es hw"
  shows "hw_read RB l hw \<noteq> None \<and>
    (hw_write Z hw = None \<longleftrightarrow> hw_command_pub hw \<noteq> None \<and>
       (\<exists>i < length (sch_command_fields (hw_schema hw)).
          stored_value (ff_type (sch_command_fields (hw_schema hw) ! i)) (hw_commands hw ! i) = None))"
proof -
  have inv: "hw_inv hw" using hw_reachable_inv [OF assms] by simp
  obtain hw' where r: "hw_read RB l hw = Some hw'" by (rule hw_read_result [OF inv, of RB l])
  then show ?thesis using hw_write_undefined [OF inv] by blast
qed

theorem hw_cycle_memory_safe_witness:
  "hw_read two_slot_buffer True gripper_sampled \<noteq> None \<and>
    (hw_write open_zenoh gripper_sampled = None \<longleftrightarrow> hw_command_pub gripper_sampled \<noteq> None \<and>
       (\<exists>i < length (sch_command_fields (hw_schema gripper_sampled)).
          stored_value (ff_type (sch_command_fields (hw_schema gripper_sampled) ! i)) (hw_commands gripper_sampled ! i) = None))"
  by (rule hw_cycle_memory_safe [OF gripper_reachable(3)])

text \<open>C11: After a read, the state interfaces hold the fields of the newest sample of the right size that the
  subscriber delivered, or of zeros before the first one, if the reader got the buffer's lock; without it
  they are unchanged or hold the fields of an earlier one. Samples of any other size leave no trace.\<close>

theorem hw_read_newest_sample:
  assumes "hw_reachable RB Y read_file b0 es hw" and "rt_buffer_laws RB b0 contents latest"
  defines "samples \<equiv> replicate (sch_state_size (hw_schema hw)) 0 # accepted_samples (sch_state_size (hw_schema hw)) es"
    and "decoded \<equiv> \<lambda>bytes. map (\<lambda>i. the (read_state_field (hw_schema hw) bytes i)) [0..<length (sch_state_fields (hw_schema hw))]"
  shows "\<exists>hw'. hw_read RB l hw = Some hw' \<and>
    (hw_states hw' = hw_states hw \<or> (\<exists>bytes \<in> set samples. hw_states hw' = decoded bytes)) \<and>
    (l \<longrightarrow> hw_states hw' = decoded (last samples))"
proof -
  have inv: "hw_inv hw" using hw_reachable_inv [OF assms(1)] by simp
  note b = hw_reachable_buffer [OF assms(2,1)]
  have sizes: "length bytes = sch_state_size (hw_schema hw)" if "bytes \<in> set samples" for bytes
  proof -
    show ?thesis using that accepted_samples_size by (auto simp: samples_def)
  qed
  have known: "bytes \<in> set samples" if "bytes \<in> contents (hw_state_buffer hw)" "length bytes = sch_state_size (hw_schema hw)" for bytes
  proof (cases "bytes = []")
    case True
    then show ?thesis using that(2) by (simp add: samples_def)
  next
    case False
    have "contents (hw_state_buffer hw) \<subseteq> {[]} \<union> set samples" using b unfolding samples_def by blast
    then show ?thesis using that(1) False by blast
  qed
  have last: "last samples \<in> set samples" unfolding samples_def by (rule last_in_set) simp
  obtain buf b' where rb: "rb_read RB l (hw_state_buffer hw) = (buf, b')"
    and r: "hw_read RB l hw = Some (hw\<lparr> hw_state_buffer := b', hw_states :=
       (case buf of Some bytes \<Rightarrow>
          if length bytes = sch_state_size (hw_schema hw)
          then map (\<lambda>i. the (read_state_field (hw_schema hw) bytes i)) [0..<length (sch_state_fields (hw_schema hw))]
          else hw_states hw
        | None \<Rightarrow> hw_states hw) \<rparr>)" by (rule hw_read_result [OF inv, of RB l])
  have rd: "case buf of None \<Rightarrow> \<not> l | Some v \<Rightarrow> v \<in> contents (hw_state_buffer hw) \<and> (l \<longrightarrow> v = last samples)"
    using rt_buffer_readD [OF assms(2) rb] b unfolding samples_def by (cases buf) simp_all
  show ?thesis
  proof (cases buf)
    case None
    then show ?thesis using rd r by simp
  next
    case (Some bytes)
    then have rd': "bytes \<in> contents (hw_state_buffer hw)" "l \<longrightarrow> bytes = last samples" using rd by simp_all
    show ?thesis
    proof (cases "length bytes = sch_state_size (hw_schema hw)")
      case True
      then show ?thesis using r Some known [OF rd'(1)] rd'(2) unfolding decoded_def by auto
    next
      case False
      then show ?thesis using r Some rd'(2) sizes [OF last] by auto
    qed
  qed
qed

theorem hw_read_newest_sample_witness:
  "\<exists>hw'. hw_read two_slot_buffer True gripper_sampled = Some hw' \<and>
     hw_states hw' = [the (read_state_field (from_yaml demo_yaml ''gripper'') [0, 0, 128, 63, 7, 0, 0, 0] 0),
       the (read_state_field (from_yaml demo_yaml ''gripper'') [0, 0, 128, 63, 7, 0, 0, 0] 1)] \<and>
     hw_states gripper_sampled = [0, 0]"
proof -
  note h = hw_read_newest_sample [OF gripper_reachable(3) two_slot_laws, of True, simplified gripper_schema_of]
  have "accepted_samples (sch_state_size (from_yaml demo_yaml ''gripper'')) [Ev_Activate open_zenoh, Ev_Sample [0, 0, 128, 63, 7, 0, 0, 0]] =
      [[0, 0, 128, 63, 7, 0, 0, 0]]" by (simp add: gripper_schema)
  moreover have "[0..<length (sch_state_fields (from_yaml demo_yaml ''gripper''))] = [0, 1]" by (simp add: gripper_schema)
  moreover have "hw_states gripper_sampled = [0, 0]"
    by (simp add: gripper_defs resize_def nan_to_zero_def numeral_eq_Suc)
  ultimately show ?thesis using h by auto
qed

text \<open>C12: A write puts one payload on the command topic, of the size the schema says, in which every field
  reads back as the command of that field, as far as its type holds it.\<close>

theorem hw_write_publishes_commands:
  assumes "hw_reachable RB Y read_file b0 es hw" and "hw_command_pub hw \<noteq> None"
    and "hw_write Z hw = Some (True, hw')"
  shows "\<exists>payload. hw_sent hw' = hw_sent hw @ [(hw_command_topic hw, payload)] \<and>
    length payload = sch_command_size (hw_schema hw) \<and>
    (\<forall>i < length (sch_command_fields (hw_schema hw)).
       read_command_field (hw_schema hw) payload i =
         stored_value (ff_type (sch_command_fields (hw_schema hw) ! i)) (hw_commands hw ! i))"
proof -
  have inv: "hw_inv hw" using hw_reachable_inv [OF assms(1)] by simp
  have "hw_command_pub hw = Some (hw_command_topic hw)" using hw_reachable_publisher [OF assms(1)] assms(2) by auto
  from hw_write_Some [OF this assms(3)] obtain payload where
    p: "all_commands hw = Some payload" "hw_sent hw' = hw_sent hw @ [(hw_command_topic hw, payload)]" .
  have "length payload = sch_command_size (hw_schema hw) \<and>
    (\<forall>i < length (sch_command_fields (hw_schema hw)).
       read_command_field (hw_schema hw) payload i =
         stored_value (ff_type (sch_command_fields (hw_schema hw) ! i)) (hw_commands hw ! i))"
    using write_commands_Some [OF _ _ _ p(1)] inv by (simp add: hw_inv_def)
  then show ?thesis using p(2) by blast
qed

theorem hw_write_publishes_commands_witness:
  "\<exists>payload. hw_sent (snd (the (hw_write open_zenoh gripper_active))) = hw_sent gripper_active @ [(hw_command_topic gripper_active, payload)] \<and>
    length payload = sch_command_size (hw_schema gripper_active) \<and>
    (\<forall>i < length (sch_command_fields (hw_schema gripper_active)).
       read_command_field (hw_schema gripper_active) payload i =
         stored_value (ff_type (sch_command_fields (hw_schema gripper_active) ! i)) (hw_commands gripper_active ! i))"
proof (rule hw_write_publishes_commands [OF gripper_reachable(2)])
  show "hw_command_pub gripper_active \<noteq> None" by (simp add: gripper_defs)
  show "hw_write open_zenoh gripper_active = Some (True, snd (the (hw_write open_zenoh gripper_active)))"
    using gripper_write by simp
qed

lemma host_payload_members:
  assumes "hw_reachable RB Y read_file b0 es hw" and "hw_command_pub hw \<noteq> None"
    and "hw_write Z hw = Some (True, hw')"
    and "\<forall>f \<in> set (sch_state_fields (hw_schema hw) @ sch_command_fields (hw_schema hw)). single_line f"
    and "write_c_header can_open (hw_schema hw) = (True, Some hdr)"
  shows "\<exists>st cm payload. header_structs hdr = [st, cm] \<and> hw_sent hw' = hw_sent hw @ [(hw_command_topic hw, payload)] \<and>
    length payload = packed_sizeof cm \<and> length cm = length (hw_commands hw) \<and>
    (\<forall>i < length cm. mem_read payload (snd (packed_offsets 0 cm ! i)) (c_sizeof (fst (cm ! i))) =
       store_value (ff_type (sch_command_fields (hw_schema hw) ! i)) (hw_commands hw ! i))"
proof -
  let ?s = "hw_schema hw"
  have inv: "hw_inv hw" using hw_reachable_inv [OF assms(1)] by simp
  have "hw_command_pub hw = Some (hw_command_topic hw)" using hw_reachable_publisher [OF assms(1)] assms(2) by auto
  from hw_write_Some [OF this assms(3)] obtain payload where
    p: "all_commands hw = Some payload" "hw_sent hw' = hw_sent hw @ [(hw_command_topic hw, payload)]" .
  have w: "length payload = sch_command_size ?s"
    "\<And>i. i < length (sch_command_fields ?s) \<Longrightarrow>
       field_bytes ?s payload i = store_value (ff_type (sch_command_fields ?s ! i)) (hw_commands hw ! i)"
    using write_commands_Some [OF _ _ _ p(1)] inv by (simp_all add: hw_inv_def)
  have "hdr = c_header ?s" using assms(5) by (simp add: write_c_header_def split: if_splits)
  moreover have "split_lines (c_header ?s) = header_lines ?s" using assms(4) by (intro split_c_header) auto
  ultimately have h: "header_structs hdr = [members (sch_state_fields ?s), members (sch_command_fields ?s)]"
    by (simp only: header_structs_def read_structs_header)
  have "packed 0 (sch_command_fields ?s) (sch_command_size ?s)" using inv by (simp add: hw_inv_def layout_wf_def)
  from packed_members [OF this] have c:
    "packed_offsets 0 (members (sch_command_fields ?s)) = map (\<lambda>f. (member_name f, ff_offset f)) (sch_command_fields ?s)"
    "packed_sizeof (members (sch_command_fields ?s)) = sch_command_size ?s" by simp_all
  have "mem_read payload (snd (packed_offsets 0 (members (sch_command_fields ?s)) ! i))
      (c_sizeof (fst (members (sch_command_fields ?s) ! i))) =
      store_value (ff_type (sch_command_fields ?s ! i)) (hw_commands hw ! i)"
    if "i < length (members (sch_command_fields ?s))" for i
    using that w(2) [of i] unfolding c by (simp add: members_def field_bytes_def Let_def)
  moreover have "length (members (sch_command_fields ?s)) = length (hw_commands hw)" using inv by (simp add: members_def hw_inv_def)
  ultimately show ?thesis using h p(2) w(1) c(2) by metis
qed

text \<open>Host and firmware agree on the bytes of a command: in the payload that a write publishes, the
  member that the generated header gives to a field, at its offset in the packed struct and with the size
  of its C type, holds that field's command in that type, and the payload is exactly as long as the
  struct.\<close>

theorem host_and_firmware_agree:
  assumes "hw_reachable RB Y read_file b0 es hw" and "hw_command_pub hw \<noteq> None"
    and "hw_write Z hw = Some (True, hw')"
    and "\<forall>f \<in> set (sch_state_fields (hw_schema hw) @ sch_command_fields (hw_schema hw)). single_line f"
    and "write_c_header can_open (hw_schema hw) = (True, Some hdr)"
  shows "\<exists>st cm payload. header_structs hdr = [st, cm] \<and> hw_sent hw' = hw_sent hw @ [(hw_command_topic hw, payload)] \<and>
    length payload = packed_sizeof cm \<and> length cm = length (hw_commands hw) \<and>
    (\<forall>i < length cm. mem_read payload (snd (packed_offsets 0 cm ! i)) (c_sizeof (fst (cm ! i))) =
       store_value (ff_type (sch_command_fields (hw_schema hw) ! i)) (hw_commands hw ! i))"
  using assms by (rule host_payload_members)

theorem host_and_firmware_agree_witness:
  "\<exists>st cm payload. header_structs (c_header (hw_schema gripper_active)) = [st, cm] \<and>
    hw_sent (snd (the (hw_write open_zenoh gripper_active))) = hw_sent gripper_active @ [(hw_command_topic gripper_active, payload)] \<and>
    length payload = packed_sizeof cm \<and> length cm = length (hw_commands gripper_active) \<and>
    (\<forall>i < length cm. mem_read payload (snd (packed_offsets 0 cm ! i)) (c_sizeof (fst (cm ! i))) =
       store_value (ff_type (sch_command_fields (hw_schema gripper_active) ! i)) (hw_commands gripper_active ! i))"
proof (rule host_and_firmware_agree [OF gripper_reachable(2) _ gripper_write])
  show "hw_command_pub gripper_active \<noteq> None" by (simp add: gripper_commands)
  show "\<forall>f \<in> set (sch_state_fields (hw_schema gripper_active) @ sch_command_fields (hw_schema gripper_active)). single_line f"
    by (simp add: gripper_schema_of gripper_schema single_line_def)
  show "write_c_header True (hw_schema gripper_active) = (True, Some (c_header (hw_schema gripper_active)))"
    by (simp add: gripper_schema_of gripper_schema write_c_header_def)
qed

text \<open>A command leaves the host only while the component is active: whatever happened before, a write
  that sends anything was preceded by an activation that declared the publisher on the command topic,
  with no deactivation in between.\<close>

theorem hw_sends_only_when_active:
  assumes "hw_reachable RB Y read_file b0 es hw" and "hw_write Z hw = Some (r, hw')"
    and "hw_sent hw' \<noteq> hw_sent hw"
  shows "\<exists>es1 A es2. es = es1 @ Ev_Activate A # es2 \<and> zc_publisher A (hw_command_topic hw) \<and> Ev_Deactivate \<notin> set es2"
proof (cases "hw_command_pub hw")
  case None
  then have "hw' = hw" using assms(2) by (simp add: hw_write_def)
  then show ?thesis using assms(3) by simp
next
  case (Some key)
  then show ?thesis using hw_reachable_publisher [OF assms(1)] by auto
qed

theorem hw_sends_only_when_active_witness:
  "\<exists>es1 A es2. [Ev_Activate open_zenoh] = es1 @ Ev_Activate A # es2 \<and> zc_publisher A (hw_command_topic gripper_active) \<and>
    Ev_Deactivate \<notin> set es2"
proof (rule hw_sends_only_when_active [OF gripper_reachable(2) gripper_write])
  obtain payload where "hw_sent (snd (the (hw_write open_zenoh gripper_active))) = hw_sent gripper_active @ [(''cmd'', payload)]"
    using hw_write_Some [OF gripper_commands(2) gripper_write] by blast
  then show "hw_sent (snd (the (hw_write open_zenoh gripper_active))) \<noteq> hw_sent gripper_active" by simp
qed

lemma nan_to_zero_not_nan: "\<not> f64_isnan (nan_to_zero v)"
  by (simp add: nan_to_zero_def f64_isnan_def f64_mag_def F64_INF_def)

text \<open>Activation succeeds exactly when Zenoh accepts both settings, the session, the subscriber and the
  publisher; then no state or command is a NaN any more and the others are what they were, and the first
  write of a component that was just initialised sends zeros.\<close>

theorem hw_activation:
  assumes "on_activate Z hw = (r, hw')"
  defines "endpoints \<equiv> ''['' @ json_string (hw_zenoh_endpoint hw) @ '']''"
    and "mode \<equiv> json_string (hw_zenoh_mode hw)"
  shows "(r = CB_SUCCESS \<longleftrightarrow>
      zc_insert Z [] ''connect/endpoints'' endpoints \<and> zc_insert Z [(''connect/endpoints'', endpoints)] ''mode'' mode \<and>
      zc_open Z [(''connect/endpoints'', endpoints), (''mode'', mode)] \<and>
      zc_subscriber Z (hw_state_topic hw) \<and> zc_publisher Z (hw_command_topic hw)) \<and>
    (r = CB_SUCCESS \<longrightarrow>
      hw_session hw' = Some [(''connect/endpoints'', endpoints), (''mode'', mode)] \<and>
      hw_state_sub hw' = Some (hw_state_topic hw) \<and> hw_command_pub hw' = Some (hw_command_topic hw) \<and>
      list_all (\<lambda>v. \<not> f64_isnan v) (hw_states hw' @ hw_commands hw') \<and>
      list_all2 (\<lambda>v w. w = (if f64_isnan v then 0 else v)) (hw_states hw @ hw_commands hw) (hw_states hw' @ hw_commands hw')) \<and>
    (r = CB_ERROR \<longrightarrow> hw_command_pub hw' = hw_command_pub hw \<and> hw_states hw' = hw_states hw \<and> hw_commands hw' = hw_commands hw)"
proof -
  have a2: "list_all2 (\<lambda>v w. w = (if f64_isnan v then 0 else v)) vs (map nan_to_zero vs)" for vs
    by (simp add: list_all2_map2 nan_to_zero_def list.rel_refl)
  have na: "list_all (\<lambda>v. \<not> f64_isnan v) (map nan_to_zero vs)" for vs
    by (simp add: list_all_iff nan_to_zero_not_nan)
  show ?thesis
    using assms(1) a2 [of "hw_states hw @ hw_commands hw"] na [of "hw_states hw @ hw_commands hw"] unfolding endpoints_def mode_def
    by (auto simp: on_activate_def Let_def split: if_splits)
qed

theorem hw_activation_witness:
  "on_activate open_zenoh gripper_init = (CB_SUCCESS, gripper_active) \<and> hw_command_pub gripper_active = Some ''cmd'' \<and>
   list_all (\<lambda>v. \<not> f64_isnan v) (hw_states gripper_active @ hw_commands gripper_active)"
proof -
  have a: "on_activate open_zenoh gripper_init = (CB_SUCCESS, gripper_active)" "hw_command_topic gripper_init = ''cmd''"
    by (simp_all add: gripper_defs)
  from hw_activation [OF a(1)] a show ?thesis by simp
qed

lemma field_bytes_zero_cover:
  assumes "packed 0 (sch_command_fields s) (length buf)"
    and "\<And>i. i < length (sch_command_fields s) \<Longrightarrow>
      field_bytes s buf i = Some (replicate (field_byte_size (ff_type (sch_command_fields s ! i))) 0)"
  shows "buf = replicate (length buf) 0"
proof -
  have cover: "packed off fs n \<Longrightarrow> off \<le> k \<Longrightarrow> k < n \<Longrightarrow>
      \<exists>i < length fs. ff_offset (fs ! i) \<le> k \<and> k < field_end (fs ! i)" for off fs n k
  proof (induction off fs n rule: packed.induct)
    case (2 off f fs n)
    show ?case
    proof (cases "k < field_end f")
      case True
      then show ?thesis using 2(2,3) by (intro exI [of _ 0]) simp
    next
      case False
      then obtain i where "i < length fs" "ff_offset (fs ! i) \<le> k" "k < field_end (fs ! i)" using 2 by auto
      then show ?thesis by (intro exI [of _ "Suc i"]) simp
    qed
  qed simp
  have "buf ! k = 0" if k: "k < length buf" for k
  proof -
    obtain i where i: "i < length (sch_command_fields s)" "ff_offset (sch_command_fields s ! i) \<le> k"
        "k < field_end (sch_command_fields s ! i)" using cover [OF assms(1) le0 k] by auto
    let ?f = "sch_command_fields s ! i"
    have "take (field_byte_size (ff_type ?f)) (drop (ff_offset ?f) buf) = replicate (field_byte_size (ff_type ?f)) 0"
      using assms(2) [OF i(1)] i(1) by (simp add: field_bytes_def mem_read_def Let_def split: if_splits)
    then have "take (field_byte_size (ff_type ?f)) (drop (ff_offset ?f) buf) ! (k - ff_offset ?f) = 0"
      using i by (simp add: field_end_def)
    then show ?thesis using i k by (simp add: field_end_def)
  qed
  then show ?thesis by (intro nth_equalityI) simp_all
qed

text \<open>The first write after initialisation and activation is defined, whatever the schema, and sends a
  payload of zeros.\<close>

theorem hw_first_command_zero:
  assumes "on_init RB Y read_file True params (hw_new b0) = (CB_SUCCESS, hw)"
    and "on_activate A hw = (CB_SUCCESS, hw')" and "\<And>payload. zc_put Z payload"
  shows "\<exists>hw''. hw_write Z hw' = Some (True, hw'') \<and>
    hw_sent hw'' = [(hw_command_topic hw, replicate (sch_command_size (hw_schema hw)) 0)]"
proof -
  let ?s = "hw_schema hw"
  have reach: "hw_reachable RB Y read_file b0 [Ev_Activate A] hw'"
    using hw_reachable.more [OF hw_reachable.start [OF assms(1)] hw_step.activate [OF assms(2)]] by simp
  have inv: "hw_inv hw'" using hw_reachable_inv [OF reach] by simp
  note fr = on_activate_frame [OF assms(2)]
  have cmds: "hw_commands hw' = replicate (length (sch_command_fields ?s)) 0"
    using assms(1)
  proof (rule on_init_success)
    assume "hw_commands hw = replicate (length (sch_command_fields ?s)) quiet_NaN"
    then show ?thesis using assms(2)
      by (auto simp: on_activate_def Let_def nan_to_zero_def quiet_NaN_def f64_isnan_def F64_INF_def split: if_splits)
  qed
  have pub: "hw_command_pub hw' = Some (hw_command_topic hw)" using on_activate_publisher [OF assms(2)] by auto
  have sent: "hw_sent hw' = []" using fr assms(1) by (metis on_init_success)
  have "stored_value ty 0 \<noteq> None" for ty by (simp add: stored_value_None store_zero)
  then have "hw_write Z hw' \<noteq> None"
    using hw_write_undefined [OF inv, of Z] fr cmds by auto
  then obtain r hw'' where w: "hw_write Z hw' = Some (r, hw'')" by auto
  have "r" using w pub assms(3) by (cases "all_commands hw'") (auto simp: hw_write_def Let_def)
  with w have w: "hw_write Z hw' = Some (True, hw'')" by simp
  from hw_write_Some [OF pub w] obtain payload where
    p: "all_commands hw' = Some payload" "hw_sent hw'' = [(hw_command_topic hw, payload)]" using sent by auto
  have l: "length payload = sch_command_size ?s"
    "\<And>i. i < length (sch_command_fields ?s) \<Longrightarrow>
       field_bytes ?s payload i = Some (replicate (field_byte_size (ff_type (sch_command_fields ?s ! i))) 0)"
    using write_commands_Some [OF _ _ _ p(1)] inv fr cmds by (simp_all add: hw_inv_def store_zero)
  have "packed 0 (sch_command_fields ?s) (length payload)" using inv fr l(1) by (simp add: hw_inv_def layout_wf_def)
  from field_bytes_zero_cover [OF this l(2)] show ?thesis using w p(2) l(1) by auto
qed

theorem hw_first_command_zero_witness:
  "\<exists>hw''. hw_write open_zenoh gripper_active = Some (True, hw'') \<and>
    hw_sent hw'' = [(hw_command_topic gripper_init, replicate (sch_command_size (hw_schema gripper_init)) 0)]"
  by (rule hw_first_command_zero [OF gripper_init_ok, of open_zenoh]) (simp_all add: gripper_defs)

text \<open>An activation that fails at the publisher reports an error and leaves the session open and the
  subscriber feeding the state buffer.\<close>

lemma failed_activation_keeps_subscriber:
  assumes "on_activate Z hw = (CB_ERROR, hw')" and "zc_open Z [(''connect/endpoints'', ''['' @ json_string (hw_zenoh_endpoint hw) @ '']''), (''mode'', json_string (hw_zenoh_mode hw))]"
    and "zc_insert Z [] ''connect/endpoints'' (''['' @ json_string (hw_zenoh_endpoint hw) @ '']'')"
    and "zc_insert Z [(''connect/endpoints'', ''['' @ json_string (hw_zenoh_endpoint hw) @ '']'')] ''mode'' (json_string (hw_zenoh_mode hw))"
    and "zc_subscriber Z (hw_state_topic hw)"
  shows "hw_session hw' \<noteq> None \<and> hw_state_sub hw' = Some (hw_state_topic hw)"
  using assms by (auto simp: on_activate_def Let_def split: if_splits)

end
