(* ===== verification/Closed_Loop.thy ===== *)
theory Closed_Loop
  imports Hardware_Props Demo_Apps_Props
begin

text \<open>
  Host and firmware together, in Tier 2: the component of \<open>zenbedded_hardware.cpp\<close>, the structs that
  \<open>interface_schema.cpp\<close> generates from the schema file, and the client of \<open>zenbedded_client.cpp\<close> built with those
  structs. The network is only assumed to bring a payload over; the topics of both sides are configuration.
\<close>

section \<open>The structs of a schema\<close>

lemma header_members:
  assumes wf: "layout_wf s" and lines: "\<forall>f \<in> set (sch_state_fields s @ sch_command_fields s). single_line f"
    and h: "write_c_header can_open s = (True, Some hdr)"
  shows "header_structs hdr = [members (sch_state_fields s), members (sch_command_fields s)] \<and>
    packed_offsets 0 (members (sch_state_fields s)) = map (\<lambda>f. (member_name f, ff_offset f)) (sch_state_fields s) \<and>
    packed_sizeof (members (sch_state_fields s)) = sch_state_size s \<and>
    packed_sizeof (members (sch_command_fields s)) = sch_command_size s"
proof -
  have "hdr = c_header s" using h by (simp add: write_c_header_def split: if_splits)
  moreover have "split_lines (c_header s) = header_lines s" using lines by (intro split_c_header) auto
  ultimately have "header_structs hdr = [members (sch_state_fields s), members (sch_command_fields s)]"
    by (simp only: header_structs_def read_structs_header)
  moreover have p: "packed 0 (sch_state_fields s) (sch_state_size s)" "packed 0 (sch_command_fields s) (sch_command_size s)"
    using wf by (simp_all add: layout_wf_def)
  ultimately show ?thesis using packed_members [OF p(1)] packed_members [OF p(2)] by simp
qed

text \<open>The client built with the structs \<open>st\<close> and \<open>cm\<close>, after the operations \<open>ops\<close> that followed its start.\<close>

definition firmware_up ::
    "client_config \<Rightarrow> client_env \<Rightarrow> byte list client_op list \<Rightarrow> size_t \<Rightarrow> size_t \<Rightarrow> raw_client \<times> ctransport \<Rightarrow> bool" where
  "firmware_up kc env ops sz_state sz_cmd s \<longleftrightarrow>
     unat sz_state \<le> kc_max_state kc \<and> unat sz_cmd \<le> kc_max_cmd kc \<and> kc_max_cmd kc < 2 ^ 32 \<and>
     (\<forall>v \<in> set (written ops). length v = unat sz_state) \<and>
     (\<exists>cl t f scratch cl1 t1. transport_reachable (kc_transport kc) (ce_zenoh env) t \<and> \<not> cl_initialized cl \<and>
        length scratch = kc_max_cmd kc \<and>
        client_init (RawCodec_state sz_state) (RawCodec_command sz_cmd) kc env f () () scratch cl t = Some (0, cl1, t1) \<and>
        perform_all (RawCodec_state sz_state) kc env ops (cl1, t1) = Some s)"

lemma firmware_upD:
  assumes "firmware_up kc env ops sz_state sz_cmd s"
  shows "raw_client.up sz_state sz_cmd kc () () ops s \<and> kc_max_cmd kc < 2 ^ 32"
proof -
  obtain cl t f scratch cl1 t1 where c: "transport_reachable (kc_transport kc) (ce_zenoh env) t" "\<not> cl_initialized cl"
      "length scratch = kc_max_cmd kc"
      "client_init (RawCodec_state sz_state) (RawCodec_command sz_cmd) kc env f () () scratch cl t = Some (0, cl1, t1)"
      "perform_all (RawCodec_state sz_state) kc env ops (cl1, t1) = Some s"
    using assms by (auto simp: firmware_up_def)
  have f: "raw_fits sz_state () (kc_max_state kc)" "raw_fits sz_cmd () (kc_max_cmd kc)"
    using assms by (simp_all add: firmware_up_def raw_fits_def)
  have "\<forall>v \<in> set (written ops). raw_object sz_state () v" using assms by (simp add: firmware_up_def raw_object_def)
  from raw_client.up_perform_all [OF raw_client.up_init [OF f c(3,2) transport_reachable_inv [OF c(1)] c(4) client_init_zero [OF c(4)]] this c(5)]
  show ?thesis using assms by (simp add: firmware_up_def)
qed

section \<open>Commands\<close>

lemma raw_receive_read:
  assumes u: "raw_client.up n m kc () () ops (cl, t)" and k: "kc_max_cmd kc < 2 ^ 32"
    and bs: "length bs = unat m" "deliverable (cfg_tier (kc_transport kc)) (unat m)" and out: "length out = unat m"
  shows "\<exists>cl'. client_receive kc bs cl t = Some cl' \<and> read_command (RawCodec_command m) kc out cl' = Some (True, bs)"
proof -
  have sz: "unat (cc_payload_size (RawCodec_command m) ()) = unat m" by (simp add: RawCodec_command_def)
  obtain cl' where p: "perform (RawCodec_state n) kc env (Op_Receive bs) (cl, t) = Some (cl', t)" for env
    using raw_client.perform_defined [OF u, of "Op_Receive bs"] by (auto simp: bind_eq_Some_conv)
  have u': "raw_client.up n m kc () () (ops @ [Op_Receive bs]) (cl', t)"
    using raw_client.up_perform [OF u _ p] by simp
  have a: "accepted (cfg_tier (kc_transport kc)) (unat m) (ops @ [Op_Receive bs]) \<noteq> []"
      "last (accepted (cfg_tier (kc_transport kc)) (unat m) (ops @ [Op_Receive bs])) = bs" using bs by simp_all
  have o: "raw_object m () out" "raw_encodes m () bs bs" using out bs(1) by (simp_all add: raw_object_def raw_encodes_def)
  have "read_command (RawCodec_command m) kc out cl' = Some (True, bs)"
    using raw_client.read_command_up [OF u' k o(1), unfolded sz, OF a(1)] a(2) o(2) by simp
  moreover have "client_receive kc bs cl t = Some cl'" using p by (auto simp: bind_eq_Some_conv)
  ultimately show ?thesis by blast
qed

text \<open>C9: Host to firmware: the payload of a write, once it arrives, is what the firmware reads as its command struct, and
  every member of that struct, at the offset and with the size that its compiler gives it, holds the command of the
  field in the type of the field.\<close>

theorem command_reaches_firmware:
  assumes "hw_reachable RB Y read_file b0 es hw" and "hw_command_pub hw \<noteq> None" and "hw_write Z hw = Some (True, hw')"
    and "\<forall>f \<in> set (sch_state_fields (hw_schema hw) @ sch_command_fields (hw_schema hw)). single_line f"
    and "write_c_header can_open (hw_schema hw) = (True, Some hdr)" and "header_structs hdr = [st, cm]"
    and "firmware_up kc env ops sz_state sz_cmd (cl, t)" and "unat sz_cmd = packed_sizeof cm"
    and "deliverable (cfg_tier (kc_transport kc)) (unat sz_cmd)" and "length out = unat sz_cmd"
  shows "\<exists>cl' object. client_receive kc (snd (last (hw_sent hw'))) cl t = Some cl' \<and>
    read_command (RawCodec_command sz_cmd) kc out cl' = Some (True, object) \<and> length cm = length (hw_commands hw) \<and>
    (\<forall>i < length cm. mem_read object (snd (packed_offsets 0 cm ! i)) (c_sizeof (fst (cm ! i))) =
       store_value (ff_type (sch_command_fields (hw_schema hw) ! i)) (hw_commands hw ! i))"
proof -
  obtain payload where p: "hw_sent hw' = hw_sent hw @ [(hw_command_topic hw, payload)]" "length payload = packed_sizeof cm"
      "length cm = length (hw_commands hw)"
      "\<forall>i < length cm. mem_read payload (snd (packed_offsets 0 cm ! i)) (c_sizeof (fst (cm ! i))) =
         store_value (ff_type (sch_command_fields (hw_schema hw) ! i)) (hw_commands hw ! i)"
    using host_payload_members [OF assms(1-5)] assms(6) by auto
  note u = firmware_upD [OF assms(7)]
  have l: "length payload = unat sz_cmd" using p(2) assms(8) by simp
  obtain cl' where "client_receive kc payload cl t = Some cl'" "read_command (RawCodec_command sz_cmd) kc out cl' = Some (True, payload)"
    using raw_receive_read [OF u [THEN conjunct1] u [THEN conjunct2] l assms(9,10)] by blast
  then show ?thesis using p by auto
qed

section \<open>States\<close>

text \<open>C10: Firmware to host: what the firmware publishes next is the state struct it wrote last; once that payload arrives at an
  active host, a cycle that gets the buffer's lock shows in every state interface the member of that struct, read in
  the type of the field.\<close>

theorem state_reaches_host:
  assumes "hw_reachable RB Y read_file b0 es hw" and "rt_buffer_laws RB b0 contents newest" and "hw_state_sub hw \<noteq> None"
    and "\<forall>f \<in> set (sch_state_fields (hw_schema hw) @ sch_command_fields (hw_schema hw)). single_line f"
    and "write_c_header can_open (hw_schema hw) = (True, Some hdr)" and "header_structs hdr = [st, cm]"
    and "firmware_up kc env ops sz_state sz_cmd (cl, t)" and "unat sz_state = packed_sizeof st"
    and "written ops \<noteq> []"
  shows "zenoh_publish_state kc env cl t =
      zenbedded_transport_publish (kc_transport kc) (ce_zenoh env) (cl_pub cl) (last (written ops)) t \<and>
    (\<exists>hw'. hw_read RB True (on_state_sample RB (last (written ops)) hw) = Some hw' \<and> length (hw_states hw') = length st \<and>
      (\<forall>i < length st. Some (hw_states hw' ! i) =
         map_option (load_value (ff_type (sch_state_fields (hw_schema hw) ! i)))
           (mem_read (last (written ops)) (snd (packed_offsets 0 st ! i)) (c_sizeof (fst (st ! i))))))"
proof -
  let ?s = "hw_schema hw" and ?v = "last (written ops)"
  have inv: "hw_inv hw" using hw_reachable_inv [OF assms(1)] by simp
  then have wf: "layout_wf ?s" by (simp add: hw_inv_def)
  have st: "st = members (sch_state_fields ?s)" "packed_sizeof st = sch_state_size ?s"
      "packed_offsets 0 st = map (\<lambda>f. (member_name f, ff_offset f)) (sch_state_fields ?s)"
    using header_members [OF wf assms(4,5)] assms(6) by auto
  note u = firmware_upD [OF assms(7)]
  have v: "length ?v = sch_state_size ?s" using assms(7-9) st(2) by (auto simp: firmware_up_def)
  let ?hw = "on_state_sample RB ?v hw"
  have r: "hw_reachable RB Y read_file b0 (es @ [Ev_Sample ?v]) ?hw"
    by (rule hw_reachable.more [OF assms(1) hw_step.sample [OF assms(3)]])
  have sch: "hw_schema ?hw = ?s" by (simp add: on_state_sample_def)
  have inv': "hw_inv ?hw" using hw_reachable_inv [OF r] by simp
  have newest: "newest (hw_state_buffer ?hw) = ?v"
    using hw_reachable_buffer [OF assms(2) r] v by (simp add: sch)
  obtain buf b' where rb: "rb_read RB True (hw_state_buffer ?hw) = (buf, b')"
    and h: "hw_read RB True ?hw = Some (?hw\<lparr> hw_state_buffer := b', hw_states :=
       (case buf of Some bytes \<Rightarrow>
          if length bytes = sch_state_size (hw_schema ?hw)
          then map (\<lambda>i. the (read_state_field (hw_schema ?hw) bytes i)) [0..<length (sch_state_fields (hw_schema ?hw))]
          else hw_states ?hw
        | None \<Rightarrow> hw_states ?hw) \<rparr>)" by (rule hw_read_result [OF inv', of RB True])
  have "buf = Some ?v" using rt_buffer_readD [OF assms(2) rb] newest by (cases buf) simp_all
  with h v obtain hw2 where h2: "hw_read RB True ?hw = Some hw2"
      "hw_states hw2 = map (\<lambda>i. the (read_state_field ?s ?v i)) [0..<length (sch_state_fields ?s)]"
    by (simp add: sch)
  have b: "read_state_field ?s ?v i \<noteq> None" for i
    using read_field_in_bounds [of "sch_state_fields ?s" ?v i] wf v by (simp add: read_state_field_def layout_wf_def)
  have "Some (hw_states hw2 ! i) = map_option (load_value (ff_type (sch_state_fields ?s ! i)))
      (mem_read ?v (snd (packed_offsets 0 st ! i)) (c_sizeof (fst (st ! i))))" if "i < length st" for i
    using that b [of i] unfolding st(3) by (simp add: h2(2) st(1) members_def read_state_field_def read_field_def Let_def)
  then show ?thesis
    using h2 raw_client.publish_up [OF u [THEN conjunct1] assms(9), of env] st(1) by (auto simp: members_def)
qed

section \<open>A host that is deactivated\<close>

inductive hw_steps :: "'b rt_buffer \<Rightarrow> 'b hardware \<Rightarrow> hw_event list \<Rightarrow> 'b hardware \<Rightarrow> bool" for RB where
  steps_none: "hw_steps RB hw [] hw"
| steps_more: "hw_step RB hw e hw1 \<Longrightarrow> hw_steps RB hw1 es hw2 \<Longrightarrow> hw_steps RB hw (e # es) hw2"

inductive_cases hw_steps_cases: "hw_steps RB hw (e # es) hw'"

definition silent :: "hw_event \<Rightarrow> bool" where
  "silent e \<longleftrightarrow> (case e of Ev_Activate Z \<Rightarrow> False | _ \<Rightarrow> True)"

lemma silent_step:
  "hw_step RB hw e hw' \<Longrightarrow> silent e \<Longrightarrow> hw_command_pub hw = None \<Longrightarrow> hw_command_pub hw' = None \<and> hw_sent hw' = hw_sent hw"
proof (induction rule: hw_step.induct)
  case (cycle_read l hw hw')
  then show ?case by (auto simp: hw_read_def Let_def split: prod.splits option.splits if_splits)
qed (auto simp: silent_def on_deactivate_def hw_write_def on_state_sample_def)

lemma silent_steps:
  "hw_steps RB hw es hw' \<Longrightarrow> list_all silent es \<Longrightarrow> hw_command_pub hw = None \<Longrightarrow> hw_sent hw' = hw_sent hw"
proof (induction rule: hw_steps.induct)
  case (steps_more hw e hw1 es hw2)
  then show ?case using silent_step [OF steps_more.hyps(1)] by simp
qed simp

text \<open>The payloads that the host put between two of its states.\<close>

definition sent_between :: "'b hardware \<Rightarrow> 'b hardware \<Rightarrow> byte list set" where
  "sent_between hw hw' = set (map snd (drop (length (hw_sent hw)) (hw_sent hw')))"

text \<open>C32: A controller manager that deactivates the host's component stops the motor: if the pendulum's firmware receives
  payloads of a command's size only from the host, and none that was sent before the deactivation, then whatever the host's component still goes through short of an
  activation, after 21 cycles of the firmware at the latest the velocity is zero and the stepper has been told to stop.\<close>

theorem deactivated_host_stops_motor:
  assumes "hw_steps RB hw (Ev_Deactivate # es) hw'" and "list_all silent es"
    and "tier2_run res drv kc env xs (rg, cl, t) = Some (rg', cl', t')"
    and "\<forall>(ops, io) \<in> set xs. \<forall>bs. Op_Receive bs \<in> set ops \<longrightarrow>
      length bs \<noteq> unat (cl_cmd_payload_size cl) \<or> bs \<in> sent_between hw hw'"
    and "rg_last_count rg = cl_cmd_accepted cl" and "unat (rg_cycles rg) \<le> 20" and "21 \<le> length xs"
  shows "hw_sent hw' = hw_sent hw \<and> f64_eq (rg_velocity rg') 0 \<and> last (rg_motor rg') = Motor_Stop"
proof -
  obtain hw1 where h: "hw_step RB hw Ev_Deactivate hw1" "hw_steps RB hw1 es hw'" using assms(1) by (rule hw_steps_cases)
  then have "hw_command_pub hw1 = None" "hw_sent hw1 = hw_sent hw" by (auto simp: on_deactivate_def)
  with silent_steps [OF h(2) assms(2)] have s: "hw_sent hw' = hw_sent hw" by simp
  then have none: "sent_between hw hw' = {}" by (simp add: sent_between_def)
  have "\<forall>(ops, io) \<in> set xs. list_all (no_command (unat (cl_cmd_payload_size cl))) ops"
    using assms(4) unfolding none by (fastforce simp: list_all_iff no_command_def split: client_op.splits)
  moreover have "starved rg 0 rg" using assms(6) by (simp add: starved_def)
  ultimately have "starved rg (0 + length xs) rg'"
    using run_rounds_starved [OF assms(3) [unfolded tier2_run_def tier2_cycle_def]] assms(5,6) by blast
  then show ?thesis using s assms(7) by (auto simp: starved_def)
qed

section \<open>Witnesses\<close>

lemma gripper_header:
  "\<forall>f \<in> set (sch_state_fields (hw_schema gripper_active) @ sch_command_fields (hw_schema gripper_active)). single_line f"
  "write_c_header True (hw_schema gripper_active) = (True, Some (c_header (hw_schema gripper_active)))"
  "header_structs (c_header (hw_schema gripper_active)) =
     [members (sch_state_fields (hw_schema gripper_active)), members (sch_command_fields (hw_schema gripper_active))]"
  "packed_sizeof (members (sch_state_fields (hw_schema gripper_active))) = 8"
  "packed_sizeof (members (sch_command_fields (hw_schema gripper_active))) = 8"
proof -
  show l: "\<forall>f \<in> set (sch_state_fields (hw_schema gripper_active) @ sch_command_fields (hw_schema gripper_active)). single_line f"
    by (simp add: gripper_schema_of gripper_schema single_line_def)
  show h: "write_c_header True (hw_schema gripper_active) = (True, Some (c_header (hw_schema gripper_active)))"
    by (simp add: gripper_schema_of gripper_schema write_c_header_def)
  have "layout_wf (hw_schema gripper_active)" by (simp add: gripper_schema_of)
  note m = header_members [OF this l h]
  have "sch_state_size (hw_schema gripper_active) = 8" "sch_command_size (hw_schema gripper_active) = 8"
    by (simp_all add: gripper_schema_of gripper_schema)
  with m show "header_structs (c_header (hw_schema gripper_active)) =
     [members (sch_state_fields (hw_schema gripper_active)), members (sch_command_fields (hw_schema gripper_active))]"
    "packed_sizeof (members (sch_state_fields (hw_schema gripper_active))) = 8"
    "packed_sizeof (members (sch_command_fields (hw_schema gripper_active))) = 8" by simp_all
qed

lemma demo_firmware:
  assumes "\<forall>v \<in> set (written ops). length v = 8" and "Op_Publish \<notin> set ops"
  shows "\<exists>cl t. firmware_up (demo_kc tier2_cfg) demo_env ops 8 8 (cl, t)"
proof -
  obtain cl1 t1 where i: "client_init (RawCodec_state 8) (RawCodec_command 8) (demo_kc tier2_cfg) demo_env 500 () () (replicate 256 0)
       demo_raw_client transport_static = Some (0, cl1, t1)" "cl_initialized cl1"
    and u: "raw_client.up 8 8 (demo_kc tier2_cfg) () () [] (cl1, t1)" by (rule demo_raw_init [of 8 8]) simp_all
  obtain cl2 where p: "perform_all (RawCodec_state 8) (demo_kc tier2_cfg) demo_env ops (cl1, t1) = Some (cl2, t1)"
    using raw_client.perform_all_defined [OF u _ assms(2)] assms(1) by (auto simp: raw_object_def)
  have r: "transport_reachable (kc_transport (demo_kc tier2_cfg)) (ce_zenoh demo_env) (transport_static :: ctransport)"
    by (rule reach_static)
  have "firmware_up (demo_kc tier2_cfg) demo_env ops 8 8 (cl2, t1)"
    unfolding firmware_up_def
    by (intro conjI exI [of _ demo_raw_client] exI [of _ transport_static] exI [of _ "500 :: u32"] exI [of _ "replicate 256 0"]
        exI [of _ cl1] exI [of _ t1])
      (use assms r i(1) p in \<open>simp_all add: demo_raw_fresh\<close>)
  then show ?thesis by blast
qed

theorem command_reaches_firmware_witness:
  "\<exists>cl t cl' object. firmware_up (demo_kc tier2_cfg) demo_env [] 8 8 (cl, t) \<and>
    client_receive (demo_kc tier2_cfg) (snd (last (hw_sent (snd (the (hw_write open_zenoh gripper_active)))))) cl t = Some cl' \<and>
    read_command (RawCodec_command 8) (demo_kc tier2_cfg) (replicate 8 9) cl' = Some (True, object) \<and>
    mem_read object (snd (packed_offsets 0 (members (sch_command_fields (hw_schema gripper_active))) ! 1))
      (c_sizeof (fst (members (sch_command_fields (hw_schema gripper_active)) ! 1))) =
      store_value (ff_type (sch_command_fields (hw_schema gripper_active) ! 1)) 0"
proof -
  obtain cl t where f: "firmware_up (demo_kc tier2_cfg) demo_env [] 8 8 (cl, t)" using demo_firmware [of "[]"] by auto
  have c: "hw_command_pub gripper_active \<noteq> None" "hw_commands gripper_active = [0, 0]" by (simp_all add: gripper_commands)
  let ?cm = "members (sch_command_fields (hw_schema gripper_active))"
  have n: "unat (8 :: size_t) = packed_sizeof ?cm" "deliverable (cfg_tier (kc_transport (demo_kc tier2_cfg))) (unat (8 :: size_t))"
      "length (replicate 8 9) = unat (8 :: size_t)"
    by (simp_all add: gripper_header(5) deliverable_def)
  obtain cl' object where o: "client_receive (demo_kc tier2_cfg) (snd (last (hw_sent (snd (the (hw_write open_zenoh gripper_active)))))) cl t = Some cl'"
      "read_command (RawCodec_command 8) (demo_kc tier2_cfg) (replicate 8 9) cl' = Some (True, object)"
      "length ?cm = length (hw_commands gripper_active)"
      "\<forall>i < length ?cm. mem_read object (snd (packed_offsets 0 ?cm ! i)) (c_sizeof (fst (?cm ! i))) =
         store_value (ff_type (sch_command_fields (hw_schema gripper_active) ! i)) (hw_commands gripper_active ! i)"
    using command_reaches_firmware [OF gripper_reachable(2) c(1) gripper_write gripper_header(1-3) f n] by blast
  have "mem_read object (snd (packed_offsets 0 ?cm ! 1)) (c_sizeof (fst (?cm ! 1))) =
      store_value (ff_type (sch_command_fields (hw_schema gripper_active) ! 1)) 0"
    using o(4) [rule_format, of 1] o(3) by (simp add: c(2))
  then show ?thesis using f o(1,2) by blast
qed

theorem state_reaches_host_witness:
  "\<exists>cl t hw'. firmware_up (demo_kc tier2_cfg) demo_env [Op_Write [0, 0, 128, 63, 7, 0, 0, 0]] 8 8 (cl, t) \<and>
    hw_read two_slot_buffer True (on_state_sample two_slot_buffer [0, 0, 128, 63, 7, 0, 0, 0] gripper_active) = Some hw' \<and>
    length (hw_states hw') = length (members (sch_state_fields (hw_schema gripper_active)))"
proof -
  let ?ops = "[Op_Write [0, 0, 128, 63, 7, 0, 0, 0]] :: byte list client_op list"
  obtain cl t where f: "firmware_up (demo_kc tier2_cfg) demo_env ?ops 8 8 (cl, t)" using demo_firmware [of ?ops] by auto
  have "hw_state_sub gripper_active \<noteq> None" by (simp add: gripper_defs)
  from state_reaches_host [OF gripper_reachable(2) two_slot_laws this gripper_header(1-3) f]
  show ?thesis using f by (fastforce simp: gripper_header(4))
qed

theorem deactivated_host_stops_motor_witness:
  "\<exists>hw' cl t rg' cl' t'. hw_steps two_slot_buffer gripper_active [Ev_Deactivate, Ev_Command 0 1, Ev_Write open_zenoh] hw' \<and>
     hw_sent hw' = hw_sent gripper_active \<and>
     tier2_run 16 (\<lambda>calls c. 0) (demo_kc tier2_cfg) demo_env (replicate 21 ([Op_Receive [7]], quiet_io)) (demo_rig, cl, t) =
       Some (rg', cl', t') \<and> rg_velocity demo_rig = 1 \<and> f64_eq (rg_velocity rg') 0 \<and> last (rg_motor rg') = Motor_Stop"
proof -
  let ?xs = "replicate 21 ([Op_Receive [7]], quiet_io) :: (byte list client_op list \<times> rig_io) list"
  let ?hw = "(snd (on_deactivate gripper_active))\<lparr> hw_commands := [1, 0] \<rparr>"
  have steps: "hw_steps two_slot_buffer gripper_active [Ev_Deactivate, Ev_Command 0 1, Ev_Write open_zenoh] ?hw"
  proof -
    have a: "hw_step two_slot_buffer gripper_active Ev_Deactivate (snd (on_deactivate gripper_active))"
      by (rule hw_step.deactivate [of _ CB_SUCCESS]) (simp add: on_deactivate_def)
    have b: "hw_step two_slot_buffer (snd (on_deactivate gripper_active)) (Ev_Command 0 1) ?hw"
      using hw_step.command [of 0 "snd (on_deactivate gripper_active)" two_slot_buffer 1]
      by (simp add: on_deactivate_def gripper_commands)
    have c: "hw_step two_slot_buffer ?hw (Ev_Write open_zenoh) ?hw"
      by (rule hw_step.cycle_write [of _ _ True]) (simp add: hw_write_def on_deactivate_def)
    show ?thesis by (rule steps_more [OF a steps_more [OF b steps_more [OF c steps_none]]])
  qed
  obtain cl t where u: "tier2_up (demo_kc tier2_cfg) [] (cl, t)" by (rule demo_client_up)
  have n: "rg_last_count demo_rig = cl_cmd_accepted cl" using tier2_up_accepted [OF u] by (simp add: demo_rig_def)
  have sz: "unat (cl_cmd_payload_size cl) = 8"
    using u unfolding raw_client.up_def raw_client.up_static_def by (simp add: RawCodec_command_def)
  have "list_all delivery_round ?xs" by (simp add: delivery_round_def quiet_io_def list_all_length)
  then obtain rg' cl' where r: "tier2_run 16 (\<lambda>calls c. 0) (demo_kc tier2_cfg) demo_env ?xs (demo_rig, cl, t) = Some (rg', cl', t)"
    using tier2_run_up [OF u _ _ n, of ?xs] by fastforce
  have "hw_sent ?hw = hw_sent gripper_active \<and> f64_eq (rg_velocity rg') 0 \<and> last (rg_motor rg') = Motor_Stop"
    by (rule deactivated_host_stops_motor [OF steps _ r _ n]) (simp_all add: silent_def sz demo_rig_def)
  moreover have "rg_velocity demo_rig = 1" by (simp add: demo_rig_def)
  ultimately show ?thesis using r steps by blast
qed

end
