(* ===== verification/Demo_Controllers.thy ===== *)
theory Demo_Controllers
  imports Zenbedded_Hardware
begin

text \<open>
  The host side of the demos: the controllers of the inverted pendulum
  (\<open>inverted_pendulum_controller.cpp\<close>) and of the sine wave (\<open>sine_wave_controller.cpp\<close>), and the simulated
  pendulum (\<open>mock_pendulum_hardware.cpp\<close>). The node's parameter services, the conversion \<open>std::stod\<close> and the
  sine and cosine, whose accuracy no standard fixes, are parameters. An exception that leaves a function, an
  access outside of a vector, a variable without a value, and the other cases of undefined behaviour are
  \<open>None\<close>.
\<close>

section \<open>Parameters of a node\<close>

datatype param = Param_String string | Param_Double f64

type_synonym node = "string \<Rightarrow> param option"

text \<open>\<open>auto_declare\<close>: the value a parameter gets for a default, or an exception.\<close>

type_synonym declarer = "string \<Rightarrow> param \<Rightarrow> param option"

fun declare_all :: "declarer \<Rightarrow> (string \<times> param) list \<Rightarrow> node \<Rightarrow> bool \<times> node" where
  "declare_all D [] n = (True, n)"
| "declare_all D ((name, initial) # ps) n =
     (case D name initial of None \<Rightarrow> (False, n) | Some v \<Rightarrow> declare_all D ps (n(name \<mapsto> v)))"

definition declare_parameters :: "declarer \<Rightarrow> (string \<times> param) list \<Rightarrow> node \<Rightarrow> callback_return \<times> node" where
  "declare_parameters D ps n = (case declare_all D ps n of (ok, n) \<Rightarrow> (if ok then CB_SUCCESS else CB_ERROR, n))"

definition as_string :: "node \<Rightarrow> string \<Rightarrow> string option" where
  "as_string n name = (case n name of Some (Param_String s) \<Rightarrow> Some s | _ \<Rightarrow> None)"

definition as_double :: "node \<Rightarrow> string \<Rightarrow> f64 option" where
  "as_double n name = (case n name of Some (Param_Double v) \<Rightarrow> Some v | _ \<Rightarrow> None)"

datatype interface_config = IC_NONE | IC_INDIVIDUAL "string list"

datatype return_type = RT_OK | RT_ERROR

text \<open>The first command interface takes a value, or refuses it.\<close>

definition set_first_command :: "bool \<Rightarrow> f64 \<Rightarrow> f64 list \<Rightarrow> (return_type \<times> f64 list) option" where
  "set_first_command accepts v commands =
     (if commands = [] then None
      else if accepts then Some (RT_OK, commands[0 := v])
      else Some (RT_ERROR, commands))"

section \<open>The pendulum's controller\<close>

record pendulum_controller =
  pc_motor_state :: string
  pc_motor_vel :: string
  pc_pendulum_state :: string
  pc_pendulum_vel :: string
  pc_motor_command :: string
  pc_balance_angle :: f64
  pc_kp :: f64
  pc_kd :: f64
  pc_max_acceleration :: f64

text \<open>The doubles that the literals stand for: 1, 1/10 and 5.\<close>

definition pc_defaults :: "(string \<times> param) list" where
  "pc_defaults =
     [(''motor_joint_state_name'', Param_String ''motor_joint/position''),
      (''motor_joint_vel_name'', Param_String ''motor_joint/velocity''),
      (''pendulum_joint_state_name'', Param_String ''pendulum_joint/position''),
      (''pendulum_joint_vel_name'', Param_String ''pendulum_joint/velocity''),
      (''motor_joint_command_name'', Param_String ''motor_joint/acceleration''),
      (''balance_angle'', Param_Double 0),
      (''kp'', Param_Double 0x3FF0000000000000),
      (''kd'', Param_Double 0x3FB999999999999A),
      (''max_acceleration'', Param_Double 0x4014000000000000)]"

definition pc_on_init :: "declarer \<Rightarrow> node \<Rightarrow> callback_return \<times> node" where
  "pc_on_init D n = declare_parameters D pc_defaults n"

definition pc_on_configure :: "node \<Rightarrow> (callback_return \<times> pendulum_controller) option" where
  "pc_on_configure n =
     do { ms \<leftarrow> as_string n ''motor_joint_state_name'';
          mv \<leftarrow> as_string n ''motor_joint_vel_name'';
          ps \<leftarrow> as_string n ''pendulum_joint_state_name'';
          pv \<leftarrow> as_string n ''pendulum_joint_vel_name'';
          mc \<leftarrow> as_string n ''motor_joint_command_name'';
          balance \<leftarrow> as_double n ''balance_angle'';
          kp \<leftarrow> as_double n ''kp'';
          kd \<leftarrow> as_double n ''kd'';
          max_acceleration \<leftarrow> as_double n ''max_acceleration'';
          Some (CB_SUCCESS,
            \<lparr> pc_motor_state = ms, pc_motor_vel = mv, pc_pendulum_state = ps, pc_pendulum_vel = pv, pc_motor_command = mc,
              pc_balance_angle = balance, pc_kp = kp, pc_kd = kd, pc_max_acceleration = max_acceleration \<rparr>) }"

definition pc_command_interfaces :: "pendulum_controller \<Rightarrow> interface_config" where
  "pc_command_interfaces c = IC_INDIVIDUAL [pc_motor_command c]"

definition pc_state_interfaces :: "pendulum_controller \<Rightarrow> interface_config" where
  "pc_state_interfaces c = IC_INDIVIDUAL [pc_motor_state c, pc_motor_vel c, pc_pendulum_state c, pc_pendulum_vel c]"

definition value_or :: "f64 \<Rightarrow> f64 option \<Rightarrow> f64" where
  "value_or d v = (case v of None \<Rightarrow> d | Some v \<Rightarrow> v)"

text \<open>The control law before the limit.\<close>

definition pc_pd :: "pendulum_controller \<Rightarrow> f64 \<Rightarrow> f64 \<Rightarrow> f64" where
  "pc_pd c pos vel = f64_sub (f64_mul (pc_kp c) (f64_sub (pc_balance_angle c) pos)) (f64_mul (pc_kd c) vel)"

text \<open>\<open>std::clamp\<close> is undefined if its limits are in the wrong order.\<close>

definition pc_update ::
    "pendulum_controller \<Rightarrow> f64 option list \<Rightarrow> bool \<Rightarrow> f64 list \<Rightarrow> (return_type \<times> f64 list) option" where
  "pc_update c states accepts commands =
     (if length states \<le> 3 then None
      else
        let u = pc_pd c (value_or 0 (states ! 2)) (value_or 0 (states ! 3));
            hi = pc_max_acceleration c; lo = f64_neg hi
        in if f64_lt hi lo then None else set_first_command accepts (f64_clamp u lo hi) commands)"

section \<open>The sine wave's controller\<close>

record 't sine_controller =
  sw_component :: string
  sw_cmd_interface :: string
  sw_amplitude :: f64
  sw_frequency :: f64
  sw_offset :: f64
  sw_start :: "'t option"  \<comment> \<open>\<open>None\<close>: \<open>start_time_set_\<close> is false\<close>

definition sw_defaults :: "(string \<times> param) list" where
  "sw_defaults =
     [(''component_name'', Param_String ''sine_wave''), (''cmd_interface_name'', Param_String ''amplitude''),
      (''amplitude'', Param_Double 0x4014000000000000), (''frequency'', Param_Double 0x4000000000000000),
      (''offset'', Param_Double 0)]"

definition sw_on_init :: "declarer \<Rightarrow> node \<Rightarrow> callback_return \<times> node" where
  "sw_on_init D n = declare_parameters D sw_defaults n"

definition sw_on_configure :: "node \<Rightarrow> 't sine_controller \<Rightarrow> (callback_return \<times> 't sine_controller) option" where
  "sw_on_configure n c =
     do { component \<leftarrow> as_string n ''component_name'';
          cmd \<leftarrow> as_string n ''cmd_interface_name'';
          amplitude \<leftarrow> as_double n ''amplitude'';
          frequency \<leftarrow> as_double n ''frequency'';
          offset \<leftarrow> as_double n ''offset'';
          Some (CB_SUCCESS, c\<lparr> sw_component := component, sw_cmd_interface := cmd, sw_amplitude := amplitude,
                               sw_frequency := frequency, sw_offset := offset \<rparr>) }"

definition sw_command_interfaces :: "'t sine_controller \<Rightarrow> interface_config" where
  "sw_command_interfaces c = IC_INDIVIDUAL [sw_component c @ ''/'' @ sw_cmd_interface c]"

definition sw_state_interfaces :: "'t sine_controller \<Rightarrow> interface_config" where
  "sw_state_interfaces c = IC_NONE"

definition sw_on_activate :: "'t sine_controller \<Rightarrow> callback_return \<times> 't sine_controller" where
  "sw_on_activate c = (CB_SUCCESS, c\<lparr> sw_start := None \<rparr>)"

text \<open>\<open>seconds a b\<close> is the time from \<open>b\<close> to \<open>a\<close>.\<close>

definition sw_value :: "(f64 \<Rightarrow> f64) \<Rightarrow> 't sine_controller \<Rightarrow> f64 \<Rightarrow> f64" where
  "sw_value sin_f c t =
     f64_add (sw_offset c)
       (f64_mul (sw_amplitude c) (sin_f (f64_mul (f64_mul (f64_mul (f64_of_int 2) M_PI) (sw_frequency c)) t)))"

definition sw_update ::
    "(f64 \<Rightarrow> f64) \<Rightarrow> ('t \<Rightarrow> 't \<Rightarrow> f64) \<Rightarrow> 't \<Rightarrow> bool \<Rightarrow> 't sine_controller \<times> f64 list
       \<Rightarrow> (return_type \<times> 't sine_controller \<times> f64 list) option" where
  "sw_update sin_f seconds time accepts = (\<lambda>(c, commands).
     let c = (if sw_start c = None then c\<lparr> sw_start := Some time \<rparr> else c)
     in do { start \<leftarrow> sw_start c;
             (r, commands) \<leftarrow> set_first_command accepts (sw_value sin_f c (seconds time start)) commands;
             Some (r, c, commands) })"

section \<open>The simulated pendulum\<close>

text \<open>The members have no value before they are set.\<close>

record mock =
  mk_states :: "f64 list"
  mk_commands :: "f64 list"
  mk_q1 :: "f64 option"
  mk_q1_dot :: "f64 option"
  mk_q2 :: "f64 option"
  mk_q2_dot :: "f64 option"
  mk_J1 :: "f64 option"
  mk_J2 :: "f64 option"
  mk_m2 :: "f64 option"
  mk_l2 :: "f64 option"
  mk_b1 :: "f64 option"
  mk_b2 :: "f64 option"
  mk_g :: "f64 option"
  mk_initial_q2 :: "f64 option"

definition mock_new :: mock where
  "mock_new = \<lparr> mk_states = [], mk_commands = [], mk_q1 = None, mk_q1_dot = None, mk_q2 = None, mk_q2_dot = None,
     mk_J1 = None, mk_J2 = None, mk_m2 = None, mk_l2 = None, mk_b1 = None, mk_b2 = None, mk_g = None,
     mk_initial_q2 = None \<rparr>"

text \<open>\<open>std::stod\<close> gives a number, or throws one of two exceptions.\<close>

datatype stod_result = Stod f64 | Stod_Invalid_Argument | Stod_Out_Of_Range

definition mock_parameters :: "(string \<times> (f64 \<Rightarrow> mock \<Rightarrow> mock)) list" where
  "mock_parameters =
     [(''J1'', \<lambda>v m. m\<lparr> mk_J1 := Some v \<rparr>), (''J2'', \<lambda>v m. m\<lparr> mk_J2 := Some v \<rparr>), (''m2'', \<lambda>v m. m\<lparr> mk_m2 := Some v \<rparr>),
      (''l2'', \<lambda>v m. m\<lparr> mk_l2 := Some v \<rparr>), (''b1'', \<lambda>v m. m\<lparr> mk_b1 := Some v \<rparr>), (''b2'', \<lambda>v m. m\<lparr> mk_b2 := Some v \<rparr>),
      (''g'', \<lambda>v m. m\<lparr> mk_g := Some v \<rparr>), (''initial_q2'', \<lambda>v m. m\<lparr> mk_initial_q2 := Some v \<rparr>)]"

text \<open>The loop's result: whether all were read; \<open>None\<close> is \<open>std::invalid_argument\<close>, which is not caught, while the
  exception of a missing key and that of a number out of range are.\<close>

fun mock_read_parameters ::
    "(string \<Rightarrow> stod_result) \<Rightarrow> (string \<Rightarrow> string option) \<Rightarrow> (string \<times> (f64 \<Rightarrow> mock \<Rightarrow> mock)) list \<Rightarrow> mock
       \<Rightarrow> (bool \<times> mock) option" where
  "mock_read_parameters stod params [] m = Some (True, m)"
| "mock_read_parameters stod params ((key, set_f) # rest) m =
     (case params key of
        None \<Rightarrow> Some (False, m)
      | Some s \<Rightarrow>
          (case stod s of
             Stod v \<Rightarrow> mock_read_parameters stod params rest (set_f v m)
           | Stod_Out_Of_Range \<Rightarrow> Some (False, m)
           | Stod_Invalid_Argument \<Rightarrow> None))"

definition mock_on_init ::
    "(string \<Rightarrow> stod_result) \<Rightarrow> bool \<Rightarrow> (string \<Rightarrow> string option) \<Rightarrow> mock \<Rightarrow> (callback_return \<times> mock) option" where
  "mock_on_init stod base_ok params m =
     (if \<not> base_ok then Some (CB_ERROR, m)
      else do {
        (ok, m) \<leftarrow> mock_read_parameters stod params mock_parameters m;
        if \<not> ok then Some (CB_ERROR, m)
        else Some (CB_SUCCESS, m\<lparr> mk_states := resize 4 0 (mk_states m), mk_commands := resize 1 0 (mk_commands m) \<rparr>) })"

text \<open>Each interface with the index of its value.\<close>

definition mock_state_interfaces :: "mock \<Rightarrow> (string \<times> string \<times> nat) list option" where
  "mock_state_interfaces m =
     (if length (mk_states m) < 4 then None
      else Some [(''motor_joint'', ''position'', 0), (''motor_joint'', ''velocity'', 1),
                 (''pendulum_joint'', ''position'', 2), (''pendulum_joint'', ''velocity'', 3)])"

definition mock_command_interfaces :: "mock \<Rightarrow> (string \<times> string \<times> nat) list option" where
  "mock_command_interfaces m =
     (if mk_commands m = [] then None else Some [(''motor_joint'', ''acceleration'', 0)])"

definition publish_states :: "mock \<Rightarrow> mock option" where
  "publish_states m =
     do { q1 \<leftarrow> mk_q1 m; q1_dot \<leftarrow> mk_q1_dot m; q2 \<leftarrow> mk_q2 m; q2_dot \<leftarrow> mk_q2_dot m;
          if length (mk_states m) < 4 then None
          else Some (m\<lparr> mk_states := (mk_states m)[0 := q1, 1 := q1_dot, 2 := q2, 3 := q2_dot] \<rparr>) }"

definition mock_on_activate :: "mock \<Rightarrow> (callback_return \<times> mock) option" where
  "mock_on_activate m =
     do { q2 \<leftarrow> mk_initial_q2 m;
          m \<leftarrow> publish_states (m\<lparr> mk_q1 := Some 0, mk_q1_dot := Some 0, mk_q2 := Some q2, mk_q2_dot := Some 0 \<rparr>);
          if mk_commands m = [] then None
          else Some (CB_SUCCESS, m\<lparr> mk_commands := (mk_commands m)[0 := 0] \<rparr>) }"

record trig =
  tr_sin :: "f64 \<Rightarrow> f64"
  tr_cos :: "f64 \<Rightarrow> f64"

definition mock_q2_ddot :: "trig \<Rightarrow> f64 \<Rightarrow> f64 \<Rightarrow> f64 \<Rightarrow> f64 \<Rightarrow> f64 \<Rightarrow> f64 \<Rightarrow> f64 \<Rightarrow> f64 \<Rightarrow> f64" where
  "mock_q2_ddot T J2 m2 l2 b2 g q2 q2_dot q1_ddot =
     f64_div
       (f64_sub
         (f64_sub (f64_mul (f64_neg b2) q2_dot) (f64_mul (f64_mul (f64_mul m2 g) l2) (tr_sin T q2)))
         (f64_mul (f64_mul J2 (tr_cos T q2)) q1_ddot))
       J2"

text \<open>\<open>dt\<close> is the period in seconds. The order of the updates is that of semi-implicit Euler.\<close>

definition mock_read :: "trig \<Rightarrow> f64 \<Rightarrow> mock \<Rightarrow> mock option" where
  "mock_read T dt m =
     (if f64_lt dt 0 \<or> f64_eq dt 0 then Some m
      else if mk_commands m = [] then None
      else do {
        let q1_ddot = mk_commands m ! 0;
        q1 \<leftarrow> mk_q1 m; q1_dot \<leftarrow> mk_q1_dot m; q2 \<leftarrow> mk_q2 m; q2_dot \<leftarrow> mk_q2_dot m;
        J2 \<leftarrow> mk_J2 m; m2 \<leftarrow> mk_m2 m; l2 \<leftarrow> mk_l2 m; b2 \<leftarrow> mk_b2 m; g \<leftarrow> mk_g m;
        let q2_ddot = mock_q2_ddot T J2 m2 l2 b2 g q2 q2_dot q1_ddot;
        let q1_dot = f64_add q1_dot (f64_mul q1_ddot dt);
        let q1 = f64_add q1 (f64_mul q1_dot dt);
        let q2_dot = f64_add q2_dot (f64_mul q2_ddot dt);
        let q2 = f64_add q2 (f64_mul q2_dot dt);
        publish_states (m\<lparr> mk_q1 := Some q1, mk_q1_dot := Some q1_dot, mk_q2 := Some q2, mk_q2_dot := Some q2_dot \<rparr>) })"

definition mock_write :: "mock \<Rightarrow> mock" where "mock_write m = m"

end
