(* ===== verification/Demo_Controllers_Props.thy ===== *)
theory Demo_Controllers_Props
  imports Demo_Controllers
begin

text \<open>
  The properties of the demos' host side: the limits and the direction of the pendulum's controller, the phase
  of the sine wave, and the simulated pendulum before its activation and at rest.
\<close>

section \<open>Signs\<close>

text \<open>A number on one side of zero, both zeros included.\<close>

definition f64_side :: "bool \<Rightarrow> f64 \<Rightarrow> bool" where
  "f64_side s w \<longleftrightarrow> \<not> f64_isnan w \<and> (if s then f64_key w \<le> 0 else 0 \<le> f64_key w)"

lemma f64_mag_le [simp]: "f64_mag w \<le> 9223372036854775807"
  using f64_mag_less [of w] by simp

lemma f64_round_sel:
  "f64_sign (f64_round s m e) = s" "f64_mag (f64_round s m e) \<le> F64_INF" "\<not> f64_isnan (f64_round s m e)"
proof -
  have "min F64_INF (fmt_round 52 (-1074) m e) < 2 ^ 63" by (rule le_less_trans [OF min.cobounded1]) (simp add: F64_INF_def)
  then show "f64_sign (f64_round s m e) = s" "f64_mag (f64_round s m e) \<le> F64_INF" "\<not> f64_isnan (f64_round s m e)"
    by (simp_all add: f64_round_def f64_isnan_def)
qed

lemma f64_side_round [simp]: "f64_side s (f64_round s m e)"
  by (simp add: f64_side_def f64_key_def f64_round_sel)

lemma f64_side_zero [simp]: "f64_side s (f64_make t 0)"
  by (simp add: f64_side_def f64_key_def f64_isnan_def F64_INF_def)

lemma f64_side_inf: "f64_mag w = F64_INF \<Longrightarrow> f64_side (f64_sign w) w"
  by (simp add: f64_side_def f64_key_def f64_isnan_def)

lemma f64_finite_mag: "f64_isfinite w \<Longrightarrow> \<not> f64_isnan w \<and> f64_mag w \<noteq> F64_INF"
  by (auto simp: f64_isfinite_def f64_isnan_def)

lemma f64_neg_sel [simp]: "f64_mag (f64_neg w) = f64_mag w" "f64_sign (f64_neg w) = (\<not> f64_sign w)"
  using f64_mag_less [of w] by (simp_all add: f64_neg_def)

lemma scaled_0 [simp]: "scaled mb 0 = 0"
  by (simp add: scaled_def)

definition f64_scaled :: "f64 \<Rightarrow> int" where
  "f64_scaled w = (if f64_sign w then - int (scaled 52 (f64_mag w)) else int (scaled 52 (f64_mag w)))"

lemma f64_scaled_mono: "f64_key a \<le> f64_key b \<Longrightarrow> f64_scaled a \<le> f64_scaled b"
  using scaled_mono [of "f64_mag a" "f64_mag b" 52] scaled_mono [of "f64_mag b" "f64_mag a" 52]
  by (cases "f64_mag a = 0"; cases "f64_mag b = 0") (auto simp: f64_key_def f64_scaled_def split: if_splits)

lemma f64_decode_scaled:
  assumes "f64_decode w = (m, e)"
  shows "f64_scaled w = (if f64_sign w then -1 else 1) * (int m * 2 ^ nat (e + 1074))" "-1074 \<le> e"
  using fmt_decode_scaled [of 52 "-1074" "f64_mag w" m e] assms by (simp_all add: f64_decode_def f64_scaled_def)

text \<open>Subtraction rounds to the side on which the exact difference is.\<close>

lemma f64_sub_side:
  assumes f: "f64_isfinite a" "f64_isfinite b" and le: "if s then f64_key a \<le> f64_key b else f64_key b \<le> f64_key a"
  shows "f64_side s (f64_sub a b)"
proof -
  obtain m e n f where d: "f64_decode a = (m, e)" "f64_decode (f64_neg b) = (n, f)" by fastforce
  have db: "f64_decode b = (n, f)" using d(2) by (simp add: f64_decode_def)
  note sa = f64_decode_scaled [OF d(1)] and sb = f64_decode_scaled [OF db]
  define k where "k = min e f"
  define x where "x = (if f64_sign a then -1 else 1) * (int m * 2 ^ nat (e - k)) +
    (if f64_sign (f64_neg b) then -1 else 1) * (int n * 2 ^ nat (f - k))"
  have k: "-1074 \<le> k" "k \<le> e" "k \<le> f" using sa(2) sb(2) by (simp_all add: k_def)
  have "nat (e + 1074) = nat (e - k) + nat (k + 1074)" "nat (f + 1074) = nat (f - k) + nat (k + 1074)"
    using k by (simp_all flip: nat_add_distrib)
  then have "x * 2 ^ nat (k + 1074) = f64_scaled a - f64_scaled b"
    unfolding sa(1) sb(1) x_def by (simp add: power_add algebra_simps)
  moreover have "if s then f64_scaled a \<le> f64_scaled b else f64_scaled b \<le> f64_scaled a"
    using le f64_scaled_mono by (auto split: if_splits)
  ultimately have x: "if s then x * 2 ^ nat (k + 1074) \<le> 0 else 0 \<le> x * 2 ^ nat (k + 1074)" by (simp split: if_splits)
  then have "if s then x \<le> 0 else 0 \<le> x" by (simp add: mult_le_0_iff zero_le_mult_iff split: if_splits)
  then have "x = 0 \<or> (x < 0) = s" by (auto split: if_splits)
  moreover have "f64_sub a b = (if x = 0 then f64_make (f64_sign a \<and> f64_sign (f64_neg b)) 0 else f64_round (x < 0) (nat \<bar>x\<bar>) k)"
    using f64_finite_mag [OF f(1)] f64_finite_mag [OF f(2)] d by (simp add: f64_sub_def f64_add_def Let_def x_def k_def)
  ultimately show ?thesis by auto
qed

lemma f64_sub_zero_side:
  assumes "f64_side s u" and "f64_mag z = 0"
  shows "f64_side s (f64_sub u z)"
proof (cases "f64_mag u = F64_INF")
  case True
  then have "f64_sub u z = u" using assms by (simp add: f64_sub_def f64_add_def f64_isnan_def F64_INF_def)
  then show ?thesis using assms by simp
next
  case False
  then have "f64_isfinite u" "f64_isfinite z" using assms by (auto simp: f64_isfinite_def f64_side_def f64_isnan_def F64_INF_def)
  moreover have "f64_key z = 0" using assms(2) by (simp add: f64_key_def)
  ultimately show ?thesis using assms(1) by (intro f64_sub_side) (auto simp: f64_side_def split: if_splits)
qed

lemma f64_decode_zero: "f64_mag z = 0 \<Longrightarrow> f64_decode z = (0, -1074)"
  by (simp add: f64_decode_def fmt_decode_def)

lemma f64_mul_zero:
  assumes "f64_isfinite a" and "f64_mag z = 0"
  shows "f64_mul a z = f64_make (f64_sign a \<noteq> f64_sign z) 0" "f64_mul z a = f64_make (f64_sign z \<noteq> f64_sign a) 0"
  using f64_finite_mag [OF assms(1)] assms(2)
  by (simp_all add: f64_mul_def Let_def f64_decode_zero f64_isnan_def F64_INF_def split: prod.splits)

lemma f64_mul_side:
  assumes a: "f64_isfinite a" "0 < f64_key a" and b: "f64_side s b"
  shows "f64_side s (f64_mul a b)"
proof (cases "f64_mag b = 0")
  case True
  then show ?thesis using f64_mul_zero(1) [OF a(1)] by simp
next
  case False
  have sa: "\<not> f64_sign a" "f64_mag a \<noteq> 0" using a(2) by (auto simp: f64_key_def split: if_splits)
  have sb: "f64_sign b = s" using False b by (auto simp: f64_side_def f64_key_def split: if_splits)
  have "\<not> f64_isnan b" using b by (simp add: f64_side_def)
  then show ?thesis using f64_finite_mag [OF a(1)] sa sb False f64_side_inf [of "f64_make s F64_INF"]
    by (auto simp: f64_mul_def Let_def F64_INF_def split: prod.splits)
qed

lemma f64_make_id [simp]: "f64_make (f64_sign w) (f64_mag w) = w"
proof -
  have "unat w < 2 ^ LENGTH(64)" by (rule unsigned_less)
  then have "(if f64_sign w then 2 ^ 63 else 0) + f64_mag w = unat w"
    by (auto simp: f64_sign_def f64_mag_def not_le) (simp add: le_mod_geq)
  then show ?thesis by (simp add: f64_make_def)
qed

lemma f64_neg_neg [simp]: "f64_neg (f64_neg w) = w"
  using f64_make_id [of w] by (simp add: f64_neg_def [of "f64_neg w"])

lemma f64_add_zero_side:
  assumes "f64_side s x"
  shows "f64_side s (f64_add 0 x)"
proof (cases "f64_mag x = F64_INF")
  case True
  then have "f64_add 0 x = x" by (simp add: f64_add_def f64_isnan_def f64_mag_def [of 0] F64_INF_def)
  then show ?thesis using assms by simp
next
  case False
  then have "f64_isfinite (f64_neg x)" using assms by (auto simp: f64_isfinite_def f64_side_def f64_isnan_def)
  moreover have "f64_add 0 x = f64_sub 0 (f64_neg x)" by (simp add: f64_sub_def)
  moreover have "f64_isfinite 0" "f64_key 0 = 0" by (simp_all add: f64_isfinite_def f64_key_def f64_mag_def F64_INF_def)
  moreover have "f64_key (f64_neg x) = - f64_key x" by (rule f64_key_neg [OF f64_mag_less])
  ultimately show ?thesis using assms by (simp add: f64_sub_side f64_side_def [of s x] split: if_splits)
qed

lemma f64_zero_sub_side:
  assumes "f64_mag z = 0" and "f64_side (\<not> s) x"
  shows "f64_side s (f64_sub z x)"
proof (cases "f64_mag x = F64_INF")
  case True
  then have "f64_sub z x = f64_neg x" using assms(1) by (simp add: f64_sub_def f64_add_def f64_isnan_def F64_INF_def)
  then show ?thesis using assms(2) f64_key_neg [OF f64_mag_less, of x] by (simp add: f64_side_def split: if_splits)
next
  case False
  then have "f64_isfinite x" "f64_isfinite z" using assms by (auto simp: f64_isfinite_def f64_side_def f64_isnan_def F64_INF_def)
  moreover have "f64_key z = 0" using assms(1) by (simp add: f64_key_def)
  ultimately show ?thesis using assms(2) by (intro f64_sub_side) (auto simp: f64_side_def split: if_splits)
qed

lemma f64_mul_commute: "f64_mul a b = f64_mul b a"
  by (cases "f64_sign a"; cases "f64_sign b") (auto simp: f64_mul_def Let_def ac_simps split: prod.splits)

lemma f64_div_side:
  assumes a: "f64_side s a" and b: "f64_isfinite b" "0 < f64_key b"
  shows "f64_side s (f64_div a b)"
proof (cases "f64_mag a = 0")
  case True
  have "f64_mag b \<noteq> 0" using b(2) by (auto simp: f64_key_def split: if_splits)
  then show ?thesis using f64_finite_mag [OF b(1)] True
    by (simp add: f64_div_def Let_def f64_decode_zero f64_isnan_def F64_INF_def split: prod.splits)
next
  case False
  have sb: "\<not> f64_sign b" "f64_mag b \<noteq> 0" using b(2) by (auto simp: f64_key_def split: if_splits)
  have sa: "f64_sign a = s" using False a by (auto simp: f64_side_def f64_key_def split: if_splits)
  have "\<not> f64_isnan a" using a by (simp add: f64_side_def)
  then show ?thesis using f64_finite_mag [OF b(1)] sa sb False f64_side_inf [of "f64_make s F64_INF"]
    by (auto simp: f64_div_def Let_def F64_INF_def split: prod.splits)
qed

lemma f64_clamp_side:
  assumes "f64_side s u" and "f64_side False m"
  shows "f64_side s (f64_clamp u (f64_neg m) m)"
  using assms f64_key_neg [OF f64_mag_less, of m]
  by (auto simp: f64_clamp_def f64_lt_def f64_side_def split: if_splits)

section \<open>Helpers\<close>

lemma f64_zero_bits [simp]: "\<not> f64_isnan 0" "f64_key 0 = 0" "f64_mag 0 = 0"
  by (simp_all add: f64_isnan_def f64_key_def f64_mag_def F64_INF_def)

lemma f64_lt_neg: "f64_lt m (f64_neg m) \<longleftrightarrow> f64_lt m 0"
  using f64_key_neg [OF f64_mag_less, of m] by (auto simp: f64_lt_def)

lemma pc_update_eq:
  assumes "length states = 4" and "\<not> f64_lt (pc_max_acceleration c) 0"
  shows "pc_update c states True [old] =
    Some (RT_OK, [f64_clamp (pc_pd c (value_or 0 (states ! 2)) (value_or 0 (states ! 3)))
       (f64_neg (pc_max_acceleration c)) (pc_max_acceleration c)])"
  using assms by (simp add: pc_update_def Let_def set_first_command_def f64_lt_neg)

lemma pc_pd_side:
  assumes "f64_isfinite pos" "f64_isfinite (pc_balance_angle c)" "f64_isfinite (pc_kp c)" "f64_lt 0 (pc_kp c)"
    "f64_isfinite (pc_kd c)" "f64_mag vel = 0"
    and le: "if s then f64_key (pc_balance_angle c) \<le> f64_key pos else f64_key pos \<le> f64_key (pc_balance_angle c)"
  shows "f64_side s (pc_pd c pos vel)"
proof -
  have "0 < f64_key (pc_kp c)" using assms(4) by (simp add: f64_lt_def)
  then have "f64_side s (f64_mul (pc_kp c) (f64_sub (pc_balance_angle c) pos))"
    by (intro f64_mul_side f64_sub_side assms le)
  then show ?thesis unfolding pc_pd_def
    by (rule f64_sub_zero_side) (simp add: f64_mul_zero(1) [OF assms(5,6)])
qed

text \<open>Updates of the sine wave's controller at a sequence of times, with the command after each.\<close>

fun sw_run ::
    "(f64 \<Rightarrow> f64) \<Rightarrow> ('t \<Rightarrow> 't \<Rightarrow> f64) \<Rightarrow> 't list \<Rightarrow> 't sine_controller \<times> f64 list \<Rightarrow> f64 list option" where
  "sw_run sin_f seconds [] s = Some []"
| "sw_run sin_f seconds (t # ts) s =
     do { (r, c, commands) \<leftarrow> sw_update sin_f seconds t True s;
          vs \<leftarrow> sw_run sin_f seconds ts (c, commands);
          Some (commands @ vs) }"

lemma sw_value_start [simp]: "sw_value sin_f (c\<lparr> sw_start := st \<rparr>) = sw_value sin_f c"
  by (simp add: sw_value_def fun_eq_iff)

lemma sw_run_started:
  "sw_start c = Some t0 \<Longrightarrow>
   sw_run sin_f seconds ts (c, [old]) = Some (map (\<lambda>t. sw_value sin_f c (seconds t t0)) ts)"
  by (induction ts arbitrary: old) (simp_all add: sw_update_def set_first_command_def)

text \<open>Cycles of the simulation, each with the commanded acceleration and the period.\<close>

fun mock_run :: "trig \<Rightarrow> (f64 \<times> f64) list \<Rightarrow> mock \<Rightarrow> mock option" where
  "mock_run T [] m = Some m"
| "mock_run T ((v, dt) # xs) m = do { m \<leftarrow> mock_read T dt (m\<lparr> mk_commands := (mk_commands m)[0 := v] \<rparr>); mock_run T xs m }"

text \<open>All members have values, and the state interfaces show the state.\<close>

definition mock_live :: "mock \<Rightarrow> bool" where
  "mock_live m \<longleftrightarrow> length (mk_commands m) = 1 \<and>
     list_all (\<lambda>v. v \<noteq> None) [mk_J2 m, mk_m2 m, mk_l2 m, mk_b2 m, mk_g m] \<and>
     map Some (mk_states m) = [mk_q1 m, mk_q1_dot m, mk_q2 m, mk_q2_dot m]"

lemma mock_liveE:
  assumes "mock_live m"
  obtains u q1 d1 q2 d2 J2 m2 l2 b2 g where
    "mk_commands m = [u]" "mk_states m = [q1, d1, q2, d2]" "mk_q1 m = Some q1" "mk_q1_dot m = Some d1" "mk_q2 m = Some q2"
    "mk_q2_dot m = Some d2" "mk_J2 m = Some J2" "mk_m2 m = Some m2" "mk_l2 m = Some l2" "mk_b2 m = Some b2" "mk_g m = Some g"
  using assms by (auto simp: mock_live_def length_Suc_conv map_eq_Cons_conv)

lemma mock_init_params:
  assumes "mock_on_init stod True params mock_new = Some (CB_SUCCESS, m)"
  shows "\<exists>J1 J2 m2 l2 b1 b2 g q. m = mock_new\<lparr> mk_J1 := Some J1, mk_J2 := Some J2, mk_m2 := Some m2, mk_l2 := Some l2,
    mk_b1 := Some b1, mk_b2 := Some b2, mk_g := Some g, mk_initial_q2 := Some q, mk_states := [0, 0, 0, 0], mk_commands := [0] \<rparr>"
  using assms
  by (auto simp: mock_on_init_def mock_parameters_def mock_new_def resize_def numeral_eq_Suc bind_eq_Some_conv
      split: option.splits stod_result.splits if_splits)

lemma mock_read_live:
  assumes "mock_live m"
  shows "\<exists>m'. mock_read T dt m = Some m' \<and> mock_live m'"
  using assms by (elim mock_liveE) (simp add: mock_read_def Let_def publish_states_def mock_live_def)

lemma mock_live_command: "mock_live m \<Longrightarrow> mock_live (m\<lparr> mk_commands := (mk_commands m)[0 := v] \<rparr>)"
  by (simp add: mock_live_def)

lemma mock_run_live: "mock_live m \<Longrightarrow> \<exists>m'. mock_run T xs m = Some m' \<and> mock_live m'"
proof (induction xs arbitrary: m)
  case (Cons x xs)
  obtain v dt where x: "x = (v, dt)" by fastforce
  obtain m1 where m1: "mock_read T dt (m\<lparr> mk_commands := (mk_commands m)[0 := v] \<rparr>) = Some m1" "mock_live m1"
    using mock_read_live [OF mock_live_command [OF Cons.prems]] by blast
  then show ?case using Cons.IH [OF m1(2)] by (simp add: x)
qed simp

lemma mock_activate_live:
  assumes "mock_on_init stod True params mock_new = Some (CB_SUCCESS, m)"
  shows "\<exists>m'. mock_on_activate m = Some (CB_SUCCESS, m') \<and> mock_live m' \<and>
    mk_J2 m' = mk_J2 m \<and> mk_m2 m' = mk_m2 m \<and> mk_l2 m' = mk_l2 m \<and> mk_b2 m' = mk_b2 m \<and> mk_g m' = mk_g m \<and>
    mk_states m' = [0, 0, the (mk_initial_q2 m), 0]"
proof -
  obtain J1 J2 m2 l2 b1 b2 g q where "m = mock_new\<lparr> mk_J1 := Some J1, mk_J2 := Some J2, mk_m2 := Some m2, mk_l2 := Some l2,
    mk_b1 := Some b1, mk_b2 := Some b2, mk_g := Some g, mk_initial_q2 := Some q, mk_states := [0, 0, 0, 0], mk_commands := [0] \<rparr>"
    using mock_init_params [OF assms] by blast
  then show ?thesis by (simp add: mock_on_activate_def publish_states_def mock_live_def mock_new_def)
qed

subsection \<open>Rest\<close>

lemma f64_add_zeros: "f64_mag a = 0 \<Longrightarrow> f64_mag b = 0 \<Longrightarrow> f64_mag (f64_add a b) = 0"
  by (simp add: f64_add_def f64_decode_zero Let_def f64_isnan_def F64_INF_def)

lemma f64_sub_zeros: "f64_mag a = 0 \<Longrightarrow> f64_mag b = 0 \<Longrightarrow> f64_mag (f64_sub a b) = 0"
  by (simp add: f64_sub_def f64_add_zeros)

lemma f64_mul_zeros: "f64_isfinite a \<Longrightarrow> f64_mag z = 0 \<Longrightarrow> f64_mag (f64_mul a z) = 0 \<and> f64_mag (f64_mul z a) = 0"
  by (simp add: f64_mul_zero)

lemma f64_zero_finite: "f64_mag z = 0 \<Longrightarrow> f64_isfinite z"
  by (simp add: f64_isfinite_def F64_INF_def)

lemma f64_div_zeros:
  assumes "f64_mag a = 0" and "f64_isfinite b" and "f64_mag b \<noteq> 0"
  shows "f64_mag (f64_div a b) = 0"
  using f64_finite_mag [OF assms(2)] assms(1,3)
  by (simp add: f64_div_def Let_def f64_decode_zero f64_isnan_def F64_INF_def split: prod.splits)

text \<open>The pendulum hangs at angle zero, and the constants of the equation of motion are finite.\<close>

definition can_rest :: "trig \<Rightarrow> mock \<Rightarrow> bool" where
  "can_rest T m \<longleftrightarrow> (\<forall>z. f64_mag z = 0 \<longrightarrow> f64_mag (tr_sin T z) = 0 \<and> f64_isfinite (f64_mul (the (mk_J2 m)) (tr_cos T z))) \<and>
     f64_isfinite (the (mk_J2 m)) \<and> f64_mag (the (mk_J2 m)) \<noteq> 0 \<and> f64_isfinite (the (mk_b2 m)) \<and>
     f64_isfinite (f64_mul (f64_mul (the (mk_m2 m)) (the (mk_g m))) (the (mk_l2 m)))"

definition at_rest :: "mock \<Rightarrow> bool" where
  "at_rest m \<longleftrightarrow> list_all (\<lambda>v. f64_mag v = 0) (mk_states m)"

lemma mock_read_rests:
  assumes l: "mock_live m" and r: "at_rest m" "can_rest T m" and u: "f64_mag v = 0" and dt: "f64_isfinite dt"
    and rd: "mock_read T dt (m\<lparr> mk_commands := (mk_commands m)[0 := v] \<rparr>) = Some m'"
  shows "mock_live m' \<and> at_rest m' \<and> can_rest T m'"
  using l
proof (elim mock_liveE)
  fix u0 q1 d1 q2 d2 J2 m2 l2 b2 g
  assume m: "mk_commands m = [u0]" "mk_states m = [q1, d1, q2, d2]" "mk_q1 m = Some q1" "mk_q1_dot m = Some d1" "mk_q2 m = Some q2"
    "mk_q2_dot m = Some d2" "mk_J2 m = Some J2" "mk_m2 m = Some m2" "mk_l2 m = Some l2" "mk_b2 m = Some b2" "mk_g m = Some g"
  have live: "mock_live m'" using mock_read_live [OF mock_live_command [OF l], of T dt v] rd by auto
  show ?thesis
  proof (cases "f64_lt dt 0 \<or> f64_eq dt 0")
    case True
    then have "m' = m\<lparr> mk_commands := (mk_commands m)[0 := v] \<rparr>" using rd by (simp add: mock_read_def)
    then show ?thesis using live r by (simp add: at_rest_def can_rest_def)
  next
    case False
    have z: "f64_mag q1 = 0" "f64_mag d1 = 0" "f64_mag q2 = 0" "f64_mag d2 = 0" using r(1) m by (simp_all add: at_rest_def)
    have c: "f64_mag (tr_sin T q2) = 0" "f64_isfinite (f64_mul J2 (tr_cos T q2))" "f64_isfinite J2" "f64_mag J2 \<noteq> 0"
      "f64_isfinite b2" "f64_isfinite (f64_mul (f64_mul m2 g) l2)"
      using r(2) m z by (simp_all add: can_rest_def)
    have b: "f64_isfinite (f64_neg b2)" using c(5) by (simp add: f64_isfinite_def)
    define dd where "dd = mock_q2_ddot T J2 m2 l2 b2 g q2 d2 v"
    have dd: "f64_mag dd = 0" unfolding dd_def mock_q2_ddot_def
      by (intro f64_div_zeros f64_sub_zeros f64_mul_zeros [THEN conjunct1] b c z u)
    have e: "m' = m\<lparr> mk_commands := [v], mk_q1 := Some (f64_add q1 (f64_mul (f64_add d1 (f64_mul v dt)) dt)),
        mk_q1_dot := Some (f64_add d1 (f64_mul v dt)), mk_q2 := Some (f64_add q2 (f64_mul (f64_add d2 (f64_mul dd dt)) dt)),
        mk_q2_dot := Some (f64_add d2 (f64_mul dd dt)),
        mk_states := [f64_add q1 (f64_mul (f64_add d1 (f64_mul v dt)) dt), f64_add d1 (f64_mul v dt),
          f64_add q2 (f64_mul (f64_add d2 (f64_mul dd dt)) dt), f64_add d2 (f64_mul dd dt)] \<rparr>"
      using rd False m by (simp add: mock_read_def Let_def publish_states_def dd_def)
    have "f64_mag (f64_mul x dt) = 0" if "f64_mag x = 0" for x using f64_mul_zeros [OF dt that] by simp
    then have "at_rest m'" using z u dd by (simp add: e at_rest_def f64_add_zeros)
    then show ?thesis using live r(2) by (simp add: e can_rest_def)
  qed
qed

lemma mock_run_rests:
  "mock_live m \<Longrightarrow> at_rest m \<Longrightarrow> can_rest T m \<Longrightarrow> list_all (\<lambda>(v, dt). f64_mag v = 0 \<and> f64_isfinite dt) xs \<Longrightarrow>
   mock_run T xs m = Some m' \<Longrightarrow> at_rest m'"
proof (induction xs arbitrary: m)
  case (Cons x xs)
  obtain v dt where x: "x = (v, dt)" by fastforce
  obtain m1 where m1: "mock_read T dt (m\<lparr> mk_commands := (mk_commands m)[0 := v] \<rparr>) = Some m1" "mock_run T xs m1 = Some m'"
    using Cons.prems(5) by (auto simp: x bind_eq_Some_conv)
  have "mock_live m1 \<and> at_rest m1 \<and> can_rest T m1"
    by (rule mock_read_rests [OF Cons.prems(1-3) _ _ m1(1)]) (use Cons.prems(4) in \<open>simp_all add: x\<close>)
  then show ?case using Cons.IH [OF _ _ _ _ m1(2)] Cons.prems(4) by simp
qed simp

section \<open>Properties\<close>

text \<open>C29: The controller's output is limited: with a limit that is not negative an update is defined and the
  command is the control law's value, cut to the limits; only a NaN, of the control law or of the limit, goes
  through. With a negative limit, which nothing rejects, the update is undefined.\<close>

theorem pendulum_command_limited:
  fixes c :: pendulum_controller
  assumes "length states = 4"
  defines "u \<equiv> pc_pd c (value_or 0 (states ! 2)) (value_or 0 (states ! 3))" and "hi \<equiv> pc_max_acceleration c"
  shows "if f64_lt hi 0 then pc_update c states True [old] = None
    else \<exists>cmd. pc_update c states True [old] = Some (RT_OK, [cmd]) \<and>
      (if f64_isnan u \<or> f64_isnan hi then cmd = u
       else \<not> f64_isnan cmd \<and> \<not> f64_lt hi cmd \<and> \<not> f64_lt cmd (f64_neg hi) \<and>
         (cmd = u \<or> f64_lt hi u \<and> cmd = hi \<or> f64_lt u (f64_neg hi) \<and> cmd = f64_neg hi))"
proof (cases "f64_lt hi 0")
  case True
  then show ?thesis using assms(1) by (simp add: pc_update_def Let_def hi_def f64_lt_neg)
next
  case False
  then have "pc_update c states True [old] = Some (RT_OK, [f64_clamp u (f64_neg hi) hi])"
    using pc_update_eq [OF assms(1)] by (simp add: u_def hi_def)
  then show ?thesis using False f64_key_neg [OF f64_mag_less, of hi]
    by (auto simp: f64_clamp_def f64_lt_def)
qed

text \<open>C30: The controller pushes back: for a pendulum that does not move, with a positive gain and finite numbers, the
  command is not negative below the balance angle and not positive above it, and never a NaN, whatever
  overflows or underflows.\<close>

theorem pendulum_command_restores:
  assumes "length states = 4" and "states ! 2 = Some pos" and "value_or 0 (states ! 3) = 0"
    and "f64_isfinite pos" "f64_isfinite (pc_balance_angle c)" "f64_isfinite (pc_kp c)" "f64_isfinite (pc_kd c)"
    and "f64_lt 0 (pc_kp c)" and "\<not> f64_lt (pc_max_acceleration c) 0" "\<not> f64_isnan (pc_max_acceleration c)"
  shows "\<exists>cmd. pc_update c states True [old] = Some (RT_OK, [cmd]) \<and> \<not> f64_isnan cmd \<and>
    (\<not> f64_lt (pc_balance_angle c) pos \<longrightarrow> \<not> f64_lt cmd 0) \<and> (\<not> f64_lt pos (pc_balance_angle c) \<longrightarrow> \<not> f64_lt 0 cmd)"
proof -
  let ?u = "pc_pd c pos 0" and ?hi = "pc_max_acceleration c"
  have e: "pc_update c states True [old] = Some (RT_OK, [f64_clamp ?u (f64_neg ?hi) ?hi])"
    using pc_update_eq [OF assms(1,9)] assms(2,3) by (simp add: value_or_def)
  have hi: "f64_side False ?hi" using assms(9,10) by (simp add: f64_side_def f64_lt_def)
  note fin = f64_finite_mag [OF assms(4)] f64_finite_mag [OF assms(5)]
  have side: "f64_side s (f64_clamp ?u (f64_neg ?hi) ?hi)"
    if "if s then f64_key (pc_balance_angle c) \<le> f64_key pos else f64_key pos \<le> f64_key (pc_balance_angle c)" for s
    by (intro f64_clamp_side hi pc_pd_side assms that) simp
  show ?thesis using e side [of True] side [of False] fin
    by (cases "f64_key pos \<le> f64_key (pc_balance_angle c)") (auto simp: f64_side_def f64_lt_def)
qed

text \<open>The sine wave starts with each activation: whatever the controller did before, after \<open>on_activate\<close> the
  commands depend on the time since the first update only.\<close>

theorem sine_phase_restarts:
  assumes "sw_on_activate c = (r, c')"
  shows "sw_run sin_f seconds (t0 # ts) (c', [old]) = Some (map (\<lambda>t. sw_value sin_f c (seconds t t0)) (t0 # ts))"
proof -
  have c': "c' = c\<lparr> sw_start := None \<rparr>" using assms by (simp add: sw_on_activate_def)
  show ?thesis using sw_run_started [of "c\<lparr> sw_start := Some t0 \<rparr>" t0 sin_f seconds ts]
    by (simp add: c' sw_update_def set_first_command_def)
qed

text \<open>C38: The simulation needs its activation: after initialisation a cycle of any positive period uses variables
  that have no value; after activation every run is defined, whatever is commanded, and the state
  interfaces show the simulated state.\<close>

theorem mock_read_needs_activation:
  assumes "mock_on_init stod True params mock_new = Some (CB_SUCCESS, m)"
  shows "(\<forall>dt. mock_read T dt m = (if f64_lt dt 0 \<or> f64_eq dt 0 then Some m else None)) \<and>
    (\<exists>m'. mock_on_activate m = Some (CB_SUCCESS, m') \<and> (\<forall>xs. \<exists>m''. mock_run T xs m' = Some m'' \<and>
       map Some (mk_states m'') = [mk_q1 m'', mk_q1_dot m'', mk_q2 m'', mk_q2_dot m'']))"
proof
  obtain J1 J2 m2 l2 b1 b2 g q where "m = mock_new\<lparr> mk_J1 := Some J1, mk_J2 := Some J2, mk_m2 := Some m2, mk_l2 := Some l2,
    mk_b1 := Some b1, mk_b2 := Some b2, mk_g := Some g, mk_initial_q2 := Some q, mk_states := [0, 0, 0, 0], mk_commands := [0] \<rparr>"
    using mock_init_params [OF assms] by blast
  then show "\<forall>dt. mock_read T dt m = (if f64_lt dt 0 \<or> f64_eq dt 0 then Some m else None)"
    by (simp add: mock_read_def mock_new_def)
  obtain m' where m': "mock_on_activate m = Some (CB_SUCCESS, m')" "mock_live m'" using mock_activate_live [OF assms] by blast
  have "\<exists>m''. mock_run T xs m' = Some m'' \<and> map Some (mk_states m'') = [mk_q1 m'', mk_q1_dot m'', mk_q2 m'', mk_q2_dot m'']" for xs
    using mock_run_live [OF m'(2), of T xs] by (auto simp: mock_live_def)
  then show "\<exists>m'. mock_on_activate m = Some (CB_SUCCESS, m') \<and> (\<forall>xs. \<exists>m''. mock_run T xs m' = Some m'' \<and>
       map Some (mk_states m'') = [mk_q1 m'', mk_q1_dot m'', mk_q2 m'', mk_q2_dot m''])" using m'(1) by blast
qed

text \<open>Rest is a fixed point of the simulation: started at angle zero and commanded no acceleration, the pendulum
  stays at rest, exactly, for any sequence of periods, if the constants of its equation of motion are
  finite, its inertia is not zero, and the sine of zero is zero.\<close>

theorem mock_stays_at_rest:
  assumes "mock_on_init stod True params mock_new = Some (CB_SUCCESS, m)" and "mock_on_activate m = Some (CB_SUCCESS, m')"
    and "f64_mag (the (mk_initial_q2 m)) = 0" and "can_rest T m"
    and "list_all (\<lambda>(v, dt). f64_mag v = 0 \<and> f64_isfinite dt) xs"
  shows "\<exists>m''. mock_run T xs m' = Some m'' \<and> length (mk_states m'') = 4 \<and> list_all (\<lambda>v. f64_eq v 0) (mk_states m'')"
proof -
  have a: "mock_live m'" "at_rest m'" "can_rest T m'"
    using mock_activate_live [OF assms(1)] assms(2-4) by (auto simp: at_rest_def can_rest_def)
  obtain m'' where r: "mock_run T xs m' = Some m''" "mock_live m''" using mock_run_live [OF a(1)] by blast
  have "at_rest m''" by (rule mock_run_rests [OF a assms(5) r(1)])
  then have "list_all (\<lambda>v. f64_eq v 0) (mk_states m'')"
    by (auto simp: at_rest_def list_all_iff f64_eq_def f64_isnan_def f64_key_def F64_INF_def)
  moreover have "length (mk_states m'') = 4" using r(2) by (auto elim!: mock_liveE)
  ultimately show ?thesis using r(1) by blast
qed

text \<open>The simulated gravity pulls towards angle zero: released at an angle with a positive sine, without a command,
  the pendulum does not move away from zero, whatever the rounding. The angle's comment says that it is
  measured from upright, where gravity pushes away.\<close>

theorem mock_gravity_pulls_back:
  assumes "mock_on_init stod True params mock_new = Some (CB_SUCCESS, m)" and "mock_on_activate m = Some (CB_SUCCESS, m')"
    and q: "mk_initial_q2 m = Some q" "f64_side False (tr_sin T q)" and v: "f64_mag v = 0"
    and c: "f64_isfinite (the (mk_J2 m))" "f64_lt 0 (the (mk_J2 m))" "f64_isfinite (the (mk_b2 m))"
      "f64_isfinite (f64_mul (the (mk_J2 m)) (tr_cos T q))"
      "f64_isfinite (f64_mul (f64_mul (the (mk_m2 m)) (the (mk_g m))) (the (mk_l2 m)))"
      "f64_lt 0 (f64_mul (f64_mul (the (mk_m2 m)) (the (mk_g m))) (the (mk_l2 m)))"
    and dt: "f64_isfinite dt" "f64_lt 0 dt"
  shows "\<exists>m'' w. mock_run T [(v, dt)] m' = Some m'' \<and> mk_q2_dot m'' = Some w \<and> \<not> f64_isnan w \<and> \<not> f64_lt 0 w"
proof -
  obtain J1 J2 m2 l2 b1 b2 g q' where m: "m = mock_new\<lparr> mk_J1 := Some J1, mk_J2 := Some J2, mk_m2 := Some m2, mk_l2 := Some l2,
    mk_b1 := Some b1, mk_b2 := Some b2, mk_g := Some g, mk_initial_q2 := Some q', mk_states := [0, 0, 0, 0], mk_commands := [0] \<rparr>"
    using mock_init_params [OF assms(1)] by blast
  have q': "q' = q" using q(1) by (simp add: m)
  have pos: "0 < f64_key J2" "0 < f64_key (f64_mul (f64_mul m2 g) l2)" "0 < f64_key dt"
    using c(2,6) dt(2) by (simp_all add: m f64_lt_def)
  have z: "f64_isfinite (f64_neg b2)" using c(3) by (simp add: m f64_isfinite_def)
  define dd where "dd = mock_q2_ddot T J2 m2 l2 b2 g q 0 v"
  have "f64_side True (f64_sub (f64_mul (f64_neg b2) 0) (f64_mul (f64_mul (f64_mul m2 g) l2) (tr_sin T q)))"
  proof -
    have "f64_side False (f64_mul (f64_mul (f64_mul m2 g) l2) (tr_sin T q))"
      by (rule f64_mul_side) (use c(5) pos(2) q(2) in \<open>simp_all add: m\<close>)
    moreover have "f64_mag (f64_mul (f64_neg b2) 0) = 0" using f64_mul_zeros [OF z, of 0] by simp
    ultimately show ?thesis by (intro f64_zero_sub_side) simp_all
  qed
  then have "f64_side True (f64_sub (f64_sub (f64_mul (f64_neg b2) 0) (f64_mul (f64_mul (f64_mul m2 g) l2) (tr_sin T q)))
      (f64_mul (f64_mul J2 (tr_cos T q)) v))"
    by (rule f64_sub_zero_side) (use f64_mul_zeros [OF _ v] c(4) in \<open>simp add: m\<close>)
  then have "f64_side True dd" unfolding dd_def mock_q2_ddot_def by (rule f64_div_side) (use c(1) pos(1) in \<open>simp_all add: m\<close>)
  then have "f64_side True (f64_mul dd dt)" using f64_mul_side [OF dt(1) pos(3)] by (simp add: f64_mul_commute)
  then have w: "f64_side True (f64_add 0 (f64_mul dd dt))" by (rule f64_add_zero_side)
  have "\<not> f64_lt dt 0" "\<not> f64_eq dt 0" using pos(3) by (simp_all add: f64_lt_def f64_eq_def)
  then have "\<exists>m''. mock_run T [(v, dt)] m' = Some m'' \<and> mk_q2_dot m'' = Some (f64_add 0 (f64_mul dd dt))"
    using assms(2) by (auto simp: m q' mock_new_def mock_on_activate_def publish_states_def mock_read_def Let_def dd_def)
  then show ?thesis using w by (auto simp: f64_side_def f64_lt_def)
qed

section \<open>Witnesses\<close>

text \<open>The controller with its default parameters: gains 1 and 1/10, limit 5.\<close>

definition demo_pc :: pendulum_controller where
  "demo_pc = snd (the (pc_on_configure (snd (pc_on_init (\<lambda>name v. Some v) Map.empty))))"

lemma demo_pc:
  "demo_pc = \<lparr> pc_motor_state = ''motor_joint/position'', pc_motor_vel = ''motor_joint/velocity'',
     pc_pendulum_state = ''pendulum_joint/position'', pc_pendulum_vel = ''pendulum_joint/velocity'',
     pc_motor_command = ''motor_joint/acceleration'', pc_balance_angle = 0, pc_kp = 0x3FF0000000000000,
     pc_kd = 0x3FB999999999999A, pc_max_acceleration = 0x4014000000000000 \<rparr>"
  by (simp add: demo_pc_def pc_on_init_def declare_parameters_def pc_defaults_def pc_on_configure_def as_string_def as_double_def)

lemmas bits_defs = f64_lt_def f64_key_def f64_isnan_def f64_sign_def f64_mag_def F64_INF_def f64_isfinite_def

text \<open>A pendulum at 100, and at -1, which does not move.\<close>

theorem pendulum_command_limited_witness:
  "(\<exists>cmd. pc_update demo_pc [None, None, Some 0x4059000000000000, Some 0] True [0] = Some (RT_OK, [cmd]) \<and>
      \<not> f64_isnan cmd \<and> \<not> f64_lt 0x4014000000000000 cmd \<and> \<not> f64_lt cmd (f64_neg 0x4014000000000000)) \<and>
   pc_update (demo_pc\<lparr> pc_max_acceleration := 0xC014000000000000 \<rparr>) [None, None, Some 0x4059000000000000, Some 0] True [0] = None"
proof
  let ?states = "[None, None, Some 0x4059000000000000, Some 0] :: f64 option list"
  have "f64_side True (pc_pd demo_pc 0x4059000000000000 0)"
    by (rule pc_pd_side) (simp_all add: demo_pc bits_defs)
  then have u: "\<not> f64_isnan (pc_pd demo_pc (value_or 0 (?states ! 2)) (value_or 0 (?states ! 3)))"
    by (simp add: f64_side_def value_or_def)
  have hi: "\<not> f64_lt (pc_max_acceleration demo_pc) 0" "\<not> f64_isnan (pc_max_acceleration demo_pc)"
    "pc_max_acceleration demo_pc = 0x4014000000000000" by (simp_all add: demo_pc bits_defs)
  show "\<exists>cmd. pc_update demo_pc ?states True [0] = Some (RT_OK, [cmd]) \<and> \<not> f64_isnan cmd \<and>
      \<not> f64_lt 0x4014000000000000 cmd \<and> \<not> f64_lt cmd (f64_neg 0x4014000000000000)"
    using pendulum_command_limited [of ?states demo_pc 0] u hi(1,2) unfolding hi(3) by auto
  have "f64_lt (pc_max_acceleration (demo_pc\<lparr> pc_max_acceleration := 0xC014000000000000 \<rparr>)) 0"
    by (simp add: bits_defs)
  then show "pc_update (demo_pc\<lparr> pc_max_acceleration := 0xC014000000000000 \<rparr>) ?states True [0] = None"
    using pendulum_command_limited [of ?states "demo_pc\<lparr> pc_max_acceleration := 0xC014000000000000 \<rparr>" 0] by simp
qed

theorem pendulum_command_restores_witness:
  "\<exists>cmd. pc_update demo_pc [None, None, Some 0xBFF0000000000000, None] True [0] = Some (RT_OK, [cmd]) \<and>
     \<not> f64_isnan cmd \<and> \<not> f64_lt cmd 0"
proof -
  have "\<not> f64_lt (pc_balance_angle demo_pc) 0xBFF0000000000000" by (simp add: demo_pc bits_defs)
  moreover have "\<exists>cmd. pc_update demo_pc [None, None, Some 0xBFF0000000000000, None] True [0] = Some (RT_OK, [cmd]) \<and> \<not> f64_isnan cmd \<and>
      (\<not> f64_lt (pc_balance_angle demo_pc) 0xBFF0000000000000 \<longrightarrow> \<not> f64_lt cmd 0) \<and>
      (\<not> f64_lt 0xBFF0000000000000 (pc_balance_angle demo_pc) \<longrightarrow> \<not> f64_lt 0 cmd)"
    by (rule pendulum_command_restores) (simp_all add: demo_pc bits_defs value_or_def)
  ultimately show ?thesis by blast
qed

definition demo_sw :: "int sine_controller" where
  "demo_sw = \<lparr> sw_component = ''sine_wave'', sw_cmd_interface = ''amplitude'', sw_amplitude = 0x4014000000000000,
     sw_frequency = 0x4000000000000000, sw_offset = 0, sw_start = Some 3 \<rparr>"

theorem sine_phase_restarts_witness:
  "sw_run (\<lambda>x. x) (\<lambda>a b. f64_of_int (a - b)) [7, 9] (snd (sw_on_activate demo_sw), [1]) =
     Some [sw_value (\<lambda>x. x) demo_sw (f64_of_int 0), sw_value (\<lambda>x. x) demo_sw (f64_of_int 2)]"
  using sine_phase_restarts [of demo_sw CB_SUCCESS "snd (sw_on_activate demo_sw)" "\<lambda>x. x" "\<lambda>a b. f64_of_int (a - b)" 7 "[9]" 1]
  by (simp add: sw_on_activate_def del: sw_run.simps)

text \<open>A pendulum with all constants 1, started at angle 0.\<close>

definition demo_params :: "string \<Rightarrow> string option" where
  "demo_params key = (if key = ''initial_q2'' then Some ''0'' else Some ''1'')"

definition demo_stod :: "string \<Rightarrow> stod_result" where
  "demo_stod s = (if s = ''0'' then Stod 0 else Stod 0x3FF0000000000000)"

definition demo_mock :: mock where
  "demo_mock = snd (the (mock_on_init demo_stod True demo_params mock_new))"

lemmas mock_on_init_defs = mock_on_init_def mock_parameters_def mock_new_def demo_params_def demo_stod_def resize_def

lemma demo_mock:
  "mock_on_init demo_stod True demo_params mock_new = Some (CB_SUCCESS, demo_mock)"
  by (simp add: demo_mock_def mock_on_init_defs)

definition demo_trig :: trig where
  "demo_trig = \<lparr> tr_sin = \<lambda>x. x, tr_cos = \<lambda>x. 0x3FF0000000000000 \<rparr>"

theorem mock_read_needs_activation_witness:
  "mock_on_init demo_stod True demo_params mock_new = Some (CB_SUCCESS, demo_mock) \<and>
   mock_read demo_trig 0x3FF0000000000000 demo_mock = None"
proof -
  have "\<not> f64_lt 0x3FF0000000000000 0" "\<not> f64_eq 0x3FF0000000000000 0" by (simp_all add: bits_defs f64_eq_def)
  then show ?thesis using mock_read_needs_activation [OF demo_mock, of demo_trig] demo_mock by simp
qed

lemma one_times_one: "f64_mul 0x3FF0000000000000 0x3FF0000000000000 = 0x3FF0000000000000"
proof -
  have d: "f64_decode 0x3FF0000000000000 = (2 ^ 52, -52)"
    by (simp add: f64_decode_def fmt_decode_def f64_mag_def)
  have "fmt_round 52 (-1074) (2 ^ 52 * 2 ^ 52) (-52 - int 52) = fmt_round 52 (-1074) (2 ^ 52) (-52)" by (rule fmt_round_scale)
  also have "\<dots> = f64_mag 0x3FF0000000000000"
    by (rule fmt_decode_round) (use d in \<open>simp_all add: f64_decode_def f64_mag_def\<close>)
  finally have "f64_round False (2 ^ 52 * 2 ^ 52) (-52 + -52) = f64_make False (f64_mag 0x3FF0000000000000)"
    by (simp add: f64_round_def f64_mag_def F64_INF_def)
  also have "\<dots> = 0x3FF0000000000000" using f64_make_id [of "0x3FF0000000000000"] by (simp add: f64_sign_def)
  finally show ?thesis
    unfolding f64_mul_def d by (simp add: Let_def f64_isnan_def f64_mag_def f64_sign_def F64_INF_def)
qed

text \<open>Without a mass, so that all products of the constants are zeros and ones.\<close>

definition rest_params :: "string \<Rightarrow> string option" where
  "rest_params key = (if key = ''J2'' then Some ''1'' else Some ''0'')"

definition rest_mock :: mock where
  "rest_mock = snd (the (mock_on_init demo_stod True rest_params mock_new))"

theorem mock_stays_at_rest_witness:
  "\<exists>m' m''. mock_on_activate rest_mock = Some (CB_SUCCESS, m') \<and>
     mock_run demo_trig [(0, 0x3FF0000000000000), (0, 0x3FF0000000000000)] m' = Some m'' \<and>
     list_all (\<lambda>v. f64_eq v 0) (mk_states m'')"
proof -
  have i: "mock_on_init demo_stod True rest_params mock_new = Some (CB_SUCCESS, rest_mock)"
    by (simp add: rest_mock_def rest_params_def mock_on_init_defs)
  obtain m' where a: "mock_on_activate rest_mock = Some (CB_SUCCESS, m')" using mock_activate_live [OF i] by blast
  have v: "mk_J2 rest_mock = Some 0x3FF0000000000000" "mk_b2 rest_mock = Some 0" "mk_m2 rest_mock = Some 0"
    "mk_g rest_mock = Some 0" "mk_l2 rest_mock = Some 0" "mk_initial_q2 rest_mock = Some 0"
    by (simp_all add: rest_mock_def rest_params_def mock_on_init_defs)
  have "f64_isfinite (f64_mul (f64_mul 0 0) 0)"
    by (intro f64_zero_finite f64_mul_zeros [THEN conjunct1]) simp_all
  then have c: "can_rest demo_trig rest_mock"
    using one_times_one by (simp add: can_rest_def v demo_trig_def) (simp add: bits_defs)
  have "\<exists>m''. mock_run demo_trig [(0, 0x3FF0000000000000), (0, 0x3FF0000000000000)] m' = Some m'' \<and>
      length (mk_states m'') = 4 \<and> list_all (\<lambda>v. f64_eq v 0) (mk_states m'')"
    by (rule mock_stays_at_rest [OF i a _ c]) (simp_all add: v f64_isfinite_def F64_INF_def f64_mag_def)
  then show ?thesis using a by blast
qed

text \<open>All constants 1, released at angle 1.\<close>

definition tilted_mock :: mock where
  "tilted_mock = snd (the (mock_on_init demo_stod True (\<lambda>key. Some ''1'') mock_new))"

theorem mock_gravity_pulls_back_witness:
  "\<exists>m' m'' w. mock_on_activate tilted_mock = Some (CB_SUCCESS, m') \<and>
     mock_run demo_trig [(0, 0x3FF0000000000000)] m' = Some m'' \<and> mk_q2_dot m'' = Some w \<and> \<not> f64_isnan w \<and> \<not> f64_lt 0 w"
proof -
  let ?one = "0x3FF0000000000000 :: f64"
  have i: "mock_on_init demo_stod True (\<lambda>key. Some ''1'') mock_new = Some (CB_SUCCESS, tilted_mock)"
    by (simp add: tilted_mock_def mock_on_init_defs)
  obtain m' where a: "mock_on_activate tilted_mock = Some (CB_SUCCESS, m')" using mock_activate_live [OF i] by blast
  have v: "mk_J2 tilted_mock = Some ?one" "mk_b2 tilted_mock = Some ?one" "mk_m2 tilted_mock = Some ?one"
    "mk_g tilted_mock = Some ?one" "mk_l2 tilted_mock = Some ?one" "mk_initial_q2 tilted_mock = Some ?one"
    by (simp_all add: tilted_mock_def mock_on_init_defs)
  have one: "f64_isfinite ?one" "f64_lt 0 ?one" "f64_side False ?one" by (simp_all add: bits_defs f64_side_def)
  have p: "f64_isfinite (f64_mul (f64_mul ?one ?one) ?one)" "f64_lt 0 (f64_mul (f64_mul ?one ?one) ?one)"
    using one(1,2) by (simp_all add: one_times_one)
  have "\<exists>m'' w. mock_run demo_trig [(0, ?one)] m' = Some m'' \<and> mk_q2_dot m'' = Some w \<and> \<not> f64_isnan w \<and> \<not> f64_lt 0 w"
    by (rule mock_gravity_pulls_back [OF i a v(6)]) (use one p one_times_one in \<open>simp_all add: v demo_trig_def\<close>)
  then show ?thesis using a by blast
qed

end
