(* ===== verification/Spec2Isabelle.thy ===== *)
theory Spec2Isabelle
  imports Thread_Life_Props Pendulum_Tiers Transport_Apps_Props Closed_Loop Demo_Controllers_Props
begin

text \<open>
  \<^bold>\<open>Zephyr--Zenoh integration for ros2_control.\<close> The repository connects microcontrollers that run Zephyr to a ROS 2
  host over Zenoh. A Tier 1 device speaks the CDR encoding and the key expressions of \<open>rmw_zenoh\<close>, so that a ROS 2
  node sees it as a node; a Tier 2 device exchanges packed C structs with the host's hardware component, generated
  from a schema file that both sides share. This development models both sides and proves what they promise to each
  other. Every definition is translated from the source; paths below are relative to \<open>src/\<close>.

  \<^bold>\<open>The parts, bottom up.\<close>

  \<^item> \<open>Prelude\<close>: bytes, little-endian words, memory reads and writes with a failure outside of the buffer,
    C strings. \<open>Ieee\<close> and \<open>Ieee_Arith\<close>: \<open>double\<close> and \<open>float\<close> as 64- and 32-bit words, conversions, and
    the rounded arithmetic that the code uses.
  \<^item> CDR (\<open>zenbedded_transport/src/serialization.c\<close>): \<open>Serialization\<close> has the six functions over an
    explicit buffer; \<open>None\<close> is an access outside of it. \<open>Cdr_Spec\<close> is the encoding as a stream of bytes and
    holes, \<open>Cdr_Reader\<close> a reader that knows no offsets. \<open>Serialization_Proofs\<close> and \<open>Serialization_Props\<close>
    show that the functions refine the encoding: exact initialisation, updates in place, round trips with the
    reader in both directions, safety on any received bytes.
  \<^item> Transport (\<open>zenbedded_transport/src/zenoh_transport.c\<close>, \<open>rihs_ledger.h\<close>): \<open>Rihs_Ledger\<close> has the type
    hashes and key expressions, \<open>Slot_Pool\<close> the two pools (a locale, interpreted on both), \<open>Zenoh_Transport\<close>
    every function over its static state and a log of the calls into zenoh-pico. \<open>Zenoh_Session\<close> is an automaton
    of what zenoh-pico allows and the proof that the transport keeps to it for all orders of calls and all answers;
    \<open>Transport_Props\<close> has the numbering of publications, delivery, release, and separation of keys.
  \<^item> Client (\<open>zenbedded_rcl/src/zenbedded_client.cpp\<close>, \<open>zenbedded_client.hpp\<close>, \<open>codecs.hpp\<close>): \<open>Codecs\<close> has the
    three codecs as instances of the interfaces \<open>state_codec\<close> and \<open>command_codec\<close>; \<open>Double_Buffer\<close> has the versioned
    double buffers, with the accesses of a reader and a writer as steps of one relation; \<open>Zenbedded_Client\<close> has the
    operations; \<open>Client_Proofs\<close> proves them once for any two codecs (locale \<open>client_codecs\<close>), and
    \<open>Client_Props\<close> interprets it for joint states and for raw structs, \<open>Joint_Positions\<close> for joint states of which only
    the positions are set. \<open>Control_Thread\<close> has the loop of the
    control thread; \<open>Control_Thread_Props\<close> shows what a ROS 2 subscriber hears of it, whatever zenoh accepts
    or refuses, that the thread stops, for any codecs and in both tiers, and its pace. \<open>Thread_Life\<close> has the application, the control thread, the deliveries of zenoh and a
    millisecond clock as an interleaving step relation, in which \<open>start_thread\<close>, \<open>stop_thread\<close> and \<open>destroy\<close> stop where they
    wait; \<open>Thread_Life_Props\<close> shows that every interleaving is a run of the sequential client, and when the 200 ms of
    \<open>stop_thread\<close> are enough for a publication. \<open>Client_Rounds\<close> has what applications that poll the client share,
    and that they do not notice the publications of the control thread.
  \<^item> Host (\<open>zenbedded_hardware_interface/src\<close>): \<open>Interface_Schema\<close> has \<open>interface_schema.cpp\<close> over an
    abstract YAML tree; \<open>Schema_Layout\<close>, \<open>Schema_Fields\<close>, \<open>Schema_Header\<close> and \<open>Schema_Props\<close> show the layout, the
    conversion of fields, and that the packed structs of the generated header, laid out by a C compiler, have the
    offsets of the schema. \<open>Zenbedded_Hardware\<close> has \<open>zenbedded_hardware.cpp\<close> and its events as a step relation;
    \<open>Hardware_Proofs\<close> and \<open>Hardware_Props\<close> show its invariant, what a cycle reads and writes, and when it sends.
  \<^item> \<open>Closed_Loop\<close> composes host and firmware: a command that the host writes is read member by member by the
    firmware's client, a state that the firmware publishes appears in the host's interfaces, and a host that is
    deactivated stops the motor of the pendulum.
  \<^item> Demos (\<open>demos/\<close>): \<open>Pendulum_Firmware\<close> has both firmware images of the inverted pendulum (start-up, cycle,
    command watchdog, stepper), \<open>Pendulum_Props\<close> its safety; \<open>Pendulum_Tier2\<close> translates the Tier 2 image's own text of the
    constants, the helpers and the loop body and shows that they are the shared ones, and \<open>Pendulum_Tiers\<close> that the two
    images drive the motor alike; \<open>Demo_Controllers\<close> the two ros2_control controllers and
    the simulated pendulum; \<open>Demo_Apps\<close> the Tier 2 sine wave generator, end-to-end node and client test; \<open>Tier1_App\<close>
    the Tier 1 end-to-end node; \<open>Transport_Apps\<close> the applications without the client, one of them with a data race
    between its callback and its thread. The theories named \<open>..._Props\<close> have their properties.

  \<^bold>\<open>Conventions.\<close> A C object is a record, an out-parameter a component of the result, an error code an \<open>int\<close>, and
  \<open>None\<close> undefined behaviour or a loop that never ends; so a theorem that a result is \<open>Some\<close> also says that the
  code is memory safe and terminates there. Machine integers keep their width and wrap. Waiting loops and retry loops
  are \<open>partial_function (option)\<close>, so no fuel is chosen anywhere; each has a theorem that says when it ends. Runs are
  lists of operations, or reachability under a step relation.

  \<^bold>\<open>Parameters.\<close> zenoh-pico, the random numbers and the clock (\<open>zenoh_env\<close>, whose answers may depend on the whole log),
  the Zenoh C++ API (\<open>zenoh_cpp\<close>), \<open>realtime_tools::RealtimeBuffer\<close> (\<open>rt_buffer\<close> with the laws \<open>rt_buffer_laws\<close>,
  witnessed by a two-slot buffer), yaml-cpp (\<open>yaml\<close>), the file system, the stepper, the encoder, WiFi, DHCP and SNTP of the
  demos, the parameter services and \<open>std::stod\<close> of the controllers, sine and cosine, and the Kconfig constants
  (\<open>transport_config\<close>, \<open>client_config\<close>). How late the kernel runs a thread is \<open>lag\<close> in \<open>Thread_Life\<close>, a bound in milliseconds
  or none at all. Hypotheses on them are stated in each theorem and hold in its witness.

  \<^bold>\<open>Not modelled.\<close> Log output; the sleeps that only pace a loop; the kernel's scheduling beyond the interleavings above;
  weaker memory models than sequential consistency (the buffers use Zephyr's atomics) and the fusing of floating point
  operations by a compiler; the registration for introspection and the callbacks of the controllers that only return
  SUCCESS; \<open>zenbedded_rcl/src/hardware_component.cpp\<close>, which is empty; the compile-time check of codecs in
  \<open>codecs.hpp\<close>, which is the type of the codec records; Python nodes, launch files, CMake, Kconfig and device trees;
  the tests, which check modelled functions on examples.
\<close>

end
